(* ===== verification/Prelude.thy ===== *)
theory Prelude
  imports Complex_Main "HOL-Library.Sublist"
begin

text \<open>
  Shared vocabulary of the development: the types that name the program's data
  (user ids, calendar days, tags, scores), the Python exceptions the runners can
  raise, a loop combinator that stops at the first exception (a Python \<open>for\<close>
  loop whose body may raise), and the generic facts on lists, sums and maps that
  the component theories use.
\<close>

section \<open>Names of the model's types\<close>

text \<open>
  User ids are SQLite \<open>INTEGER\<close> keys and Python ints: \<open>int\<close>.
  A calendar day is Python's \<open>date.toordinal()\<close>; \<open>date + timedelta(k)\<close> is
  addition on it. Scores are Python floats; the model computes them exactly, in
  \<open>rat\<close> (see the root theory for what that abstracts).
\<close>

type_synonym uid = int
type_synonym day = int
type_synonym tag = string
type_synonym score = rat

text \<open>The exceptions a runner can raise, one constructor per Python exception class.\<close>

datatype py_error =
    ZeroDivisionError
  | KeyError
  | IndexError
  | OperationalError string  \<comment> \<open>sqlite3: \<open>no such table: <name>\<close>\<close>
  | IntegrityError  \<comment> \<open>sqlite3: a \<open>PRIMARY KEY\<close> collision\<close>
  | DatabaseError string  \<comment> \<open>pandas: \<open>read_sql_query\<close> on a failing query\<close>
  | PowerIterationFailedConvergence

text \<open>
  A row of the warehouse table \<open>QuestionRankS\<close> that both runners read (produced by
  \<open>Script/Rank.sql\<close>, outside this repository): one question, its creation day, its
  tags, its answerers \<open>rank_id\<close> with their ranks \<open>rank\<close> (1 is best, ties
  allowed), its asker, and its accepted answerer if any.
\<close>

record qrow =
  q_date :: day
  q_tags :: "tag list"
  rank_id :: "uid list"
  rank :: "int list"
  asker_id :: uid
  accept_id :: "uid option"

named_theorems frame_simps
  "facts saying that an operation leaves a part of the state as it was"

section \<open>A loop whose body may raise\<close>

text \<open>
  \<open>for x in xs: s = body(s, x)\<close> where \<open>body\<close> may raise: the loop stops at the
  first exception and propagates it.
\<close>

fun fold_err :: "('a \<Rightarrow> 's \<Rightarrow> py_error + 's) \<Rightarrow> 'a list \<Rightarrow> 's \<Rightarrow> py_error + 's" where
  "fold_err f [] s = Inr s"
| "fold_err f (x # xs) s = (case f x s of Inl e \<Rightarrow> Inl e | Inr s' \<Rightarrow> fold_err f xs s')"

lemma fold_err_append:
  "fold_err f (xs @ ys) s = (case fold_err f xs s of Inl e \<Rightarrow> Inl e | Inr s' \<Rightarrow> fold_err f ys s')"
  by (induction xs arbitrary: s) (auto split: sum.splits)

lemma fold_err_Cons_Inl: "f x s = Inl e \<Longrightarrow> fold_err f (x # xs) s = Inl e"
  by simp

lemma fold_err_inv:
  assumes step: "\<And>x s s'. x \<in> set xs \<Longrightarrow> P s \<Longrightarrow> f x s = Inr s' \<Longrightarrow> P s'"
    and "P s" and "fold_err f xs s = Inr s'"
  shows "P s'"
  using assms
proof (induction xs arbitrary: s)
  case Nil
  then show ?case by simp
next
  case (Cons x xs)
  then obtain t where t: "f x s = Inr t" and rest: "fold_err f xs t = Inr s'"
    by (auto split: sum.splits)
  from Cons.prems(1) [OF _ Cons.prems(2) t] have "P t" by simp
  with Cons.IH [of t] Cons.prems(1) rest show ?case by (meson list.set_intros(2))
qed

lemma fold_err_mem:
  assumes "x \<in> set xs" and "fold_err f xs s = Inr s'"
  shows "\<exists>ys s1 s2. set ys \<subseteq> set xs \<and> f x s1 = Inr s2 \<and> fold_err f ys s2 = Inr s'"
proof -
  obtain as bs where xs: "xs = as @ x # bs" using split_list [OF assms(1)] by blast
  then show ?thesis
    using assms(2) by (auto simp: fold_err_append split: sum.splits)
qed

lemma fold_err_total:
  assumes "\<And>x s. x \<in> set xs \<Longrightarrow> P s \<Longrightarrow> \<exists>s'. f x s = Inr s' \<and> P s'" and "P s"
  shows "\<exists>s'. fold_err f xs s = Inr s' \<and> P s'"
  using assms
proof (induction xs arbitrary: s)
  case Nil
  then show ?case by simp
next
  case (Cons x xs)
  then obtain t where "f x s = Inr t" and "P t" by (meson list.set_intros(1))
  with Cons.IH [of t] Cons.prems(1) show ?case by simp
qed

section \<open>Sums over lists\<close>

text \<open>
  Summing an edge list grouped by one endpoint: when every edge's endpoint is one of a
  duplicate-free list of nodes, summing per node and then over nodes is summing
  over the edges.
\<close>

lemma sum_list_group:
  fixes f :: "'e \<Rightarrow> 'b::comm_monoid_add"
  assumes "distinct ns" and "\<forall>e \<in> set es. g e \<in> set ns"
  shows "(\<Sum>j\<leftarrow>ns. \<Sum>e\<leftarrow>filter (\<lambda>e. g e = j) es. f e) = (\<Sum>e\<leftarrow>es. f e)"
  using assms(2)
proof (induction es)
  case Nil
  then show ?case by (simp add: sum_list_triv)
next
  case (Cons e es)
  have one: "(\<Sum>j\<leftarrow>ns. if g e = j then f e else 0) = f e"
    using assms(1) Cons.prems by (simp add: sum_list_distinct_conv_sum_set sum.delta)
  have "(\<Sum>j\<leftarrow>ns. \<Sum>e'\<leftarrow>filter (\<lambda>e'. g e' = j) (e # es). f e')
      = (\<Sum>j\<leftarrow>ns. (if g e = j then f e else 0) + (\<Sum>e'\<leftarrow>filter (\<lambda>e'. g e' = j) es. f e'))"
    by (rule arg_cong [where f = sum_list], rule map_cong) auto
  also have "\<dots> = (\<Sum>j\<leftarrow>ns. if g e = j then f e else 0) + (\<Sum>j\<leftarrow>ns. \<Sum>e'\<leftarrow>filter (\<lambda>e'. g e' = j) es. f e')"
    by (simp add: sum_list_addf)
  also have "\<dots> = f e + (\<Sum>e'\<leftarrow>es. f e')"
    using one Cons by simp
  finally show ?case by simp
qed

lemma sum_list_if_filter:
  "(\<Sum>x\<leftarrow>xs. if P x then f x else 0) = (\<Sum>x\<leftarrow>filter P xs. f x)"
  by (induction xs) simp_all

lemma int_sum_list_map: "int (\<Sum>x\<leftarrow>xs. f x) = (\<Sum>x\<leftarrow>xs. int (f x))"
  by (induction xs) simp_all

lemma count_list_concat:
  "count_list (concat xss) y = (\<Sum>xs\<leftarrow>xss. count_list xs y)"
  by (induction xss) simp_all

section \<open>Maps\<close>

text \<open>Python's \<open>d.update(e)\<close> over a list of pairs: later pairs win.\<close>

definition dict_update :: "('k \<rightharpoonup> 'v) \<Rightarrow> ('k \<times> 'v) list \<Rightarrow> ('k \<rightharpoonup> 'v)" where
  "dict_update m kvs = fold (\<lambda>(k, v) m. m(k \<mapsto> v)) kvs m"

text \<open>
  \<open>DataFrame.to_sql(..., if_exists='append')\<close> into a table keyed by \<open>user_id\<close>: one
  \<open>INSERT\<close> per row; a key already present violates the \<open>PRIMARY KEY\<close>.
\<close>

definition sql_insert :: "'k \<times> 'v \<Rightarrow> ('k \<rightharpoonup> 'v) \<Rightarrow> py_error + ('k \<rightharpoonup> 'v)" where
  "sql_insert ur tbl =
     (case ur of (u, r) \<Rightarrow> if tbl u \<noteq> None then Inl IntegrityError else Inr (tbl(u \<mapsto> r)))"

lemma dict_update_Nil [simp]: "dict_update m [] = m"
  by (simp add: dict_update_def)

lemma dict_update_Cons [simp]: "dict_update m (kv # kvs) = dict_update (m(fst kv \<mapsto> snd kv)) kvs"
  by (cases kv) (simp add: dict_update_def)

lemma dict_update_other:
  "k \<notin> fst ` set kvs \<Longrightarrow> dict_update m kvs k = m k"
  by (induction kvs arbitrary: m) auto

lemma dom_dict_update: "dom (dict_update m kvs) = dom m \<union> fst ` set kvs"
  by (induction kvs arbitrary: m) simp_all

lemma dict_update_zip_other:
  "k \<notin> set ks \<Longrightarrow> dict_update m (zip ks vs) k = m k"
  by (rule dict_update_other) (auto dest: set_zip_leftD)

lemma sql_insert_fresh:
  "distinct (map fst rs) \<Longrightarrow> (\<forall>u \<in> set (map fst rs). tbl u = None) \<Longrightarrow>
   \<exists>tbl'. fold_err sql_insert rs tbl = Inr tbl'"
proof (induction rs arbitrary: tbl)
  case Nil
  then show ?case by simp
next
  case (Cons ur rs)
  obtain u r where ur: "ur = (u, r)" by fastforce
  have "\<forall>x \<in> set (map fst rs). (tbl(u \<mapsto> r)) x = None"
    using Cons.prems ur by auto
  moreover have "distinct (map fst rs)" using Cons.prems(1) by simp
  ultimately obtain tbl' where "fold_err sql_insert rs (tbl(u \<mapsto> r)) = Inr tbl'"
    using Cons.IH by blast
  moreover have "sql_insert ur tbl = Inr (tbl(u \<mapsto> r))"
    using Cons.prems ur by (simp add: sql_insert_def)
  ultimately show ?case by simp
qed

lemma sql_insert_fold:
  "fold_err sql_insert rs m = Inr m' \<Longrightarrow>
   (\<forall>k \<in> fst ` set rs. m k = None) \<and> distinct (map fst rs) \<and> m' = m ++ map_of rs"
proof (induction rs arbitrary: m)
  case Nil
  then show ?case by simp
next
  case (Cons ur rs)
  obtain u r where ur: "ur = (u, r)" by fastforce
  have step: "sql_insert (u, r) m = (if m u \<noteq> None then Inl IntegrityError else Inr (m(u \<mapsto> r)))"
    by (simp add: sql_insert_def)
  with Cons.prems ur have u: "m u = None" and rest: "fold_err sql_insert rs (m(u \<mapsto> r)) = Inr m'"
    by (auto split: if_splits)
  note IH = Cons.IH [OF rest]
  have keys: "\<forall>k \<in> fst ` set rs. (m(u \<mapsto> r)) k = None" using IH by (rule conjunct1)
  have d: "distinct (map fst rs)" using IH by (rule conjunct1 [OF conjunct2])
  have m': "m' = m(u \<mapsto> r) ++ map_of rs" using IH by (rule conjunct2 [OF conjunct2])
  from keys have notin: "u \<notin> fst ` set rs" by fastforce
  from keys have keys0: "\<forall>k \<in> fst ` set rs. m k = None" by (auto split: if_splits)
  have "m(u \<mapsto> r) ++ map_of rs = m ++ map_of ((u, r) # rs)"
    using notin by (simp add: map_add_upd_left dom_map_of_conv_image_fst)
  with m' have eq: "m' = m ++ map_of ((u, r) # rs)" by (rule trans)
  show ?case unfolding ur
  proof (intro conjI)
    show "\<forall>k \<in> fst ` set ((u, r) # rs). m k = None" using u keys0 by simp
    show "distinct (map fst ((u, r) # rs))" using d notin by simp
  qed (rule eq)
qed

end
