(* ===== verification/Graph.thy ===== *)
theory Graph
  imports Prelude "HOL-Library.AList"
begin

text \<open>
  The cumulative weighted digraph of one tag (\<open>nx.DiGraph\<close> in \<open>pagerank.py\<close>
  and \<open>pgrunner.py\<close>), and the loop of \<open>run\<close> that adds one window's edge rows
  to it. A \<open>DiGraph\<close> keeps its nodes in insertion order and its edges in a dict of
  dicts, also in insertion order; the model keeps the node list and an association
  list from \<open>(src, tar)\<close> to the \<open>weight\<close> attribute. The lemmas give the weight
  of every edge after a batch (old weight plus the batch's weights), its monotonicity,
  the node set after a batch, and the well-formedness that every batch keeps.
\<close>

section \<open>The graph\<close>

record digraph =
  nodes :: "uid list"
  adj :: "((uid \<times> uid) \<times> int) list"

definition empty_graph :: digraph where
  "empty_graph = \<lparr>nodes = [], adj = []\<rparr>"

definition has_edge :: "digraph \<Rightarrow> uid \<Rightarrow> uid \<Rightarrow> bool" where
  "has_edge g s t \<longleftrightarrow> map_of (adj g) (s, t) \<noteq> None"

definition number_of_nodes :: "digraph \<Rightarrow> nat" where
  "number_of_nodes g = length (nodes g)"

text \<open>\<open>add_node\<close>: a node not yet in the graph is appended.\<close>

definition add_node :: "uid \<Rightarrow> uid list \<Rightarrow> uid list" where
  "add_node n ns = (if n \<in> set ns then ns else ns @ [n])"

text \<open>\<open>add_edge(u, v, weight=w)\<close>: adds \<open>u\<close>, then \<open>v\<close>, then sets the edge's weight.\<close>

definition add_edge :: "digraph \<Rightarrow> uid \<Rightarrow> uid \<Rightarrow> int \<Rightarrow> digraph" where
  "add_edge g s t w =
     g\<lparr>nodes := add_node t (add_node s (nodes g)), adj := AList.update (s, t) w (adj g)\<rparr>"

text \<open>
  One iteration of \<open>for (src, tar, weight) in edges\<close>: increment the weight of an
  existing edge in place, or add the edge.
\<close>

definition ingest_edge :: "uid \<times> uid \<times> int \<Rightarrow> digraph \<Rightarrow> digraph" where
  "ingest_edge e g =
     (case e of (s, t, w) \<Rightarrow>
        if has_edge g s t
        then g\<lparr>adj := AList.update (s, t) (the (map_of (adj g) (s, t)) + w) (adj g)\<rparr>
        else add_edge g s t w)"

definition ingest :: "(uid \<times> uid \<times> int) list \<Rightarrow> digraph \<Rightarrow> digraph" where
  "ingest es g = fold ingest_edge es g"

text \<open>The weight of an edge, 0 where there is none.\<close>

definition edge_weight :: "digraph \<Rightarrow> uid \<Rightarrow> uid \<Rightarrow> int" where
  "edge_weight g s t = (case map_of (adj g) (s, t) of None \<Rightarrow> 0 | Some w \<Rightarrow> w)"

text \<open>
  Well-formedness: no duplicate node, no duplicate edge, every edge between nodes of
  the graph, every weight positive (a \<open>COUNT(*)\<close> of at least one row).
\<close>

definition wf_graph :: "digraph \<Rightarrow> bool" where
  "wf_graph g \<longleftrightarrow> distinct (nodes g) \<and> distinct (map fst (adj g)) \<and>
     (\<forall>((s, t), w) \<in> set (adj g). s \<in> set (nodes g) \<and> t \<in> set (nodes g) \<and> 0 < w)"

text \<open>A feed batch: every row's weight is a positive count.\<close>

definition batch_ok :: "(uid \<times> uid \<times> int) list \<Rightarrow> bool" where
  "batch_ok es \<longleftrightarrow> (\<forall>(s, t, w) \<in> set es. 0 < w)"

section \<open>The window's edge rows\<close>

text \<open>
  The query \<open>QUES\<close> of \<open>pagerank.py\<close>/\<open>pgrunner.py\<close>: every question of
  the window carrying the tag contributes, for each ordered pair of its answers at
  offsets \<open>off_s\<close>, \<open>off_t\<close> with \<open>rank[off_t] - rank[off_s] < 0\<close>, a row
  \<open>(src, tar)\<close>; the rows are grouped by \<open>(src, tar)\<close> and counted. So an edge
  \<open>src \<rightarrow> tar\<close> says that \<open>tar\<close> was ranked better than \<open>src\<close>. (SQL leaves
  the order of the grouped rows open; the model lists them by last occurrence.)
\<close>

definition rank_pairs :: "qrow \<Rightarrow> (uid \<times> uid) list" where
  "rank_pairs q =
     [(s, t). (s, rs) \<leftarrow> zip (rank_id q) (rank q), (t, rt) \<leftarrow> zip (rank_id q) (rank q), rt - rs < 0]"

definition group_count :: "(uid \<times> uid) list \<Rightarrow> (uid \<times> uid \<times> int) list" where
  "group_count ps = [(s, t, int (count_list ps (s, t))). (s, t) \<leftarrow> remdups ps]"

definition ques_edges :: "tag \<Rightarrow> day \<Rightarrow> day \<Rightarrow> qrow list \<Rightarrow> (uid \<times> uid \<times> int) list" where
  "ques_edges tg ds de qs =
     group_count (concat (map rank_pairs [q \<leftarrow> qs. ds \<le> q_date q \<and> q_date q \<le> de \<and> tg \<in> set (q_tags q)]))"

section \<open>Lemmas on one edge row\<close>

lemma set_update_mem: "x \<in> set (AList.update k v al) \<Longrightarrow> x = (k, v) \<or> x \<in> set al"
  by (induction al) (auto split: if_splits)

lemma ingest_Nil [simp]: "ingest [] g = g"
  by (simp add: ingest_def)

lemma ingest_Cons [simp]: "ingest (e # es) g = ingest es (ingest_edge e g)"
  by (simp add: ingest_def)

lemma set_add_node [simp]: "set (add_node n ns) = insert n (set ns)"
  by (auto simp: add_node_def)

lemma distinct_add_node [simp]: "distinct (add_node n ns) = distinct ns"
  by (auto simp: add_node_def)

lemma edge_weight_ingest_edge:
  "edge_weight (ingest_edge (s, t, w) g) a b =
     edge_weight g a b + (if (a, b) = (s, t) then w else 0)"
  by (auto simp: ingest_edge_def add_edge_def edge_weight_def has_edge_def update_conv'
      split: option.splits)

lemma nodes_ingest_edge:
  "wf_graph g \<Longrightarrow> set (nodes (ingest_edge (s, t, w) g)) = set (nodes g) \<union> {s, t}"
  by (auto simp: ingest_edge_def add_edge_def has_edge_def wf_graph_def
      dest: map_of_SomeD)

lemma wf_ingest_edge:
  assumes "wf_graph g" and "0 < w"
  shows "wf_graph (ingest_edge (s, t, w) g)"
proof (cases "has_edge g s t")
  case True
  then obtain w0 where w0: "map_of (adj g) (s, t) = Some w0"
    by (auto simp: has_edge_def)
  with assms(1) have "0 < w0" and "s \<in> set (nodes g)" and "t \<in> set (nodes g)"
    by (auto simp: wf_graph_def dest!: map_of_SomeD)
  with assms True w0 show ?thesis
    by (auto simp: ingest_edge_def wf_graph_def distinct_update dest!: set_update_mem)
next
  case False
  with assms show ?thesis
    by (auto simp: ingest_edge_def add_edge_def wf_graph_def distinct_update
        dest!: set_update_mem)
qed

section \<open>A batch of edge rows\<close>

lemma edge_weight_ingest:
  "edge_weight (ingest es g) a b =
     edge_weight g a b + (\<Sum>(s, t, w)\<leftarrow>es. if (a, b) = (s, t) then w else 0)"
  by (induction es arbitrary: g) (auto simp: edge_weight_ingest_edge)

lemma wf_ingest: "wf_graph g \<Longrightarrow> batch_ok es \<Longrightarrow> wf_graph (ingest es g)"
  by (induction es arbitrary: g) (auto simp: batch_ok_def wf_ingest_edge)

lemma nodes_ingest:
  "wf_graph g \<Longrightarrow> batch_ok es \<Longrightarrow>
   set (nodes (ingest es g)) = set (nodes g) \<union> (\<Union>(s, t, w) \<in> set es. {s, t})"
proof (induction es arbitrary: g)
  case Nil
  then show ?case by simp
next
  case (Cons e es)
  obtain s t w where e: "e = (s, t, w)" by (cases e) auto
  with Cons.prems have "wf_graph (ingest_edge e g)" and "batch_ok es"
    by (auto simp: batch_ok_def wf_ingest_edge)
  with Cons.IH Cons.prems(1) e show ?case
    by (auto simp: nodes_ingest_edge)
qed

lemma group_count_weight:
  "(\<Sum>(s, t, w)\<leftarrow>group_count ps. if (a, b) = (s, t) then w else 0) = int (count_list ps (a, b))"
proof -
  have "(\<Sum>(s, t, w)\<leftarrow>group_count ps. if (a, b) = (s, t) then w else 0)
      = (\<Sum>p\<leftarrow>remdups ps. if p = (a, b) then int (count_list ps (a, b)) else 0)"
    unfolding group_count_def
    by (auto simp: comp_def case_prod_beta intro!: arg_cong [where f = sum_list] map_cong)
  also have "\<dots> = (if (a, b) \<in> set ps then int (count_list ps (a, b)) else 0)"
    by (simp add: sum_list_distinct_conv_sum_set sum.delta)
  also have "\<dots> = int (count_list ps (a, b))"
    by (simp add: count_list_0_iff)
  finally show ?thesis .
qed

section \<open>Properties of the graph store\<close>

text \<open>
  C26: adding a window's edge rows never decreases the
  weight of any edge: it grows by the sum of the batch's rows for that edge.
\<close>

theorem ingest_weight_monotone:
  assumes "batch_ok es"
  shows "edge_weight g a b \<le> edge_weight (ingest es g) a b"
proof -
  have "0 \<le> (\<Sum>(s, t, w)\<leftarrow>es. if (a, b) = (s, t) then w else 0)"
    using assms by (intro sum_list_nonneg) (auto simp: batch_ok_def)
  then show ?thesis by (simp add: edge_weight_ingest)
qed

lemma ingest_weight_monotone_witness:
  "edge_weight empty_graph 1 2 \<le> edge_weight (ingest [(1, 2, 2)] empty_graph) 1 2 \<and>
   edge_weight (ingest [(1, 2, 2)] empty_graph) 1 2 = 2"
proof -
  have "batch_ok [(1, 2, 2)]" by (simp add: batch_ok_def)
  from ingest_weight_monotone [OF this] show ?thesis
    by (simp add: edge_weight_def ingest_edge_def add_edge_def has_edge_def empty_graph_def)
qed

text \<open>
  C4: after the rows of \<open>QUES\<close> for a window are added, the
  edge \<open>a \<rightarrow> b\<close> has gained exactly the number of times \<open>b\<close> was ranked strictly
  better than \<open>a\<close> in a question of that window and tag: the edge direction is
  "beaten by", and each pair of answers counts once.
\<close>

theorem ques_edges_weight:
  "edge_weight (ingest (ques_edges tg ds de qs) g) a b =
     edge_weight g a b +
     (\<Sum>q\<leftarrow>filter (\<lambda>q. ds \<le> q_date q \<and> q_date q \<le> de \<and> tg \<in> set (q_tags q)) qs.
        \<Sum>(s, rs)\<leftarrow>zip (rank_id q) (rank q). \<Sum>(t, rt)\<leftarrow>zip (rank_id q) (rank q).
          if s = a \<and> t = b \<and> rt < rs then 1 else 0)"
proof -
  have pairs: "int (count_list (rank_pairs q) (a, b)) =
      (\<Sum>(s, rs)\<leftarrow>zip (rank_id q) (rank q). \<Sum>(t, rt)\<leftarrow>zip (rank_id q) (rank q).
          if s = a \<and> t = b \<and> rt < rs then 1 else 0)" for q
    by (auto simp: rank_pairs_def count_list_concat comp_def case_prod_unfold int_sum_list_map
        intro!: arg_cong [where f = sum_list] map_cong)
  have "int (count_list (concat (map rank_pairs xs)) (a, b)) =
      (\<Sum>q\<leftarrow>xs. \<Sum>(s, rs)\<leftarrow>zip (rank_id q) (rank q). \<Sum>(t, rt)\<leftarrow>zip (rank_id q) (rank q).
          if s = a \<and> t = b \<and> rt < rs then 1 else 0)" for xs
    by (induction xs) (simp_all add: pairs [symmetric])
  then show ?thesis
    unfolding edge_weight_ingest ques_edges_def group_count_weight by simp
qed

text \<open>
  C27: adding a batch of positive counts to a well-formed graph
  gives a well-formed graph whose nodes are the old nodes and the batch's endpoints:
  nodes are never removed.
\<close>

theorem ingest_invariant:
  assumes "wf_graph g" and "batch_ok es"
  shows "wf_graph (ingest es g) \<and>
    set (nodes (ingest es g)) = set (nodes g) \<union> (\<Union>(s, t, w) \<in> set es. {s, t})"
  using wf_ingest [OF assms] nodes_ingest [OF assms] by simp

lemma ingest_invariant_witness:
  "wf_graph (ingest [(1, 2, 2), (2, 3, 1)] empty_graph) \<and>
   set (nodes (ingest [(1, 2, 2), (2, 3, 1)] empty_graph)) = {1, 2, 3}"
proof -
  have "wf_graph empty_graph" by (simp add: wf_graph_def empty_graph_def)
  moreover have "batch_ok [(1, 2, 2), (2, 3, 1)]" by (simp add: batch_ok_def)
  ultimately show ?thesis
    using ingest_invariant [of empty_graph "[(1, 2, 2), (2, 3, 1)]"]
    by (auto simp: empty_graph_def)
qed

end
