(* ===== verification/PageRank.thy ===== *)
theory PageRank
  imports Graph
begin

text \<open>
  The authority score: \<open>nx.pagerank_scipy(graph, max_iter=200, nstart=pr_start)\<close>
  as the runners call it. The library is not part of the repository; the model
  follows its power iteration (networkx 2.x, defaults \<open>alpha = 0.85\<close>,
  \<open>tol = 1e-6\<close>, uniform personalisation and dangling distribution), computed in
  exact rationals. One step is
  \<open>x' = alpha * (x M + sum(x[dangling]) / N) + (1 - alpha) / N\<close> with \<open>M\<close> the
  row-normalised weight matrix; the loop stops when the l1 change is below
  \<open>N * tol\<close> and raises \<open>PowerIterationFailedConvergence\<close> after \<open>max_iter\<close>
  steps. The lemmas show that each step keeps a positive probability vector a
  positive probability vector, so every returned score vector sums to 1; that the
  loop always ends within its budget is shown in \<open>Convergence\<close>.
\<close>

section \<open>Definitions\<close>

type_synonym vec = "uid \<Rightarrow> rat"

definition alpha :: rat where
  "alpha = 85 / 100"

definition tol :: rat where
  "tol = 1 / 1000000"

definition max_iter :: nat where
  "max_iter = 200"

text \<open>\<open>S = M.sum(axis=1)\<close>: a node's total out-weight.\<close>

definition out_weight :: "digraph \<Rightarrow> uid \<Rightarrow> rat" where
  "out_weight g i = (\<Sum>((s, t), w)\<leftarrow>adj g. if s = i then of_int w else 0)"

text \<open>\<open>sum(x[is_dangling])\<close>, the dangling nodes being those with \<open>S == 0\<close>.\<close>

definition dangling_sum :: "digraph \<Rightarrow> vec \<Rightarrow> rat" where
  "dangling_sum g x = (\<Sum>i\<leftarrow>nodes g. if out_weight g i = 0 then x i else 0)"

text \<open>
  \<open>(x * M)[j]\<close> with \<open>M = Q * M\<close>, \<open>Q = diag(1/S)\<close> where \<open>S != 0\<close> and 0
  elsewhere; in HOL \<open>w / 0 = 0\<close>, which is that 0.
\<close>

definition flow_in :: "digraph \<Rightarrow> vec \<Rightarrow> uid \<Rightarrow> rat" where
  "flow_in g x j = (\<Sum>((s, t), w)\<leftarrow>adj g. if t = j then x s * of_int w / out_weight g s else 0)"

definition pr_step :: "digraph \<Rightarrow> vec \<Rightarrow> vec" where
  "pr_step g x =
     (let n = (of_nat (length (nodes g)) :: rat) in
      (\<lambda>j. alpha * (flow_in g x j + dangling_sum g x * (1 / n)) + (1 - alpha) * (1 / n)))"

text \<open>\<open>err = np.absolute(x - xlast).sum()\<close>.\<close>

definition l1_dist :: "digraph \<Rightarrow> vec \<Rightarrow> vec \<Rightarrow> rat" where
  "l1_dist g x y = (\<Sum>j\<leftarrow>nodes g. \<bar>x j - y j\<bar>)"

text \<open>\<open>for _ in range(max_iter)\<close>: the fuel is the iteration budget; \<open>None\<close> is the raise.\<close>

fun power_iter :: "digraph \<Rightarrow> nat \<Rightarrow> vec \<Rightarrow> vec option" where
  "power_iter g 0 x = None"
| "power_iter g (Suc k) x =
     (let x' = pr_step g x in
      if l1_dist g x' x < of_nat (length (nodes g)) * tol then Some x' else power_iter g k x')"

text \<open>
  \<open>pagerank_scipy\<close>: an empty graph gives \<open>{}\<close>; otherwise the start vector is
  \<open>nstart.get(n, 0)\<close> over the node list, divided by its sum, and the result is
  the dict from nodes to the converged iterate.
\<close>

definition start_vec :: "digraph \<Rightarrow> (uid \<rightharpoonup> rat) \<Rightarrow> vec" where
  "start_vec g nstart =
     (let x0 = (\<lambda>n. case nstart n of Some v \<Rightarrow> v | None \<Rightarrow> 0) in
      (\<lambda>n. x0 n / (\<Sum>m\<leftarrow>nodes g. x0 m)))"

definition pagerank_scipy :: "digraph \<Rightarrow> (uid \<rightharpoonup> rat) \<Rightarrow> py_error + (uid \<rightharpoonup> rat)" where
  "pagerank_scipy g nstart =
     (if nodes g = [] then Inr Map.empty
      else case power_iter g max_iter (start_vec g nstart) of
             None \<Rightarrow> Inl PowerIterationFailedConvergence
           | Some x \<Rightarrow> Inr (map_of (zip (nodes g) (map x (nodes g)))))"

text \<open>A probability vector on the graph's nodes, positive everywhere.\<close>

definition prob_vec :: "digraph \<Rightarrow> vec \<Rightarrow> bool" where
  "prob_vec g x \<longleftrightarrow> (\<Sum>n\<leftarrow>nodes g. x n) = 1 \<and> (\<forall>n \<in> set (nodes g). 0 < x n)"

section \<open>One step keeps a probability vector\<close>

lemma out_weight_filter:
  "out_weight g i = (\<Sum>e\<leftarrow>filter (\<lambda>e. fst (fst e) = i) (adj g). of_int (snd e))"
  unfolding out_weight_def by (simp add: case_prod_unfold sum_list_if_filter)

lemma flow_in_filter:
  "flow_in g x j =
     (\<Sum>e\<leftarrow>filter (\<lambda>e. snd (fst e) = j) (adj g). x (fst (fst e)) * of_int (snd e) / out_weight g (fst (fst e)))"
  unfolding flow_in_def by (simp add: case_prod_unfold sum_list_if_filter)

text \<open>The total flow into all nodes is the mass on the nodes that have out-edges.\<close>

lemma sum_flow_in:
  assumes "wf_graph g"
  shows "(\<Sum>j\<leftarrow>nodes g. flow_in g x j) = (\<Sum>i\<leftarrow>nodes g. if out_weight g i = 0 then 0 else x i)"
proof -
  let ?h = "\<lambda>e. x (fst (fst e)) * of_int (snd e) / out_weight g (fst (fst e))"
  have d: "distinct (nodes g)" and ends: "\<forall>e \<in> set (adj g). fst (fst e) \<in> set (nodes g) \<and> snd (fst e) \<in> set (nodes g)"
    using assms by (auto simp: wf_graph_def)
  have "(\<Sum>j\<leftarrow>nodes g. flow_in g x j) = (\<Sum>e\<leftarrow>adj g. ?h e)"
    unfolding flow_in_filter using sum_list_group [OF d, of "adj g" "\<lambda>e. snd (fst e)" ?h] ends
    by simp
  also have "\<dots> = (\<Sum>i\<leftarrow>nodes g. \<Sum>e\<leftarrow>filter (\<lambda>e. fst (fst e) = i) (adj g). ?h e)"
    using sum_list_group [OF d, of "adj g" "\<lambda>e. fst (fst e)" ?h] ends by simp
  also have "\<dots> = (\<Sum>i\<leftarrow>nodes g. x i / out_weight g i * out_weight g i)"
  proof (rule arg_cong [where f = sum_list], rule map_cong [OF refl])
    fix i
    have "(\<Sum>e\<leftarrow>filter (\<lambda>e. fst (fst e) = i) (adj g). ?h e)
        = (\<Sum>e\<leftarrow>filter (\<lambda>e. fst (fst e) = i) (adj g). x i / out_weight g i * of_int (snd e))"
      by (rule arg_cong [where f = sum_list], rule map_cong) auto
    also have "\<dots> = x i / out_weight g i * (\<Sum>e\<leftarrow>filter (\<lambda>e. fst (fst e) = i) (adj g). of_int (snd e))"
      by (rule sum_list_const_mult)
    also have "\<dots> = x i / out_weight g i * out_weight g i"
      by (simp only: out_weight_filter)
    finally show "(\<Sum>e\<leftarrow>filter (\<lambda>e. fst (fst e) = i) (adj g). ?h e) = x i / out_weight g i * out_weight g i" .
  qed
  also have "\<dots> = (\<Sum>i\<leftarrow>nodes g. if out_weight g i = 0 then 0 else x i)"
    by (rule arg_cong [where f = sum_list], rule map_cong) auto
  finally show ?thesis .
qed

lemma sum_pr_step:
  assumes "wf_graph g" and "nodes g \<noteq> []"
  shows "(\<Sum>j\<leftarrow>nodes g. pr_step g x j) = alpha * (\<Sum>j\<leftarrow>nodes g. x j) + (1 - alpha)"
proof -
  let ?n = "of_nat (length (nodes g)) :: rat"
  have n: "?n \<noteq> 0" using assms(2) by simp
  have step: "\<And>j. pr_step g x j = alpha * flow_in g x j + (alpha * dangling_sum g x + (1 - alpha)) / ?n"
    using n by (simp add: pr_step_def Let_def field_simps)
  have "(\<Sum>j\<leftarrow>nodes g. pr_step g x j)
      = alpha * (\<Sum>j\<leftarrow>nodes g. flow_in g x j) + ?n * ((alpha * dangling_sum g x + (1 - alpha)) / ?n)"
    by (simp add: step sum_list_addf sum_list_const_mult sum_list_triv)
  also have "\<dots> = alpha * ((\<Sum>j\<leftarrow>nodes g. flow_in g x j) + dangling_sum g x) + (1 - alpha)"
    using n by (simp add: field_simps)
  also have "(\<Sum>j\<leftarrow>nodes g. flow_in g x j) + dangling_sum g x = (\<Sum>j\<leftarrow>nodes g. x j)"
    unfolding sum_flow_in [OF assms(1)] dangling_sum_def sum_list_addf [symmetric]
    by (rule arg_cong [where f = sum_list], rule map_cong) auto
  finally show ?thesis .
qed

lemma out_weight_nonneg: "wf_graph g \<Longrightarrow> 0 \<le> out_weight g i"
  unfolding out_weight_filter wf_graph_def
  by (rule sum_list_nonneg) auto

lemma flow_in_nonneg:
  assumes "wf_graph g" and "\<forall>n \<in> set (nodes g). 0 \<le> x n"
  shows "0 \<le> flow_in g x j"
  unfolding flow_in_filter
proof (rule sum_list_nonneg)
  fix y
  assume "y \<in> set (map (\<lambda>e. x (fst (fst e)) * of_int (snd e) / out_weight g (fst (fst e)))
                        (filter (\<lambda>e. snd (fst e) = j) (adj g)))"
  then obtain e where e: "e \<in> set (adj g)"
    and y: "y = x (fst (fst e)) * of_int (snd e) / out_weight g (fst (fst e))" by auto
  from assms e have "0 \<le> x (fst (fst e))" and "0 < snd e"
    by (auto simp: wf_graph_def)
  with assms(1) y show "0 \<le> y" by (simp add: out_weight_nonneg)
qed

lemma dangling_sum_nonneg:
  "\<forall>n \<in> set (nodes g). 0 \<le> x n \<Longrightarrow> 0 \<le> dangling_sum g x"
  unfolding dangling_sum_def by (rule sum_list_nonneg) auto

lemma pr_step_pos:
  assumes "wf_graph g" and "nodes g \<noteq> []" and "\<forall>n \<in> set (nodes g). 0 \<le> x n"
  shows "0 < pr_step g x j"
proof -
  let ?n = "of_nat (length (nodes g)) :: rat"
  have "0 < ?n" using assms(2) by simp
  then have "0 < (1 - alpha) * (1 / ?n)" by (simp add: alpha_def)
  moreover have "0 \<le> alpha * (flow_in g x j + dangling_sum g x * (1 / ?n))"
    using assms \<open>0 < ?n\<close> by (simp add: alpha_def flow_in_nonneg dangling_sum_nonneg)
  ultimately show ?thesis by (simp add: pr_step_def Let_def)
qed

lemma prob_vec_pr_step:
  assumes "wf_graph g" and "nodes g \<noteq> []" and "prob_vec g x"
  shows "prob_vec g (pr_step g x)"
  using assms sum_pr_step [OF assms(1,2), of x] pr_step_pos [OF assms(1,2)]
  by (auto simp: prob_vec_def less_imp_le)

section \<open>The power iteration\<close>

lemma power_iter_iterate:
  "power_iter g k x = Some r \<Longrightarrow> \<exists>m. 1 \<le> m \<and> m \<le> k \<and> r = (pr_step g ^^ m) x"
proof (induction k arbitrary: x)
  case 0
  then show ?case by simp
next
  case (Suc k)
  show ?case
  proof (cases "l1_dist g (pr_step g x) x < of_nat (length (nodes g)) * tol")
    case True
    with Suc.prems have "r = (pr_step g ^^ 1) x" by simp
    then show ?thesis by fastforce
  next
    case False
    with Suc.prems have "power_iter g k (pr_step g x) = Some r" by simp
    then obtain m where "1 \<le> m" "m \<le> k" "r = (pr_step g ^^ m) (pr_step g x)"
      using Suc.IH by blast
    then have "r = (pr_step g ^^ Suc m) x" by (simp only: funpow_Suc_right comp_def)
    with \<open>1 \<le> m\<close> \<open>m \<le> k\<close> show ?thesis by (intro exI [of _ "Suc m"]) simp
  qed
qed

lemma prob_vec_funpow:
  "wf_graph g \<Longrightarrow> nodes g \<noteq> [] \<Longrightarrow> prob_vec g x \<Longrightarrow> prob_vec g ((pr_step g ^^ m) x)"
  by (induction m) (simp_all add: prob_vec_pr_step)

lemma map_of_zip_map:
  "map_of (zip ns (map r ns)) n = (if n \<in> set ns then Some (r n) else None)"
  by (induction ns) auto

lemma start_vec_prob:
  assumes "nodes g \<noteq> []" and "\<forall>n \<in> set (nodes g). \<exists>v. nstart n = Some v \<and> 0 < v"
  shows "prob_vec g (start_vec g nstart)"
proof -
  let ?x0 = "\<lambda>n. case nstart n of Some v \<Rightarrow> v | None \<Rightarrow> (0::rat)"
  have pos: "\<forall>n \<in> set (nodes g). 0 < ?x0 n" using assms(2) by fastforce
  then have "0 < (\<Sum>m\<leftarrow>nodes g. ?x0 m)"
    using assms(1) sum_list_strict_mono [of "nodes g" "\<lambda>_. 0" ?x0] by simp
  moreover have "(\<Sum>n\<leftarrow>nodes g. ?x0 n / (\<Sum>m\<leftarrow>nodes g. ?x0 m))
      = (\<Sum>n\<leftarrow>nodes g. ?x0 n) / (\<Sum>m\<leftarrow>nodes g. ?x0 m)"
    by (simp add: divide_inverse sum_list_mult_const)
  ultimately show ?thesis using pos
    by (simp add: prob_vec_def start_vec_def Let_def)
qed

section \<open>Properties of the score vector\<close>

lemma pagerank_scipy_Inr:
  assumes "wf_graph g" and "nodes g \<noteq> []"
    and "\<forall>n \<in> set (nodes g). \<exists>v. nstart n = Some v \<and> 0 < v"
    and "pagerank_scipy g nstart = Inr p"
  shows "\<exists>r. prob_vec g r \<and> p = map_of (zip (nodes g) (map r (nodes g)))"
proof -
  from assms(2,4) obtain r where r: "power_iter g max_iter (start_vec g nstart) = Some r"
    and p: "p = map_of (zip (nodes g) (map r (nodes g)))"
    by (auto simp: pagerank_scipy_def split: option.splits)
  from power_iter_iterate [OF r] obtain m where "r = (pr_step g ^^ m) (start_vec g nstart)"
    by blast
  with prob_vec_funpow [OF assms(1,2) start_vec_prob [OF assms(2,3)]] p show ?thesis
    by blast
qed

text \<open>
  C5: on a well-formed non-empty graph and a start dict
  with a positive value for every node, a score dict that \<open>pagerank_scipy\<close>
  returns has exactly the graph's nodes as keys, and its values are positive and sum
  to 1.
\<close>

theorem pagerank_scipy_prob:
  assumes "wf_graph g" and "nodes g \<noteq> []"
    and "\<forall>n \<in> set (nodes g). \<exists>v. nstart n = Some v \<and> 0 < v"
    and "pagerank_scipy g nstart = Inr p"
  shows "dom p = set (nodes g) \<and> (\<Sum>n\<leftarrow>nodes g. the (p n)) = 1 \<and> (\<forall>n \<in> set (nodes g). 0 < the (p n))"
proof -
  obtain r where "prob_vec g r" and p: "p = map_of (zip (nodes g) (map r (nodes g)))"
    using pagerank_scipy_Inr [OF assms] by blast
  moreover have "(\<Sum>n\<leftarrow>nodes g. the (p n)) = (\<Sum>n\<leftarrow>nodes g. r n)"
    unfolding p map_of_zip_map by (rule arg_cong [where f = sum_list], rule map_cong) auto
  ultimately show ?thesis
    by (auto simp: p map_of_zip_map prob_vec_def split: if_splits)
qed

text \<open>A two-node cycle of equal weights: the uniform start is already the fixed point.\<close>

definition cycle2 :: digraph where
  "cycle2 = \<lparr>nodes = [1, 2], adj = [((1, 2), 1), ((2, 1), 1)]\<rparr>"

lemma pagerank_scipy_prob_witness:
  "pagerank_scipy cycle2 [1 \<mapsto> 1/2, 2 \<mapsto> 1/2] = Inr [1 \<mapsto> 1/2, 2 \<mapsto> 1/2] \<and>
   dom [1 \<mapsto> (1::rat)/2, 2 \<mapsto> 1/2] = set (nodes cycle2) \<and>
   (\<Sum>n\<leftarrow>nodes cycle2. the ([1 \<mapsto> (1::rat)/2, 2 \<mapsto> 1/2] n)) = 1"
proof -
  have run: "pagerank_scipy cycle2 [1 \<mapsto> 1/2, 2 \<mapsto> 1/2] = Inr [1 \<mapsto> 1/2, 2 \<mapsto> 1/2]"
    by (simp add: pagerank_scipy_def cycle2_def max_iter_def numeral_eq_Suc start_vec_def
        pr_step_def flow_in_def out_weight_def dangling_sum_def l1_dist_def alpha_def tol_def
        fun_eq_iff)
  have "wf_graph cycle2" by (simp add: wf_graph_def cycle2_def)
  moreover have "nodes cycle2 \<noteq> []" by (simp add: cycle2_def)
  moreover have "\<forall>n \<in> set (nodes cycle2). \<exists>v. [1 \<mapsto> (1::rat)/2, 2 \<mapsto> 1/2] n = Some v \<and> 0 < v"
    by (simp add: cycle2_def) (rule exI [of _ "1/2"], simp)
  ultimately show ?thesis using pagerank_scipy_prob [OF _ _ _ run] run by blast
qed

end
