(* ===== verification/Windows.thy ===== *)
theory Windows
  imports Prelude
begin

text \<open>
  The weekly window iterator shared by the three runners (\<open>run\<close> in
  \<open>pagerank.py\<close>, \<open>pgrunner.py\<close> and \<open>tsrunner.py\<close>): the number of windows,
  the bounds \<open>day_s\<close>/\<open>day_e\<close> of window \<open>ind\<close>, and the SQL test
  \<open>judge_date BETWEEN day_s AND day_e\<close> that selects the users whose snapshot is
  taken in that window. The lemmas show that the windows tile the days from the
  epoch on, so that every judgment date inside the processed range is selected by
  exactly one window, and bound the range the loop covers.
\<close>

section \<open>Definitions\<close>

text \<open>\<open>self.oriday = date(2008, 7, 31)\<close>, as \<open>date.toordinal()\<close>.\<close>

definition oriday :: day where
  "oriday = 733254"

text \<open>
  Python's \<open>int(cnt / 7)\<close>: float division, then truncation towards zero. (For the
  magnitudes of day counts the float quotient is exact enough that truncating it
  gives the integer quotient.)
\<close>

definition py_trunc_div :: "int \<Rightarrow> int \<Rightarrow> int" where
  "py_trunc_div a b = (if a < 0 then - ((- a) div b) else a div b)"

text \<open>
  \<open>cnt = (date.today() - self.oriday).days - 629 + 120\<close> and
  \<open>range(int(cnt / 7))\<close>, whose length is 0 for a negative stop.
\<close>

definition window_count :: "day \<Rightarrow> nat" where
  "window_count today = nat (py_trunc_div ((today - oriday) - 629 + 120) 7)"

definition day_s :: "nat \<Rightarrow> day" where
  "day_s ind = oriday + int ind * 7"

definition day_e :: "nat \<Rightarrow> day" where
  "day_e ind = oriday + (int ind * 7 + 6)"

text \<open>\<open>judge_date BETWEEN day_s AND day_e\<close>: both bounds inclusive.\<close>

definition in_window :: "day \<Rightarrow> nat \<Rightarrow> bool" where
  "in_window d ind \<longleftrightarrow> day_s ind \<le> d \<and> d \<le> day_e ind"

text \<open>The window a day falls into, for days from the epoch on.\<close>

definition window_of :: "day \<Rightarrow> nat" where
  "window_of d = nat ((d - oriday) div 7)"

section \<open>Lemmas\<close>

lemma div7_facts:
  fixes x :: int
  shows "x = 7 * (x div 7) + x mod 7" and "0 \<le> x mod 7" and "x mod 7 < 7"
  using mult_div_mod_eq [of 7 x] by simp_all

lemma div7_eq_iff:
  fixes x :: int
  shows "(int i * 7 \<le> x \<and> x < int i * 7 + 7) \<longleftrightarrow> 0 \<le> x \<and> x div 7 = int i"
proof
  assume "int i * 7 \<le> x \<and> x < int i * 7 + 7"
  with div7_facts [of x] show "0 \<le> x \<and> x div 7 = int i"
    by (intro conjI antisym) linarith+
next
  assume "0 \<le> x \<and> x div 7 = int i"
  with div7_facts [of x] show "int i * 7 \<le> x \<and> x < int i * 7 + 7" by linarith
qed

lemma window_count_nonneg:
  "window_count today = nat ((today - oriday - 509) div 7)"
  by (auto simp: window_count_def py_trunc_div_def nat_eq_iff zdiv_zminus1_eq_if
      pos_imp_zdiv_neg_iff)

lemma in_window_iff:
  "in_window d ind \<longleftrightarrow> oriday \<le> d \<and> window_of d = ind"
proof -
  have "in_window d ind \<longleftrightarrow> int ind * 7 \<le> d - oriday \<and> d - oriday < int ind * 7 + 7"
    by (auto simp: in_window_def day_s_def day_e_def)
  also have "\<dots> \<longleftrightarrow> 0 \<le> d - oriday \<and> (d - oriday) div 7 = int ind"
    by (rule div7_eq_iff)
  finally have "in_window d ind \<longleftrightarrow> 0 \<le> d - oriday \<and> (d - oriday) div 7 = int ind" .
  moreover have "0 \<le> d - oriday \<Longrightarrow> 0 \<le> (d - oriday) div 7" by simp
  ultimately show ?thesis unfolding window_of_def by (auto simp: nat_eq_iff)
qed

lemma in_window_unique: "in_window d i \<Longrightarrow> in_window d j \<Longrightarrow> i = j"
  by (simp add: in_window_iff)

lemma window_of_in: "oriday \<le> d \<Longrightarrow> in_window d (window_of d)"
  by (simp add: in_window_iff)

lemma window_of_less_iff:
  assumes "oriday \<le> d"
  shows "window_of d < n \<longleftrightarrow> d < oriday + 7 * int n"
proof -
  have "window_of d < n \<longleftrightarrow> (d - oriday) div 7 < int n"
    using assms by (simp add: window_of_def nat_less_iff)
  also have "\<dots> \<longleftrightarrow> d - oriday < 7 * int n"
    using div7_facts [of "d - oriday"] by linarith
  finally show ?thesis by linarith
qed

section \<open>The windows a judgment date is selected in\<close>

text \<open>
  C3: over the whole loop, a judgment date is selected by the
  \<open>BETWEEN\<close> test of exactly one window when it lies from the epoch on and before the
  end of the last processed window, and by none otherwise. So each user's snapshot
  column is written in exactly one window, or never.
\<close>

theorem window_select_once:
  "length (filter (in_window d) [0..<window_count today]) =
     (if oriday \<le> d \<and> window_of d < window_count today then 1 else 0)"
proof -
  have "{i. in_window d i} \<inter> set [0..<window_count today] =
      (if oriday \<le> d \<and> window_of d < window_count today then {window_of d} else {})"
    by (auto simp: in_window_iff)
  then show ?thesis by (simp add: distinct_length_filter)
qed

text \<open>
  C30: the processed windows end within a week before
  \<open>today - 509\<close>: every judgment date from the epoch up to \<open>today - 516\<close> is
  selected by some window, and no judgment date from \<open>today - 509\<close> on is.
\<close>

theorem window_coverage:
  "(oriday \<le> d \<and> d \<le> today - 516 \<longrightarrow> window_of d < window_count today) \<and>
   (today - 509 \<le> d \<longrightarrow> \<not> (oriday \<le> d \<and> window_of d < window_count today))"
proof -
  let ?c = "today - oriday - 509"
  have n: "int (window_count today) = (if ?c < 0 then 0 else ?c div 7)"
    by (simp add: window_count_nonneg)
  have lo: "?c < 7 * int (window_count today) + 7" and hi: "7 * int (window_count today) \<le> max 0 ?c"
    unfolding n by auto
  show ?thesis
    using lo hi by (auto simp: window_of_less_iff)
qed

lemma window_coverage_witness:
  "window_of oriday < window_count (oriday + 1000) \<and>
   \<not> (oriday \<le> oriday + 600 \<and> window_of (oriday + 600) < window_count (oriday + 1000))"
proof -
  have h1: "oriday \<le> oriday \<and> oriday \<le> (oriday + 1000) - 516" by simp
  have h2: "(oriday + 1000) - 509 \<le> oriday + 600" by simp
  show ?thesis
    using window_coverage [of oriday "oriday + 1000"] window_coverage [of "oriday + 600" "oriday + 1000"]
      h1 h2 by blast
qed

end
