(* ===== verification/Escape.thy ===== *)
theory Escape
  imports Prelude
begin

text \<open>
  Tag names as table identifiers. \<open>pgrunner.py\<close> and \<open>tsrunner.py\<close> define
  \<open>tra\<close> as the escaping direction (\<open>#\<close> to \<open>_sharp\<close>, then \<open>++\<close> to
  \<open>_plus\<close>); \<open>pagerank.py\<close> and \<open>dataset.py\<close> define \<open>tra\<close> as the
  unescaping direction. Both are two calls of Python's \<open>str.replace\<close>, modelled
  here exactly (\<open>py_replace\<close>). The theory relates the escaping to a token-wise
  reference translation, shows that escaped names hold no reserved character, and
  proves the round trip for exactly the tags that do not already contain an escape
  token.
\<close>

section \<open>Python's \<open>str.replace\<close>\<close>

text \<open>
  \<open>s.replace(old, new)\<close> scans left to right and replaces every non-overlapping
  occurrence of \<open>old\<close>; for an empty \<open>old\<close> it inserts \<open>new\<close> before every
  character and at the end.
\<close>

function py_replace :: "string \<Rightarrow> string \<Rightarrow> string \<Rightarrow> string" where
  "py_replace [] new s = new @ concat (map (\<lambda>c. c # new) s)"
| "py_replace (o1 # os) new [] = []"
| "py_replace (o1 # os) new (c # cs) =
     (if prefix (o1 # os) (c # cs) then new @ py_replace (o1 # os) new (drop (length os) cs)
      else c # py_replace (o1 # os) new cs)"
  by pat_completeness auto
termination
  by (relation "measure (\<lambda>(old, new, s). length s)") auto

lemma py_replace_hit:
  "old \<noteq> [] \<Longrightarrow> py_replace old new (old @ ys) = new @ py_replace old new ys"
  by (cases old) simp_all

lemma py_replace_miss:
  "old \<noteq> [] \<Longrightarrow> \<not> prefix old (c # s) \<Longrightarrow> py_replace old new (c # s) = c # py_replace old new s"
  by (cases old) auto

lemma py_replace_skip:
  assumes "old \<noteq> []" and "hd old \<notin> set xs"
  shows "py_replace old new (xs @ ys) = xs @ py_replace old new ys"
  using assms(2)
proof (induction xs)
  case Nil
  then show ?case by simp
next
  case (Cons x xs)
  from Cons.prems assms(1) have "\<not> prefix old (x # xs @ ys)"
    by (cases old) auto
  with assms(1) Cons show ?case by (simp add: py_replace_miss)
qed

text \<open>
  A prefix of a replaced string that avoids the first character of the replacement
  was already a prefix of the original: no replacement happened inside it.
\<close>

lemma prefix_py_replace:
  assumes "old \<noteq> []" and "new \<noteq> []" and "hd new \<notin> set w"
    and "prefix w (py_replace old new x)"
  shows "prefix w x"
  using assms
proof (induction old new x arbitrary: w rule: py_replace.induct)
  case (1 new s)
  then show ?case by simp
next
  case (2 o1 os new)
  then show ?case by simp
next
  case (3 o1 os new c cs)
  show ?case
  proof (cases "prefix (o1 # os) (c # cs)")
    case True
    with "3.prems" show ?thesis
      by (cases w; cases new) auto
  next
    case False
    with "3.prems" "3.IH"(2) [OF False] show ?thesis
      by (cases w) auto
  qed
qed

section \<open>The two translations\<close>

text \<open>\<open>pgrunner.py\<close>, \<open>tsrunner.py\<close>: \<open>tag.replace('#', '_sharp').replace('++', '_plus')\<close>.\<close>

definition tra_escape :: "tag \<Rightarrow> tag" where
  "tra_escape t = py_replace ''++'' ''_plus'' (py_replace ''#'' ''_sharp'' t)"

text \<open>\<open>pagerank.py\<close>, \<open>dataset.py\<close>: \<open>tag.replace('_sharp', '#').replace('_plus', '++')\<close>.\<close>

definition tra_unescape :: "tag \<Rightarrow> tag" where
  "tra_unescape t = py_replace ''_plus'' ''++'' (py_replace ''_sharp'' ''#'' t)"

text \<open>
  The reference translation: one left-to-right pass that rewrites each \<open>#\<close> and
  each pair \<open>++\<close> (greedily, as \<open>str.replace\<close> does) and copies the rest.
\<close>

fun esc :: "string \<Rightarrow> string" where
  "esc [] = []"
| "esc [c] = (if c = CHR ''#'' then ''_sharp'' else [c])"
| "esc (c # d # cs) =
     (if c = CHR ''#'' then ''_sharp'' @ esc (d # cs)
      else if c = CHR ''+'' \<and> d = CHR ''+'' then ''_plus'' @ esc cs
      else c # esc (d # cs))"

lemma replace_sharp_Cons:
  "py_replace ''#'' ''_sharp'' (c # s) =
     (if c = CHR ''#'' then ''_sharp'' else [c]) @ py_replace ''#'' ''_sharp'' s"
  by simp

lemma replace_sharp_hd:
  "py_replace ''#'' ''_sharp'' (d # s) = e # r \<Longrightarrow> e = d \<or> e = CHR ''_''"
  by (auto split: if_splits)

lemma replace_plus_skip_sharp:
  "py_replace ''++'' ''_plus'' (''_sharp'' @ s) = ''_sharp'' @ py_replace ''++'' ''_plus'' s"
  by (rule py_replace_skip) simp_all

lemma replace_plus_single:
  "c \<noteq> CHR ''+'' \<or> s = [] \<or> hd s \<noteq> CHR ''+'' \<Longrightarrow>
   py_replace ''++'' ''_plus'' (c # s) = c # py_replace ''++'' ''_plus'' s"
  by (cases s) auto

text \<open>After replacing a doubled character, no doubled character is left.\<close>

lemma sublist_double_skip:
  "a \<notin> set ys \<Longrightarrow> sublist [a, a] (ys @ zs) \<Longrightarrow> sublist [a, a] zs"
  by (induction ys) (auto simp: sublist_Cons_right)

lemma py_replace_no_double:
  "a \<notin> set new \<Longrightarrow> \<not> sublist [a, a] (py_replace [a, a] new x)"
proof (induction x rule: length_induct)
  case (1 x)
  show ?case
  proof (cases x)
    case Nil
    then show ?thesis by simp
  next
    case (Cons c cs)
    show ?thesis
    proof (cases "prefix [a, a] (c # cs)")
      case True
      with Cons "1.IH" "1.prems" show ?thesis
        by (auto dest: sublist_double_skip)
    next
      case False
      have rest: "\<not> sublist [a, a] (py_replace [a, a] new cs)"
        using Cons "1.IH" "1.prems" by simp
      have "\<not> prefix [a, a] (c # py_replace [a, a] new cs)"
      proof (cases cs)
        case (Cons b bs)
        with False show ?thesis by (cases "b = a") auto
      qed (use False in simp)
      moreover have "py_replace [a, a] new (c # cs) = c # py_replace [a, a] new cs"
        by (rule py_replace_miss [OF _ False]) simp
      ultimately show ?thesis
        using Cons rest by (simp del: py_replace.simps add: sublist_Cons_right)
    qed
  qed
qed

lemma tra_escape_sharp:
  "tra_escape (CHR ''#'' # s) = ''_sharp'' @ tra_escape s"
  by (simp add: tra_escape_def replace_plus_skip_sharp)

lemma tra_escape_plus:
  "tra_escape (CHR ''+'' # CHR ''+'' # s) = ''_plus'' @ tra_escape s"
  using py_replace_hit [of "''++''" "''_plus''"] by (simp add: tra_escape_def)

lemma tra_escape_plain:
  assumes "c \<noteq> CHR ''#''" and "\<not> (c = CHR ''+'' \<and> d = CHR ''+'')"
  shows "tra_escape (c # d # s) = c # tra_escape (d # s)"
proof -
  obtain e r where er: "py_replace ''#'' ''_sharp'' (d # s) = e # r"
    by (cases "d = CHR ''#''") auto
  then have "e = d \<or> e = CHR ''_''" by (rule replace_sharp_hd)
  with assms(2) have "c \<noteq> CHR ''+'' \<or> e \<noteq> CHR ''+''" by auto
  with er have "py_replace ''++'' ''_plus'' (c # py_replace ''#'' ''_sharp'' (d # s))
      = c # py_replace ''++'' ''_plus'' (py_replace ''#'' ''_sharp'' (d # s))"
    by (metis list.sel(1) replace_plus_single)
  with assms(1) show ?thesis
    by (simp only: tra_escape_def replace_sharp_Cons [of c] if_False append_Cons append_Nil)
qed

text \<open>The unescaping direction reads the two tokens back.\<close>

lemma tra_unescape_sharp:
  "tra_unescape (''_sharp'' @ s) = CHR ''#'' # tra_unescape s"
proof -
  have "py_replace ''_plus'' ''++'' (''#'' @ py_replace ''_sharp'' ''#'' s)
      = ''#'' @ py_replace ''_plus'' ''++'' (py_replace ''_sharp'' ''#'' s)"
    by (rule py_replace_skip) simp_all
  then show ?thesis
    using py_replace_hit [of "''_sharp''" "''#''" s] by (simp add: tra_unescape_def)
qed

lemma tra_unescape_plus:
  "tra_unescape (''_plus'' @ s) = CHR ''+'' # CHR ''+'' # tra_unescape s"
proof -
  have "py_replace ''_sharp'' ''#'' (''plus'' @ s) = ''plus'' @ py_replace ''_sharp'' ''#'' s"
    by (rule py_replace_skip) simp_all
  then have "py_replace ''_sharp'' ''#'' (''_plus'' @ s) = ''_plus'' @ py_replace ''_sharp'' ''#'' s"
    by (simp add: py_replace_miss)
  then show ?thesis
    using py_replace_hit [of "''_plus''" "''++''"] by (simp add: tra_unescape_def)
qed

lemma tra_unescape_plain:
  assumes "\<not> prefix ''_sharp'' (c # s)" and "\<not> prefix ''_plus'' (c # py_replace ''_sharp'' ''#'' s)"
  shows "tra_unescape (c # s) = c # tra_unescape s"
  using assms by (simp only: tra_unescape_def py_replace_miss list.distinct(2) not_False_eq_True)

lemma prefix_tra_escape:
  assumes "CHR ''_'' \<notin> set w" and "prefix w (tra_escape s)"
  shows "prefix w s"
proof -
  have "prefix w (py_replace ''#'' ''_sharp'' s)"
    by (rule prefix_py_replace [of "''++''" "''_plus''"]) (use assms in \<open>simp_all add: tra_escape_def\<close>)
  then show ?thesis
    by (rule prefix_py_replace [of "''#''" "''_sharp''", rotated 3]) (use assms in simp_all)
qed

lemma sublist_tail: "\<not> sublist w (c # s) \<Longrightarrow> \<not> sublist w s"
  by (auto simp: sublist_Cons_right)

section \<open>Properties of the translations\<close>

text \<open>
  C32: the escaping of \<open>pgrunner.py\<close>/\<open>tsrunner.py\<close>, two passes of
  \<open>str.replace\<close>, computes the one-pass token translation \<open>esc\<close>: every
  \<open>#\<close> becomes \<open>_sharp\<close>, every greedy pair \<open>++\<close> becomes \<open>_plus\<close>,
  every other character is copied.
\<close>

theorem tra_escape_esc: "tra_escape t = esc t"
proof (induction t rule: esc.induct)
  case 1
  then show ?case by (simp add: tra_escape_def)
next
  case (2 c)
  then show ?case by (simp add: tra_escape_def)
next
  case (3 c d cs)
  then show ?case
    by (auto simp: tra_escape_sharp tra_escape_plus tra_escape_plain)
qed

text \<open>
  C33: an escaped tag holds no reserved character sequence: no \<open>#\<close> and no
  \<open>++\<close>, so it is a valid SQLite identifier as far as these characters go.
\<close>

theorem tra_escape_no_reserved:
  "CHR ''#'' \<notin> set (tra_escape t) \<and> \<not> sublist ''++'' (tra_escape t)"
proof
  show "CHR ''#'' \<notin> set (tra_escape t)"
    unfolding tra_escape_esc by (induction t rule: esc.induct) auto
  show "\<not> sublist ''++'' (tra_escape t)"
    unfolding tra_escape_def by (rule py_replace_no_double) simp
qed

text \<open>
  C31: unescaping an escaped tag gives the tag back, for every tag that does not
  already contain one of the escape tokens \<open>_sharp\<close> or \<open>_plus\<close>.
\<close>

theorem tra_roundtrip:
  assumes "\<not> sublist ''_sharp'' t" and "\<not> sublist ''_plus'' t"
  shows "tra_unescape (tra_escape t) = t"
  using assms
proof (induction t rule: esc.induct)
  case 1
  then show ?case by (simp add: tra_escape_def tra_unescape_def)
next
  case (2 c)
  then show ?case by (simp add: tra_escape_def tra_unescape_def)
next
  case (3 c d cs)
  note tl1 = sublist_tail [OF "3.prems"(1)] sublist_tail [OF "3.prems"(2)]
  show ?case
  proof (cases "c = CHR ''#''")
    case True
    with "3.IH"(1) tl1 show ?thesis
      by (simp only: tra_escape_sharp tra_unescape_sharp) simp
  next
    case c: False
    show ?thesis
    proof (cases "c = CHR ''+'' \<and> d = CHR ''+''")
      case True
      then have cd: "c = CHR ''+''" "d = CHR ''+''" by simp_all
      have "tra_unescape (tra_escape cs) = cs"
        using "3.IH"(2) c True sublist_tail [OF tl1(1)] sublist_tail [OF tl1(2)] by simp
      then show ?thesis unfolding cd by (simp only: tra_escape_plus tra_unescape_plus)
    next
      case False
      let ?x = "tra_escape (d # cs)"
      have s: "\<not> prefix ''_sharp'' (c # ?x)"
      proof
        assume "prefix ''_sharp'' (c # ?x)"
        then have "CHR ''_'' = c \<and> prefix ''sharp'' ?x"
          by (rule Cons_prefix_Cons [THEN iffD1])
        then have c_: "CHR ''_'' = c" and "prefix ''sharp'' ?x" by blast+
        have "prefix ''sharp'' (d # cs)"
          by (intro prefix_tra_escape [OF _ \<open>prefix ''sharp'' ?x\<close>]) simp
        with c_ have "prefix ''_sharp'' (c # d # cs)"
          using Cons_prefix_Cons [of "CHR ''_''" "''sharp''" c "d # cs"] by blast
        then have "sublist ''_sharp'' (c # d # cs)" by (rule prefix_imp_sublist)
        with "3.prems"(1) show False by contradiction
      qed
      have p: "\<not> prefix ''_plus'' (c # py_replace ''_sharp'' ''#'' ?x)"
      proof
        assume "prefix ''_plus'' (c # py_replace ''_sharp'' ''#'' ?x)"
        then have "CHR ''_'' = c \<and> prefix ''plus'' (py_replace ''_sharp'' ''#'' ?x)"
          by (rule Cons_prefix_Cons [THEN iffD1])
        then have c_: "CHR ''_'' = c" and pr: "prefix ''plus'' (py_replace ''_sharp'' ''#'' ?x)"
          by blast+
        have "prefix ''plus'' ?x"
          by (rule prefix_py_replace [OF _ _ _ pr]) simp_all
        have "prefix ''plus'' (d # cs)"
          by (intro prefix_tra_escape [OF _ \<open>prefix ''plus'' ?x\<close>]) simp
        with c_ have "prefix ''_plus'' (c # d # cs)"
          using Cons_prefix_Cons [of "CHR ''_''" "''plus''" c "d # cs"] by blast
        then have "sublist ''_plus'' (c # d # cs)" by (rule prefix_imp_sublist)
        with "3.prems"(2) show False by contradiction
      qed
      have "tra_escape (c # d # cs) = c # ?x" by (rule tra_escape_plain [OF c False])
      moreover have "tra_unescape (c # ?x) = c # tra_unescape ?x" by (rule tra_unescape_plain [OF s p])
      moreover have "tra_unescape ?x = d # cs" by (rule "3.IH"(3) [OF c False tl1])
      ultimately show ?thesis by simp
    qed
  qed
qed

lemma tra_roundtrip_witness:
  "tra_unescape (tra_escape ''c#'') = ''c#'' \<and> tra_unescape (tra_escape ''c++'') = ''c++''"
proof -
  have "\<not> sublist ''_sharp'' ''c#''" and "\<not> sublist ''_plus'' ''c#''"
    and "\<not> sublist ''_sharp'' ''c++''" and "\<not> sublist ''_plus'' ''c++''"
    by (simp_all add: sublist_Cons_right)
  then show ?thesis using tra_roundtrip by blast
qed

text \<open>
  The round trip fails for a tag that already contains an escape token: the two
  \<open>tra\<close> functions are not inverse on all tags.
\<close>

lemma tra_roundtrip_counterexample:
  "tra_unescape (tra_escape ''a_sharp'') = ''a#''"
  by (simp add: tra_escape_def tra_unescape_def)

end
