(* ===== verification/AuthorityRunner.thy ===== *)
theory AuthorityRunner
  imports PageRank Windows Escape
begin

text \<open>
  The PageRank runner: one iteration of the weekly loop of \<open>PGRunner.run\<close>
  (\<open>pgrunner.py\<close>; \<open>PRRunner.run\<close> in \<open>pagerank.py\<close> is the same loop with the
  graph kept in \<open>self\<close>), and the whole loop. Its state is the tag's graph, the
  score dict \<open>self.pager\<close> of the last successful PageRank call, and the tag's
  SQLite table (user id to judgment date and snapshot score). One window adds the
  window's \<open>QUES\<close> rows to the graph, builds the warm start \<open>pr_start\<close>, calls
  \<open>pagerank_scipy\<close> (keeping the old dict when it raises
  \<open>PowerIterationFailedConvergence\<close>), and writes \<open>score * number_of_nodes\<close>
  into the rows whose judgment date falls in the window. The lemmas give the only
  error of a window (an empty graph), what a window writes and where, and that over
  the whole loop each row's snapshot is the value of the one window that selects it.
\<close>

section \<open>State\<close>

text \<open>A row of the tag's table: \<open>user_id\<close> is the key of the map.\<close>

record pr_row =
  judge_date :: day
  pagerank :: score

record pr_state =
  graph :: digraph
  pager :: "uid \<rightharpoonup> score"
  pr_table :: "uid \<rightharpoonup> pr_row"

text \<open>\<open>_pager(uid)\<close>: the score of a user, 0.0 for a user the dict does not hold.\<close>

definition pager_get :: "(uid \<rightharpoonup> score) \<Rightarrow> uid \<Rightarrow> score" where
  "pager_get p u = (case p u of Some v \<Rightarrow> v | None \<Rightarrow> 0)"

text \<open>
  \<open>pr_start = dict.fromkeys(graph, 1.0 / graph.number_of_nodes())\<close> followed by
  \<open>pr_start.update(self.pager)\<close>; the division raises on an empty graph.
\<close>

definition pr_start :: "digraph \<Rightarrow> (uid \<rightharpoonup> score) \<Rightarrow> py_error + (uid \<rightharpoonup> score)" where
  "pr_start g p =
     (if number_of_nodes g = 0 then Inl ZeroDivisionError
      else Inr (map_of (map (\<lambda>n. (n, 1 / of_nat (number_of_nodes g))) (nodes g)) ++ p))"

text \<open>
  The snapshot: \<open>SELECT user_id ... WHERE judge_date BETWEEN day_s AND day_e\<close>, then
  \<open>UPDATE ... SET pagerank = ? WHERE user_id = ?\<close> for each selected user.
\<close>

definition pr_snapshot :: "(uid \<rightharpoonup> pr_row) \<Rightarrow> nat \<Rightarrow> (uid \<Rightarrow> score) \<Rightarrow> (uid \<rightharpoonup> pr_row)" where
  "pr_snapshot tbl ind val =
     (\<lambda>u. case tbl u of
            None \<Rightarrow> None
          | Some r \<Rightarrow> Some (if in_window (judge_date r) ind then r\<lparr>pagerank := val u\<rparr> else r))"

text \<open>One iteration of \<open>for ind in range(int(cnt / 7))\<close>.\<close>

definition pr_window :: "tag \<Rightarrow> qrow list \<Rightarrow> nat \<Rightarrow> pr_state \<Rightarrow> py_error + pr_state" where
  "pr_window tg qs ind st =
     (let g = ingest (ques_edges tg (day_s ind) (day_e ind) qs) (graph st) in
      case pr_start g (pager st) of
        Inl e \<Rightarrow> Inl e
      | Inr start \<Rightarrow>
          (let p = (case pagerank_scipy g start of Inr p' \<Rightarrow> p' | Inl _ \<Rightarrow> pager st);
               n = number_of_nodes g
           in Inr \<lparr>graph = g, pager = p,
                   pr_table = pr_snapshot (pr_table st) ind (\<lambda>u. pager_get p u * of_nat n)\<rparr>))"

text \<open>
  \<open>run(tag)\<close>: a fresh graph, the runner's current \<open>self.pager\<close>, the tag's table,
  and the windows in ascending order; an exception ends the loop.
\<close>

definition pg_run :: "tag \<Rightarrow> qrow list \<Rightarrow> day \<Rightarrow> (uid \<rightharpoonup> score) \<Rightarrow> (uid \<rightharpoonup> pr_row) \<Rightarrow> py_error + pr_state" where
  "pg_run tg qs today p tbl =
     fold_err (pr_window tg qs) [0..<window_count today]
       \<lparr>graph = empty_graph, pager = p, pr_table = tbl\<rparr>"

text \<open>
  A small input for the witnesses: two questions of window 0 in which users 1 and 2
  beat each other once, and a table with user 1 judged in window 0 and user 2 judged
  after the processed range.
\<close>

definition demo_qs :: "qrow list" where
  "demo_qs =
     [\<lparr>q_date = oriday, q_tags = [''java''], rank_id = [1, 2], rank = [1, 2], asker_id = 3, accept_id = None\<rparr>,
      \<lparr>q_date = oriday + 1, q_tags = [''java''], rank_id = [1, 2], rank = [2, 1], asker_id = 3, accept_id = None\<rparr>]"

definition demo_tbl :: "uid \<rightharpoonup> pr_row" where
  "demo_tbl = [1 \<mapsto> \<lparr>judge_date = oriday + 3, pagerank = 0\<rparr>, 2 \<mapsto> \<lparr>judge_date = oriday + 700, pagerank = 0\<rparr>]"

section \<open>One window\<close>

lemma pr_start_Inr:
  "number_of_nodes g \<noteq> 0 \<Longrightarrow>
   pr_start g p = Inr (map_of (map (\<lambda>n. (n, 1 / of_nat (number_of_nodes g))) (nodes g)) ++ p)"
  by (simp add: pr_start_def)

lemma pr_window_Inr:
  assumes "nodes (ingest (ques_edges tg (day_s ind) (day_e ind) qs) (graph st)) \<noteq> []"
  shows "\<exists>st'. pr_window tg qs ind st = Inr st'"
  using assms by (simp add: pr_window_def pr_start_def number_of_nodes_def Let_def)

lemma pr_window_table:
  assumes "pr_window tg qs ind st = Inr st'"
  shows "pr_table st' = pr_snapshot (pr_table st) ind
           (\<lambda>u. pager_get (pager st') u * of_nat (number_of_nodes (graph st')))"
  using assms by (auto simp: pr_window_def Let_def split: sum.splits)

lemma pr_window_graph:
  "pr_window tg qs ind st = Inr st' \<Longrightarrow>
   graph st' = ingest (ques_edges tg (day_s ind) (day_e ind) qs) (graph st)"
  by (auto simp: pr_window_def Let_def split: sum.splits)

lemma pr_snapshot_dom [simp]: "dom (pr_snapshot tbl ind val) = dom tbl"
  by (auto simp: pr_snapshot_def split: option.splits)

lemma pr_snapshot_judge_date:
  "pr_snapshot tbl ind val u = Some r' \<Longrightarrow> \<exists>r. tbl u = Some r \<and> judge_date r' = judge_date r"
  by (auto simp: pr_snapshot_def split: option.splits if_splits)

lemma pr_window_untouched:
  assumes "pr_window tg qs ind st = Inr st'" and "pr_table st u = Some r"
    and "\<not> in_window (judge_date r) ind"
  shows "pr_table st' u = Some r"
  using pr_window_table [OF assms(1)] assms(2,3) by (simp add: pr_snapshot_def)

lemma pr_window_selected:
  assumes "pr_window tg qs ind st = Inr st'" and "pr_table st u = Some r"
    and "in_window (judge_date r) ind"
  shows "pr_table st' u = Some (r\<lparr>pagerank := pager_get (pager st') u * of_nat (number_of_nodes (graph st'))\<rparr>)"
  using pr_window_table [OF assms(1)] assms(2,3) by (simp add: pr_snapshot_def)

section \<open>The loop\<close>

lemma pr_windows_untouched:
  assumes "fold_err (pr_window tg qs) ws st = Inr st'" and "pr_table st u = Some r"
    and "\<forall>w \<in> set ws. \<not> in_window (judge_date r) w"
  shows "pr_table st' u = Some r"
proof (rule fold_err_inv [where P = "\<lambda>s. pr_table s u = Some r", OF _ assms(2,1)])
  fix x s s'
  assume x: "x \<in> set ws" and row: "pr_table s u = Some r" and win: "pr_window tg qs x s = Inr s'"
  from assms(3) x have "\<not> in_window (judge_date r) x" by blast
  with win row show "pr_table s' u = Some r" by (rule pr_window_untouched)
qed

lemma pr_snapshot_keeps_date:
  assumes "tbl u = Some r1"
  shows "\<exists>r'. pr_snapshot tbl ind val u = Some r' \<and> judge_date r' = judge_date r1"
  using assms by (simp add: pr_snapshot_def)

lemma pr_windows_rows:
  assumes "fold_err (pr_window tg qs) ws st = Inr st'"
  shows "dom (pr_table st') = dom (pr_table st) \<and>
    (\<forall>u r. pr_table st u = Some r \<longrightarrow> (\<exists>r'. pr_table st' u = Some r' \<and> judge_date r' = judge_date r))"
proof (rule fold_err_inv [OF _ _ assms])
  fix w s s'
  assume P: "dom (pr_table s) = dom (pr_table st) \<and>
      (\<forall>u r. pr_table st u = Some r \<longrightarrow> (\<exists>r'. pr_table s u = Some r' \<and> judge_date r' = judge_date r))"
    and win: "pr_window tg qs w s = Inr s'"
  have t: "pr_table s' = pr_snapshot (pr_table s) w
      (\<lambda>u. pager_get (pager s') u * of_nat (number_of_nodes (graph s')))"
    by (rule pr_window_table [OF win])
  have "dom (pr_table s') = dom (pr_table st)"
    using P unfolding t by simp
  moreover have "\<exists>r'. pr_table s' u = Some r' \<and> judge_date r' = judge_date r"
    if "pr_table st u = Some r" for u r
  proof -
    from P that obtain r1 where "pr_table s u = Some r1" and "judge_date r1 = judge_date r"
      by blast
    with pr_snapshot_keeps_date [of "pr_table s" u r1 w] show ?thesis
      unfolding t by auto
  qed
  ultimately show "dom (pr_table s') = dom (pr_table st) \<and>
      (\<forall>u r. pr_table st u = Some r \<longrightarrow> (\<exists>r'. pr_table s' u = Some r' \<and> judge_date r' = judge_date r))"
    by blast
qed simp

section \<open>Properties of the runner\<close>

text \<open>
  C17: a window fails only with \<open>ZeroDivisionError\<close>, and exactly when the graph is
  still empty after the window's edges are added; a PageRank call that does not
  converge never aborts the window.
\<close>

theorem pr_window_error:
  "pr_window tg qs ind st = Inl e \<longleftrightarrow>
     e = ZeroDivisionError \<and> nodes (ingest (ques_edges tg (day_s ind) (day_e ind) qs) (graph st)) = []"
  by (auto simp: pr_window_def pr_start_def number_of_nodes_def Let_def)

text \<open>
  C20: if the first window (2008-07-31 to 2008-08-06) holds no ranked answer pair for
  the tag, the whole run raises \<open>ZeroDivisionError\<close> at its first window, so no
  snapshot of the tag is ever written.
\<close>

theorem pg_run_first_window_crash:
  assumes "0 < window_count today" and "ques_edges tg (day_s 0) (day_e 0) qs = []"
  shows "pg_run tg qs today p tbl = Inl ZeroDivisionError"
proof -
  have "[0..<window_count today] = 0 # [1..<window_count today]"
    using assms(1) by (simp add: upt_rec)
  moreover have "pr_window tg qs 0 \<lparr>graph = empty_graph, pager = p, pr_table = tbl\<rparr> = Inl ZeroDivisionError"
    using assms(2) by (simp add: pr_window_error empty_graph_def)
  ultimately show ?thesis by (simp add: pg_run_def)
qed

lemma pg_run_first_window_crash_witness:
  "pg_run ''android'' [] (oriday + 1000) Map.empty Map.empty = Inl ZeroDivisionError"
proof -
  have "0 < window_count (oriday + 1000)"
    by (simp add: window_count_def py_trunc_div_def)
  moreover have "ques_edges ''android'' (day_s 0) (day_e 0) [] = []"
    by (simp add: ques_edges_def group_count_def)
  ultimately show ?thesis by (rule pg_run_first_window_crash)
qed

text \<open>
  C28: over a completed run, the table keeps exactly its rows and every row keeps
  its judgment date: the run neither creates nor deletes users and never rewrites a
  judgment date.
\<close>

theorem pg_run_rows:
  assumes "pg_run tg qs today p tbl = Inr st'"
  shows "dom (pr_table st') = dom tbl \<and>
    (\<forall>u r. tbl u = Some r \<longrightarrow> (\<exists>r'. pr_table st' u = Some r' \<and> judge_date r' = judge_date r))"
  using pr_windows_rows [OF assms [unfolded pg_run_def]] by simp

text \<open>
  C1: over a completed run, a user whose judgment date lies in the processed range
  holds the scaled score of the one window that selects the date, computed from the
  state after that window; a user whose date lies outside it keeps the seeded row.
\<close>

theorem pg_run_snapshot:
  assumes run: "pg_run tg qs today p tbl = Inr st'" and row: "tbl u = Some r"
  shows "if oriday \<le> judge_date r \<and> window_of (judge_date r) < window_count today
         then (\<exists>stk. fold_err (pr_window tg qs) [0..<Suc (window_of (judge_date r))]
                       \<lparr>graph = empty_graph, pager = p, pr_table = tbl\<rparr> = Inr stk \<and>
                  pr_table st' u = Some (r\<lparr>pagerank := pager_get (pager stk) u * of_nat (number_of_nodes (graph stk))\<rparr>))
         else pr_table st' u = Some r"
proof -
  let ?st0 = "\<lparr>graph = empty_graph, pager = p, pr_table = tbl\<rparr>"
  let ?d = "judge_date r" and ?n = "window_count today"
  have run': "fold_err (pr_window tg qs) [0..<?n] ?st0 = Inr st'"
    using run by (simp add: pg_run_def)
  show ?thesis
  proof (cases "oriday \<le> ?d \<and> window_of ?d < ?n")
    case False
    then have "\<forall>w \<in> set [0..<?n]. \<not> in_window ?d w"
      by (auto simp: in_window_iff)
    with pr_windows_untouched [OF run'] row have "pr_table st' u = Some r" by simp
    with False show ?thesis by (subst if_not_P) simp_all
  next
    case True
    let ?k = "window_of ?d"
    have "[0..<?n] = [0..<?k] @ [?k..<?n]"
      using True upt_add_eq_append [of 0 ?k "?n - ?k"] by simp
    also have "[?k..<?n] = [?k] @ [Suc ?k..<?n]"
      using True by (simp add: upt_conv_Cons)
    finally have split: "[0..<?n] = [0..<?k] @ [?k] @ [Suc ?k..<?n]" .
    from run' obtain s1 where s1: "fold_err (pr_window tg qs) [0..<?k] ?st0 = Inr s1"
      and rest1: "fold_err (pr_window tg qs) ([?k] @ [Suc ?k..<?n]) s1 = Inr st'"
      unfolding split fold_err_append by (auto split: sum.splits)
    from rest1 obtain stk where stk: "pr_window tg qs ?k s1 = Inr stk"
      and rest2: "fold_err (pr_window tg qs) [Suc ?k..<?n] stk = Inr st'"
      by (auto split: sum.splits)
    have "pr_table s1 u = Some r"
      using pr_windows_untouched [OF s1] row by (auto simp: in_window_iff)
    then have rk: "pr_table stk u = Some (r\<lparr>pagerank := pager_get (pager stk) u * of_nat (number_of_nodes (graph stk))\<rparr>)"
      using pr_window_selected [OF stk] True by (simp add: window_of_in)
    have "\<forall>w \<in> set [Suc ?k..<?n]. \<not> in_window ?d w"
      by (auto simp: in_window_iff)
    with pr_windows_untouched [OF rest2 rk] rk have "pr_table st' u = pr_table stk u"
      by simp
    moreover have "fold_err (pr_window tg qs) [0..<Suc ?k] ?st0 = Inr stk"
      using s1 stk by (simp add: fold_err_append)
    ultimately show ?thesis using True rk by (subst if_P) auto
  qed
qed

lemma demo_run:
  "pg_run ''java'' demo_qs (oriday + 516) Map.empty demo_tbl =
     Inr (projr (pg_run ''java'' demo_qs (oriday + 516) Map.empty demo_tbl))"
  by (simp add: pg_run_def window_count_def py_trunc_div_def demo_qs_def demo_tbl_def
      pr_window_def Let_def ques_edges_def group_count_def rank_pairs_def ingest_edge_def
      has_edge_def add_edge_def add_node_def empty_graph_def pr_start_def number_of_nodes_def
      pagerank_scipy_def max_iter_def numeral_eq_Suc start_vec_def pr_step_def flow_in_def
      out_weight_def dangling_sum_def l1_dist_def alpha_def tol_def day_s_def day_e_def)

lemma pg_run_rows_witness:
  "pg_run ''java'' demo_qs (oriday + 516) Map.empty demo_tbl =
     Inr (projr (pg_run ''java'' demo_qs (oriday + 516) Map.empty demo_tbl)) \<and>
   dom (pr_table (projr (pg_run ''java'' demo_qs (oriday + 516) Map.empty demo_tbl))) = {1, 2}"
  using pg_run_rows [OF demo_run] demo_run by (simp add: demo_tbl_def insert_commute)

lemma pg_run_snapshot_witness:
  "pg_run ''java'' demo_qs (oriday + 516) Map.empty demo_tbl =
     Inr (projr (pg_run ''java'' demo_qs (oriday + 516) Map.empty demo_tbl)) \<and>
   pr_table (projr (pg_run ''java'' demo_qs (oriday + 516) Map.empty demo_tbl)) 2 =
     Some \<lparr>judge_date = oriday + 700, pagerank = 0\<rparr>"
proof -
  have row: "demo_tbl 2 = Some \<lparr>judge_date = oriday + 700, pagerank = 0\<rparr>"
    by (simp add: demo_tbl_def)
  have out: "\<not> (oriday \<le> oriday + 700 \<and> window_of (oriday + 700) < window_count (oriday + 516))"
    by (simp add: window_of_def window_count_def py_trunc_div_def)
  from pg_run_snapshot [OF demo_run row] out demo_run show ?thesis by simp
qed

end
