(* ===== verification/Convergence.thy ===== *)
theory Convergence
  imports AuthorityRunner
begin

text \<open>
  Termination of the power iteration within its budget: one step of
  \<open>pagerank_scipy\<close> is a contraction by \<open>alpha\<close> in the l1 distance over the
  graph's nodes, so the change between two iterates shrinks geometrically, and from a
  probability vector it falls below \<open>N * tol\<close> long before \<open>max_iter = 200\<close> steps
  (\<open>2 * 0.85^199 < 10^-6\<close>). Hence on a well-formed non-empty graph with a positive
  start the call never raises \<open>PowerIterationFailedConvergence\<close>, and the runners'
  \<open>except\<close> branch is dead code: along a run of the weekly loop the graph stays
  well formed and the kept score dict positive, so every window's call converges.
\<close>

text \<open>
  The graph of the spec's first scenario: user 2 outranked user 1 twice, user 3
  outranked user 2 once (an edge \<open>a -> b\<close> says \<open>b\<close> beat \<open>a\<close>).
\<close>

definition scenario_graph :: digraph where
  "scenario_graph = \<lparr>nodes = [1, 2, 3], adj = [((1, 2), 2), ((2, 3), 1)]\<rparr>"

section \<open>The step is an l1 contraction\<close>

lemma alpha_nonneg: "0 \<le> alpha" and alpha_less_1: "alpha < 1"
  by (simp_all add: alpha_def)

lemma flow_in_diff:
  "flow_in g x j - flow_in g y j = flow_in g (\<lambda>i. x i - y i) j"
  unfolding flow_in_def sum_list_subtractf [symmetric]
  by (rule arg_cong [where f = sum_list], rule map_cong) (auto simp: case_prod_unfold diff_divide_distrib left_diff_distrib)

lemma dangling_sum_diff:
  "dangling_sum g x - dangling_sum g y = dangling_sum g (\<lambda>i. x i - y i)"
  unfolding dangling_sum_def sum_list_subtractf [symmetric]
  by (rule arg_cong [where f = sum_list], rule map_cong) auto

lemma abs_flow_in:
  assumes "wf_graph g"
  shows "\<bar>flow_in g d j\<bar> \<le> flow_in g (\<lambda>i. \<bar>d i\<bar>) j"
proof -
  let ?F = "filter (\<lambda>e. snd (fst e) = j) (adj g)"
  have "\<bar>flow_in g d j\<bar> \<le> (\<Sum>e\<leftarrow>?F. \<bar>d (fst (fst e)) * of_int (snd e) / out_weight g (fst (fst e))\<bar>)"
    unfolding flow_in_filter by (rule order_trans [OF sum_list_abs]) (simp add: comp_def)
  also have "\<dots> = (\<Sum>e\<leftarrow>?F. \<bar>d (fst (fst e))\<bar> * of_int (snd e) / out_weight g (fst (fst e)))"
  proof (rule arg_cong [where f = sum_list], rule map_cong [OF refl])
    fix e assume "e \<in> set ?F"
    then have "0 < snd e" using assms by (auto simp: wf_graph_def)
    then show "\<bar>d (fst (fst e)) * of_int (snd e) / out_weight g (fst (fst e))\<bar>
             = \<bar>d (fst (fst e))\<bar> * of_int (snd e) / out_weight g (fst (fst e))"
      using out_weight_nonneg [OF assms] by (simp add: abs_mult)
  qed
  also have "\<dots> = flow_in g (\<lambda>i. \<bar>d i\<bar>) j" by (simp add: flow_in_filter)
  finally show ?thesis .
qed

lemma abs_dangling_sum:
  "\<bar>dangling_sum g d\<bar> \<le> dangling_sum g (\<lambda>i. \<bar>d i\<bar>)"
  unfolding dangling_sum_def
  by (rule order_trans [OF sum_list_abs]) (simp add: comp_def if_distrib)

lemma flow_dangling_total:
  assumes "wf_graph g"
  shows "(\<Sum>j\<leftarrow>nodes g. flow_in g x j) + dangling_sum g x = (\<Sum>j\<leftarrow>nodes g. x j)"
  unfolding sum_flow_in [OF assms] dangling_sum_def sum_list_addf [symmetric]
  by (rule arg_cong [where f = sum_list], rule map_cong) auto

lemma pr_step_diff_bound:
  assumes wf: "wf_graph g" and ne: "nodes g \<noteq> []"
  shows "\<bar>pr_step g x j - pr_step g y j\<bar>
         \<le> alpha * (flow_in g (\<lambda>i. \<bar>x i - y i\<bar>) j +
                    dangling_sum g (\<lambda>i. \<bar>x i - y i\<bar>) / of_nat (length (nodes g)))"
proof -
  let ?d = "\<lambda>i. x i - y i" and ?n = "of_nat (length (nodes g)) :: rat"
  have n: "0 < ?n" using ne by simp
  have "pr_step g x j - pr_step g y j
      = alpha * ((flow_in g x j - flow_in g y j) + (dangling_sum g x - dangling_sum g y) / ?n)"
    by (simp add: pr_step_def Let_def algebra_simps diff_divide_distrib)
  also have "\<dots> = alpha * (flow_in g ?d j + dangling_sum g ?d / ?n)"
    by (simp only: flow_in_diff dangling_sum_diff)
  finally have "\<bar>pr_step g x j - pr_step g y j\<bar> = alpha * \<bar>flow_in g ?d j + dangling_sum g ?d / ?n\<bar>"
    by (simp only: abs_mult abs_of_nonneg [OF alpha_nonneg])
  also have "\<dots> \<le> alpha * (\<bar>flow_in g ?d j\<bar> + \<bar>dangling_sum g ?d\<bar> / ?n)"
    using n by (intro mult_left_mono) (auto simp: alpha_def abs_triangle_ineq [THEN order_trans] abs_divide)
  also have "\<dots> \<le> alpha * (flow_in g (\<lambda>i. \<bar>?d i\<bar>) j + dangling_sum g (\<lambda>i. \<bar>?d i\<bar>) / ?n)"
    using n abs_flow_in [OF wf, of ?d j] abs_dangling_sum [of g ?d]
    by (intro mult_left_mono add_mono divide_right_mono) (auto simp: alpha_def)
  finally show ?thesis .
qed

lemma pr_step_contraction:
  assumes wf: "wf_graph g" and ne: "nodes g \<noteq> []"
  shows "l1_dist g (pr_step g x) (pr_step g y) \<le> alpha * l1_dist g x y"
proof -
  let ?a = "\<lambda>i. \<bar>x i - y i\<bar>" and ?n = "of_nat (length (nodes g)) :: rat"
  have n: "?n \<noteq> 0" using ne by simp
  have "l1_dist g (pr_step g x) (pr_step g y)
      \<le> (\<Sum>j\<leftarrow>nodes g. alpha * (flow_in g ?a j + dangling_sum g ?a / ?n))"
    unfolding l1_dist_def by (rule sum_list_mono) (rule pr_step_diff_bound [OF wf ne])
  also have "\<dots> = alpha * ((\<Sum>j\<leftarrow>nodes g. flow_in g ?a j) + ?n * (dangling_sum g ?a / ?n))"
    by (simp add: sum_list_const_mult sum_list_addf sum_list_triv)
  also have "\<dots> = alpha * ((\<Sum>j\<leftarrow>nodes g. flow_in g ?a j) + dangling_sum g ?a)"
    using n by simp
  also have "\<dots> = alpha * l1_dist g x y"
    by (simp only: flow_dangling_total [OF wf] l1_dist_def)
  finally show ?thesis .
qed

section \<open>The iteration ends within its budget\<close>

lemma l1_iterates:
  assumes wf: "wf_graph g" and ne: "nodes g \<noteq> []"
  shows "l1_dist g ((pr_step g ^^ Suc k) x) ((pr_step g ^^ k) x) \<le> alpha ^ k * l1_dist g (pr_step g x) x"
proof (induction k)
  case 0
  then show ?case by simp
next
  case (Suc k)
  have "l1_dist g ((pr_step g ^^ Suc (Suc k)) x) ((pr_step g ^^ Suc k) x)
      \<le> alpha * l1_dist g ((pr_step g ^^ Suc k) x) ((pr_step g ^^ k) x)"
    using pr_step_contraction [OF wf ne] by simp
  also have "\<dots> \<le> alpha * (alpha ^ k * l1_dist g (pr_step g x) x)"
    using Suc.IH alpha_nonneg by (rule mult_left_mono)
  finally show ?case by (simp add: mult.assoc)
qed

lemma power_iter_Some:
  "k < m \<Longrightarrow> l1_dist g ((pr_step g ^^ Suc k) x) ((pr_step g ^^ k) x) < of_nat (length (nodes g)) * tol \<Longrightarrow>
   \<exists>r. power_iter g m x = Some r"
proof (induction m arbitrary: x k)
  case 0
  then show ?case by simp
next
  case (Suc m)
  show ?case
  proof (cases "l1_dist g (pr_step g x) x < of_nat (length (nodes g)) * tol")
    case True
    then show ?thesis by (simp add: Let_def)
  next
    case False
    with Suc.prems obtain k' where k: "k = Suc k'" by (cases k) auto
    with Suc.prems have "k' < m"
      and "l1_dist g ((pr_step g ^^ Suc k') (pr_step g x)) ((pr_step g ^^ k') (pr_step g x))
           < of_nat (length (nodes g)) * tol"
      by (simp_all only: funpow_Suc_right comp_def)
    with Suc.IH obtain r where "power_iter g m (pr_step g x) = Some r" by blast
    with False show ?thesis by (simp add: Let_def)
  qed
qed

lemma l1_prob_le_2:
  assumes "prob_vec g x" and "prob_vec g y"
  shows "l1_dist g x y \<le> 2"
proof -
  have "l1_dist g x y \<le> (\<Sum>j\<leftarrow>nodes g. x j + y j)"
    unfolding l1_dist_def
  proof (rule sum_list_mono)
    fix j assume "j \<in> set (nodes g)"
    then have "0 < x j" and "0 < y j" using assms by (auto simp: prob_vec_def)
    then show "\<bar>x j - y j\<bar> \<le> x j + y j" by arith
  qed
  also have "\<dots> = 2" using assms by (simp add: sum_list_addf prob_vec_def)
  finally show ?thesis .
qed

lemma alpha_budget: "2 * alpha ^ (max_iter - 1) < tol"
proof -
  have "alpha ^ 199 \<le> alpha ^ 100"
    by (rule power_decreasing) (simp_all add: alpha_def)
  also have "alpha ^ 100 = (alpha ^ 10) ^ 10" by (simp flip: power_mult)
  also have "\<dots> < (1 / 5) ^ 10"
    by (rule power_strict_mono) (simp_all add: alpha_def power_divide)
  finally have "alpha ^ 199 < 1 / 9765625" by (simp add: power_divide)
  then show ?thesis by (simp add: max_iter_def tol_def)
qed

lemma power_iter_converges:
  assumes wf: "wf_graph g" and ne: "nodes g \<noteq> []" and prob: "prob_vec g x"
  shows "\<exists>r. power_iter g max_iter x = Some r"
proof -
  let ?k = "max_iter - 1"
  have "l1_dist g ((pr_step g ^^ Suc ?k) x) ((pr_step g ^^ ?k) x) \<le> alpha ^ ?k * l1_dist g (pr_step g x) x"
    by (rule l1_iterates [OF wf ne])
  also have "\<dots> \<le> alpha ^ ?k * 2"
    using l1_prob_le_2 [OF prob_vec_pr_step [OF wf ne prob] prob] alpha_nonneg
    by (intro mult_left_mono) simp_all
  also have "\<dots> < tol" using alpha_budget by (simp add: mult.commute)
  also have "\<dots> \<le> of_nat (length (nodes g)) * tol"
    using ne by (cases "nodes g") (simp_all add: tol_def)
  finally show ?thesis
    using power_iter_Some [of ?k max_iter] by (auto simp: max_iter_def)
qed

lemma pagerank_scipy_iterate:
  assumes wf: "wf_graph g" and ne: "nodes g \<noteq> []"
    and pos: "\<forall>n \<in> set (nodes g). \<exists>v. nstart n = Some v \<and> 0 < v"
  shows "\<exists>m. 1 \<le> m \<and> pagerank_scipy g nstart =
           Inr (map_of (zip (nodes g) (map ((pr_step g ^^ m) (start_vec g nstart)) (nodes g))))"
proof -
  obtain r where r: "power_iter g max_iter (start_vec g nstart) = Some r"
    using power_iter_converges [OF wf ne start_vec_prob [OF ne pos]] by blast
  then obtain m where "1 \<le> m" "r = (pr_step g ^^ m) (start_vec g nstart)"
    using power_iter_iterate by blast
  with r ne show ?thesis by (auto simp: pagerank_scipy_def)
qed

text \<open>
  C6: on a well-formed non-empty graph with a positive
  start value for every node, \<open>pagerank_scipy\<close> returns a score dict: the
  iteration converges within \<open>max_iter\<close> steps and
  \<open>PowerIterationFailedConvergence\<close> is never raised.
\<close>

theorem pagerank_scipy_converges:
  assumes wf: "wf_graph g" and ne: "nodes g \<noteq> []"
    and pos: "\<forall>n \<in> set (nodes g). \<exists>v. nstart n = Some v \<and> 0 < v"
  shows "\<exists>p. pagerank_scipy g nstart = Inr p"
  using power_iter_converges [OF wf ne start_vec_prob [OF ne pos]] ne
  by (auto simp: pagerank_scipy_def)

lemma pagerank_scipy_converges_witness:
  "wf_graph scenario_graph \<and> nodes scenario_graph \<noteq> [] \<and>
   (\<exists>p. pagerank_scipy scenario_graph [1 \<mapsto> 1/3, 2 \<mapsto> 1/3, 3 \<mapsto> 1/3] = Inr p)"
proof -
  have h12: "wf_graph scenario_graph" "nodes scenario_graph \<noteq> []"
    by (simp_all add: wf_graph_def scenario_graph_def)
  have h3: "\<forall>n \<in> set (nodes scenario_graph). \<exists>v. [1 \<mapsto> 1/3, 2 \<mapsto> 1/3, 3 \<mapsto> (1::rat)/3] n = Some v \<and> 0 < v"
    by (simp add: scenario_graph_def) (rule exI [of _ "1/3"], simp)
  note h = h12 h3
  from pagerank_scipy_converges [OF h] h show ?thesis by blast
qed

section \<open>The runner's windows\<close>

lemma count_list_pos: "x \<in> set xs \<Longrightarrow> 0 < count_list xs x"
  by (induction xs) auto

lemma batch_ok_ques_edges: "batch_ok (ques_edges tg ds de qs)"
  unfolding batch_ok_def ques_edges_def group_count_def
  by (auto intro!: count_list_pos simp del: set_concat)

lemma pr_start_pos:
  assumes "number_of_nodes g \<noteq> 0" and "\<forall>u v. p u = Some v \<longrightarrow> 0 < v"
    and "pr_start g p = Inr start"
  shows "\<forall>n \<in> set (nodes g). \<exists>v. start n = Some v \<and> 0 < v"
proof
  fix n assume n: "n \<in> set (nodes g)"
  have "map_of (map (\<lambda>n. (n, (1::rat) / of_nat (number_of_nodes g))) (nodes g)) n = Some (1 / of_nat (number_of_nodes g))"
    using n by (simp add: map_of_map_restrict restrict_map_def)
  moreover have "0 < (1::rat) / of_nat (number_of_nodes g)" using assms(1) by simp
  ultimately show "\<exists>v. start n = Some v \<and> 0 < v"
    using assms(2,3) by (auto simp: pr_start_def map_add_def split: option.splits)
qed

text \<open>The state a window keeps: a well-formed graph and a positive score dict.\<close>

lemma pr_window_keeps:
  assumes wf: "wf_graph (graph st)" and pos: "\<forall>u v. pager st u = Some v \<longrightarrow> 0 < v"
    and step: "pr_window tg qs ind st = Inr st'"
  shows "wf_graph (graph st') \<and> (\<forall>u v. pager st' u = Some v \<longrightarrow> 0 < v) \<and>
         (\<exists>start. pr_start (graph st') (pager st) = Inr start \<and>
                  pagerank_scipy (graph st') start = Inr (pager st'))"
proof -
  let ?g = "ingest (ques_edges tg (day_s ind) (day_e ind) qs) (graph st)"
  have g: "graph st' = ?g" by (rule pr_window_graph [OF step])
  have wf': "wf_graph ?g" using wf batch_ok_ques_edges by (rule wf_ingest)
  obtain start where start: "pr_start ?g (pager st) = Inr start"
    using step by (auto simp: pr_window_def Let_def split: sum.splits)
  then have nz: "number_of_nodes ?g \<noteq> 0" by (auto simp: pr_start_def split: if_splits)
  then have ne: "nodes ?g \<noteq> []" by (simp add: number_of_nodes_def)
  have spos: "\<forall>n \<in> set (nodes ?g). \<exists>v. start n = Some v \<and> 0 < v"
    by (rule pr_start_pos [OF nz pos start])
  obtain p where p: "pagerank_scipy ?g start = Inr p"
    using power_iter_converges [OF wf' ne start_vec_prob [OF ne spos]] ne
    by (auto simp: pagerank_scipy_def)
  have "pager st' = p" using step start p by (auto simp: pr_window_def Let_def)
  moreover obtain r where "prob_vec ?g r" and "p = map_of (zip (nodes ?g) (map r (nodes ?g)))"
    using pagerank_scipy_Inr [OF wf' ne spos p] by blast
  then have "\<forall>u v. p u = Some v \<longrightarrow> 0 < v"
    by (auto simp: map_of_zip_map prob_vec_def split: if_splits)
  ultimately show ?thesis using g wf' start p by simp
qed

text \<open>The same over any sequence of windows.\<close>

lemma pr_windows_keep:
  assumes "fold_err (pr_window tg qs) ws st = Inr st'"
    and "wf_graph (graph st)" and "\<forall>u v. pager st u = Some v \<longrightarrow> 0 < v"
  shows "wf_graph (graph st') \<and> (\<forall>u v. pager st' u = Some v \<longrightarrow> 0 < v)"
  using fold_err_inv [OF _ _ assms(1), of "\<lambda>st. wf_graph (graph st) \<and> (\<forall>u v. pager st u = Some v \<longrightarrow> 0 < v)"]
    assms(2,3) pr_window_keeps by blast

lemma alpha_pos: "0 < alpha"
  by (simp add: alpha_def)

lemma funpow_pred: "1 \<le> m \<Longrightarrow> (f ^^ m) x = f ((f ^^ (m - 1)) x)"
  by (cases m) simp_all

text \<open>The score dict a window keeps is an iterate of the step from its start vector.\<close>

lemma pr_window_iterate:
  assumes wf: "wf_graph (graph st)" and pos: "\<forall>u v. pager st u = Some v \<longrightarrow> 0 < v"
    and step: "pr_window tg qs ind st = Inr st'"
  shows "\<exists>start m. 1 \<le> m \<and> pr_start (graph st') (pager st) = Inr start \<and>
           (\<forall>n \<in> set (nodes (graph st')). \<exists>v. start n = Some v \<and> 0 < v) \<and>
           pager st' = map_of (zip (nodes (graph st'))
                         (map ((pr_step (graph st') ^^ m) (start_vec (graph st') start)) (nodes (graph st'))))"
proof -
  obtain start where wf': "wf_graph (graph st')" and start: "pr_start (graph st') (pager st) = Inr start"
    and p: "pagerank_scipy (graph st') start = Inr (pager st')"
    using pr_window_keeps [OF wf pos step] by blast
  have nz: "number_of_nodes (graph st') \<noteq> 0" using start by (auto simp: pr_start_def split: if_splits)
  then have ne: "nodes (graph st') \<noteq> []" by (simp add: number_of_nodes_def)
  have spos: "\<forall>n \<in> set (nodes (graph st')). \<exists>v. start n = Some v \<and> 0 < v"
    by (rule pr_start_pos [OF nz pos start])
  from pagerank_scipy_iterate [OF wf' ne spos] p start spos show ?thesis by auto
qed

text \<open>
  C7: in a completed run of the weekly loop started from a
  positive score dict (\<open>{}\<close> included), the PageRank call of every window
  returns: the state reached after the earlier windows builds a start dict from which
  \<open>pagerank_scipy\<close> converges, and the window keeps its result. The
  \<open>except PowerIterationFailedConvergence\<close> branch is never taken.
\<close>

theorem pg_run_converges:
  assumes run: "pg_run tg qs today p tbl = Inr st'"
    and pos: "\<forall>u v. p u = Some v \<longrightarrow> 0 < v" and ind: "ind < window_count today"
  shows "\<exists>st st1 start.
           fold_err (pr_window tg qs) [0..<ind] \<lparr>graph = empty_graph, pager = p, pr_table = tbl\<rparr> = Inr st \<and>
           pr_window tg qs ind st = Inr st1 \<and>
           pr_start (graph st1) (pager st) = Inr start \<and> pagerank_scipy (graph st1) start = Inr (pager st1)"
proof -
  let ?st0 = "\<lparr>graph = empty_graph, pager = p, pr_table = tbl\<rparr>" and ?n = "window_count today"
  let ?I = "\<lambda>st. wf_graph (graph st) \<and> (\<forall>u v. pager st u = Some v \<longrightarrow> 0 < v)"
  have "[0..<?n] = [0..<ind] @ ind # [Suc ind..<?n]"
    using ind upt_add_eq_append [of 0 ind "?n - ind"] by (simp add: upt_conv_Cons)
  then obtain st st1 where pre: "fold_err (pr_window tg qs) [0..<ind] ?st0 = Inr st"
    and win: "pr_window tg qs ind st = Inr st1"
    using run by (auto simp: pg_run_def fold_err_append split: sum.splits)
  have "wf_graph empty_graph" by (simp add: empty_graph_def wf_graph_def)
  then have "?I st" using pr_windows_keep [OF pre] pos by simp
  then show ?thesis using pre win pr_window_keeps [OF _ _ win] by blast
qed

lemma pg_run_converges_witness:
  "pg_run ''java'' demo_qs (oriday + 516) Map.empty demo_tbl =
     Inr (projr (pg_run ''java'' demo_qs (oriday + 516) Map.empty demo_tbl)) \<and>
   0 < window_count (oriday + 516) \<and>
   (\<exists>st st1 start.
      fold_err (pr_window ''java'' demo_qs) [0..<0] \<lparr>graph = empty_graph, pager = Map.empty, pr_table = demo_tbl\<rparr> = Inr st \<and>
      pr_window ''java'' demo_qs 0 st = Inr st1 \<and>
      pr_start (graph st1) (pager st) = Inr start \<and> pagerank_scipy (graph st1) start = Inr (pager st1))"
proof -
  have n: "0 < window_count (oriday + 516)" by (simp add: window_count_def py_trunc_div_def)
  from pg_run_converges [OF demo_run _ n] demo_run n show ?thesis by simp
qed

end
