(* ===== verification/SkillLedger.thy ===== *)
theory SkillLedger
  imports Windows Escape
begin

text \<open>
  The TrueSkill ledger of \<open>tsrunner.py\<close>: one SQLite table per tag (user id to
  judgment date, snapshot \<open>ts\<close>, and the rating pair \<open>mu\<close>, \<open>sigma\<close>), and the
  processing of one row of the window's \<open>QUES\<close> result (a question under one of its
  tags): select the ratings of the question's answerers and asker, apply the
  two-player update (accepted answerer beats asker, the asker defaulting to
  \<open>self.fresh\<close>), then the multiplayer update over the ranked answerers, then write
  \<open>mu\<close>, \<open>sigma\<close> back with \<open>UPDATE ... WHERE user_id = ?\<close>.

  The rating library (\<open>trueskill.TrueSkill(backend='mpmath', draw_probability=0.2)\<close>)
  is not part of the repository: its \<open>rate\<close> method is a parameter \<open>R\<close> of the model,
  a function from the rating groups (one rating each here) and their ranks to the new
  ratings. The lemmas hold for every such function, under the library's contract that
  it returns one group per input group where they need it.
\<close>

section \<open>State and feed\<close>

type_synonym rating = "rat \<times> rat"  \<comment> \<open>(mu, sigma)\<close>

type_synonym rater = "rating list \<Rightarrow> int list \<Rightarrow> rating list"

text \<open>A row of a tag's table (\<open>judge_date\<close> is \<open>NULL\<close> for users outside \<open>Score600\<close>).\<close>

record ts_row =
  ts_judge :: "day option"
  ts :: rat
  mu :: rat
  sigma :: rat

text \<open>The SQLite database: tables by (escaped) name.\<close>

type_synonym ts_db = "tag \<rightharpoonup> (uid \<rightharpoonup> ts_row)"

text \<open>The library's contract used below: one result group per input group.\<close>

definition rater_ok :: "rater \<Rightarrow> bool" where
  "rater_ok R \<longleftrightarrow> (\<forall>xs rs. length (R xs rs) = length xs)"

text \<open>\<open>self.fresh = trueskill.Rating(8.3333, 2.7778)\<close>.\<close>

definition fresh :: rating where
  "fresh = (83333 / 10000, 27778 / 10000)"

text \<open>
  \<open>QUES\<close> of \<open>tsrunner.py\<close>: every question of the window, once per tag
  (\<open>QuestionRankS.tags AS tag\<close>), without a tag filter.
\<close>

definition ts_ques :: "day \<Rightarrow> day \<Rightarrow> qrow list \<Rightarrow> (tag \<times> qrow) list" where
  "ts_ques ds de qs = [(t, q). q \<leftarrow> qs, ds \<le> q_date q \<and> q_date q \<le> de, t \<leftarrow> q_tags q]"

section \<open>One row\<close>

text \<open>
  \<open>SELECT user_id, mu, sigma FROM tag WHERE user_id IN (rank_id + (asker_id,))\<close>, read
  into the dict \<open>user_ts\<close>.
\<close>

definition ts_select :: "(uid \<rightharpoonup> ts_row) \<Rightarrow> uid list \<Rightarrow> (uid \<rightharpoonup> rating)" where
  "ts_select tbl ids =
     (\<lambda>u. if u \<in> set ids then map_option (\<lambda>r. (mu r, sigma r)) (tbl u) else None)"

text \<open>
  The two-player update, run only when the accepted answerer has a rating: with the
  asker's rating when the asker has one (and then only the answerer's new rating is
  kept), with \<open>self.fresh\<close> otherwise (and then both new ratings go into
  \<open>user_ts\<close>). \<open>rate_gp[0]\<close>, \<open>rate_gp[1]\<close> raise on a short result.
\<close>

definition ts_two_player :: "rater \<Rightarrow> qrow \<Rightarrow> (uid \<rightharpoonup> rating) \<Rightarrow> py_error + (uid \<rightharpoonup> rating)" where
  "ts_two_player R q ut =
     (case accept_id q of
        None \<Rightarrow> Inr ut
      | Some a \<Rightarrow>
          (case ut a of
             None \<Rightarrow> Inr ut
           | Some ra \<Rightarrow>
               (case ut (asker_id q) of
                  Some rk \<Rightarrow>
                    (let g = R [ra, rk] [0, 1] in
                     if g = [] then Inl IndexError else Inr (ut(a \<mapsto> g ! 0)))
                | None \<Rightarrow>
                    (let g = R [ra, fresh] [0, 1] in
                     if length g < 2 then Inl IndexError
                     else Inr ((ut(asker_id q \<mapsto> g ! 1))(a \<mapsto> g ! 0))))))"

text \<open>
  The multiplayer update over the answerers, when there are at least two:
  \<open>user_ts[id]\<close> raises \<open>KeyError\<close> for an answerer without a rating.
\<close>

definition ts_multi :: "rater \<Rightarrow> qrow \<Rightarrow> (uid \<rightharpoonup> rating) \<Rightarrow> py_error + (uid \<rightharpoonup> rating)" where
  "ts_multi R q ut =
     (if 1 < length (rank_id q) then
        (case those (map ut (rank_id q)) of
           None \<Rightarrow> Inl KeyError
         | Some rs \<Rightarrow> Inr (dict_update ut (zip (rank_id q) (R rs (rank q)))))
      else Inr ut)"

text \<open>\<open>UPDATE tag SET mu=?, sigma=? WHERE user_id=?\<close> for every entry of \<open>user_ts\<close>.\<close>

definition ts_writeback :: "(uid \<rightharpoonup> ts_row) \<Rightarrow> (uid \<rightharpoonup> rating) \<Rightarrow> (uid \<rightharpoonup> ts_row)" where
  "ts_writeback tbl ut =
     (\<lambda>u. case tbl u of
            None \<Rightarrow> None
          | Some r \<Rightarrow> (case ut u of None \<Rightarrow> Some r | Some (m, s) \<Rightarrow> Some (r\<lparr>mu := m, sigma := s\<rparr>)))"

text \<open>
  SQLite's message for \<open>... WHERE user_id IN (3,)\<close>, the statement a question without
  answerers formats: \<open>near ")": syntax error\<close>.
\<close>

definition sql_in_syntax_error :: string where
  "sql_in_syntax_error = ''near '' @ [CHR 0x22, CHR '')'', CHR 0x22] @ '': syntax error''"

text \<open>
  The body of \<open>for _, row in ques.iterrows()\<close>. SQLite parses the \<open>SELECT\<close> before it
  looks up the table, so the syntax error of an empty \<open>rank_id\<close> comes first.
\<close>

definition ts_row_step :: "rater \<Rightarrow> tag \<times> qrow \<Rightarrow> ts_db \<Rightarrow> py_error + ts_db" where
  "ts_row_step R tq db =
     (case tq of (t, q) \<Rightarrow>
        (let tn = tra_escape t in
         if rank_id q = [] then Inl (OperationalError sql_in_syntax_error) else
         case db tn of
           None \<Rightarrow> Inl (OperationalError (''no such table: '' @ tn))
         | Some tbl \<Rightarrow>
             (case ts_two_player R q (ts_select tbl (rank_id q @ [asker_id q])) of
                Inl e \<Rightarrow> Inl e
              | Inr ut1 \<Rightarrow>
                  (case ts_multi R q ut1 of
                     Inl e \<Rightarrow> Inl e
                   | Inr ut2 \<Rightarrow> Inr (db(tn \<mapsto> ts_writeback tbl ut2))))))"

section \<open>The weekly loop\<close>

text \<open>
  The \<open>TAGS\<close> query result \<open>self.tags\<close>, a one-column DataFrame: its column labels
  (what \<open>for tag in self.tags\<close> iterates) and the values of its column \<open>tag\<close>
  (what \<open>self.tags['tag']\<close> gives).
\<close>

record tag_frame =
  columns :: "string list"
  tag_values :: "tag list"

definition tags_query :: "tag list \<Rightarrow> tag_frame" where
  "tags_query tgs = \<lparr>columns = [''tag''], tag_values = tgs\<rparr>"

text \<open>
  The end-of-week snapshot of \<open>run\<close>: \<open>UPDATE tag SET ts=mu-3*sigma WHERE judge_date
  BETWEEN day_s AND day_e\<close> (a \<open>NULL\<close> judgment date never matches), for every tag
  value of \<open>self.tags\<close>.
\<close>

definition ts_snap_rows :: "day \<Rightarrow> day \<Rightarrow> (uid \<rightharpoonup> ts_row) \<Rightarrow> (uid \<rightharpoonup> ts_row)" where
  "ts_snap_rows ds de tbl =
     (\<lambda>u. map_option
            (\<lambda>r. case ts_judge r of
                   Some d \<Rightarrow> if ds \<le> d \<and> d \<le> de then r\<lparr>ts := mu r - 3 * sigma r\<rparr> else r
                 | None \<Rightarrow> r)
            (tbl u))"

definition ts_snap_tag :: "day \<Rightarrow> day \<Rightarrow> tag \<Rightarrow> ts_db \<Rightarrow> py_error + ts_db" where
  "ts_snap_tag ds de t db =
     (let tn = tra_escape t in
      case db tn of
        None \<Rightarrow> Inl (OperationalError (''no such table: '' @ tn))
      | Some tbl \<Rightarrow> Inr (db(tn \<mapsto> ts_snap_rows ds de tbl)))"

text \<open>One week \<open>ind\<close> of \<open>run\<close>: every row of \<open>QUES\<close>, then the snapshot.\<close>

definition ts_window :: "rater \<Rightarrow> tag_frame \<Rightarrow> qrow list \<Rightarrow> nat \<Rightarrow> ts_db \<Rightarrow> py_error + ts_db" where
  "ts_window R tf qs ind db =
     (case fold_err (ts_row_step R) (ts_ques (day_s ind) (day_e ind) qs) db of
        Inl e \<Rightarrow> Inl e
      | Inr db1 \<Rightarrow> fold_err (ts_snap_tag (day_s ind) (day_e ind)) (tag_values tf) db1)"

text \<open>\<open>run\<close>: the same week count as the PageRank runner, \<open>range(int(cnt / 7))\<close>.\<close>

definition ts_run :: "rater \<Rightarrow> tag_frame \<Rightarrow> qrow list \<Rightarrow> day \<Rightarrow> ts_db \<Rightarrow> py_error + ts_db" where
  "ts_run R tf qs today db = fold_err (ts_window R tf qs) [0..<window_count today] db"

section \<open>Seeding the tables\<close>

text \<open>
  The \<open>USER\<close> query for a tag: every answerer of a question carrying the tag, once,
  with judgment date 120 days after the creation date of the user's \<open>Score600\<close> row
  for the tag (\<open>NULL\<close> without one), \<open>ts = 0\<close>, \<open>mu = 25\<close>, \<open>sigma = 25/3\<close>.
  \<open>Score600\<close> is a map from (user, tag) to the creation day, one row per pair.
\<close>

definition ts_user_rows :: "((uid \<times> tag) \<rightharpoonup> day) \<Rightarrow> qrow list \<Rightarrow> tag \<Rightarrow> (uid \<times> ts_row) list" where
  "ts_user_rows sc qs t =
     map (\<lambda>u. (u, \<lparr>ts_judge = map_option (\<lambda>d. d + 120) (sc (u, t)), ts = 0, mu = 25, sigma = 25 / 3\<rparr>))
       (remdups [u. q \<leftarrow> qs, t \<in> set (q_tags q), u \<leftarrow> rank_id q])"

text \<open>The database with its index names (\<open>CREATE INDEX idx_<tag>\<close> has no \<open>IF NOT EXISTS\<close>).\<close>

record ts_store =
  tables :: ts_db
  indexes :: "string list"

text \<open>The body of \<open>create_table\<close>'s loop for one name.\<close>

definition ts_create_one :: "((uid \<times> tag) \<rightharpoonup> day) \<Rightarrow> qrow list \<Rightarrow> string \<Rightarrow> ts_store \<Rightarrow> py_error + ts_store" where
  "ts_create_one sc qs t st =
     (let tn = tra_escape t;
          tbl0 = (case tables st tn of None \<Rightarrow> Map.empty | Some tbl \<Rightarrow> tbl);
          ix = ''idx_'' @ tn in
      case fold_err sql_insert (ts_user_rows sc qs t) tbl0 of
        Inl e \<Rightarrow> Inl e
      | Inr tbl1 \<Rightarrow>
          if ix \<in> set (indexes st) then Inl (OperationalError (''index '' @ ix @ '' already exists''))
          else Inr \<lparr>tables = (tables st)(tn \<mapsto> tbl1), indexes = ix # indexes st\<rparr>)"

text \<open>\<open>create_table\<close>: \<open>for tag in tqdm(self.tags)\<close> iterates the DataFrame, that is its column labels.\<close>

definition ts_create_table :: "((uid \<times> tag) \<rightharpoonup> day) \<Rightarrow> qrow list \<Rightarrow> tag_frame \<Rightarrow> ts_store \<Rightarrow> py_error + ts_store" where
  "ts_create_table sc qs tf st = fold_err (ts_create_one sc qs) (columns tf) st"

section \<open>Sample data\<close>

text \<open>
  A rater with the library's shape (one result per group; the better rank gains \<open>mu\<close>,
  the worse loses it, every \<open>sigma\<close> shrinks), one question tagged \<open>c#\<close> with two
  answerers, the first accepted, and a table holding the two answerers (the first judged in the
  first week) and the asker.
\<close>

definition demo_rater :: rater where
  "demo_rater xs rs =
     map2 (\<lambda>(m, s) r. (m + 1 - 2 * of_int r, s * 9 / 10)) xs (rs @ replicate (length xs) 0)"

definition seed_row :: ts_row where
  "seed_row = \<lparr>ts_judge = None, ts = 0, mu = 25, sigma = 25 / 3\<rparr>"

definition demo_q :: qrow where
  "demo_q = \<lparr>q_date = oriday, q_tags = [''c#''], rank_id = [1, 2], rank = [0, 1],
             asker_id = 3, accept_id = Some 1\<rparr>"

definition demo_ts_db :: ts_db where
  "demo_ts_db = [''c_sharp'' \<mapsto> [1 \<mapsto> seed_row\<lparr>ts_judge := Some (oriday + 3)\<rparr>, 2 \<mapsto> seed_row, 3 \<mapsto> seed_row]]"

section \<open>Lemmas on one row\<close>

lemma dom_ts_writeback [simp]: "dom (ts_writeback tbl ut) = dom tbl"
  by (auto simp: ts_writeback_def split: option.splits)

lemma ts_writeback_other:
  "ut u = None \<Longrightarrow> ts_writeback tbl ut u = tbl u"
  by (simp add: ts_writeback_def split: option.splits)

lemma ts_writeback_Some:
  "tbl u = Some r \<Longrightarrow> ut u = Some (m, s) \<Longrightarrow> ts_writeback tbl ut u = Some (r\<lparr>mu := m, sigma := s\<rparr>)"
  by (simp add: ts_writeback_def)

lemma ts_select_dom: "ts_select tbl ids u \<noteq> None \<longleftrightarrow> u \<in> set ids \<and> u \<in> dom tbl"
  by (auto simp: ts_select_def)

lemma those_map_None: "those (map f xs) = None \<longleftrightarrow> (\<exists>x \<in> set xs. f x = None)"
  by (induction xs) (auto split: option.splits)

lemma those_map_Some: "(\<forall>x \<in> set xs. f x \<noteq> None) \<Longrightarrow> those (map f xs) = Some (map (the \<circ> f) xs)"
  by (induction xs) auto

lemma ts_two_player_other:
  "ts_two_player R q ut = Inr ut1 \<Longrightarrow> u \<noteq> asker_id q \<Longrightarrow> accept_id q \<noteq> Some u \<Longrightarrow> ut1 u = ut u"
  by (auto simp: ts_two_player_def Let_def split: option.splits if_splits)

lemma ts_two_player_asker:
  "ts_two_player R q ut = Inr ut1 \<Longrightarrow> accept_id q \<noteq> Some (asker_id q) \<Longrightarrow> ut (asker_id q) \<noteq> None
   \<Longrightarrow> ut1 (asker_id q) = ut (asker_id q)"
  by (auto simp: ts_two_player_def Let_def split: option.splits if_splits)

lemma ts_multi_other:
  "ts_multi R q ut = Inr ut2 \<Longrightarrow> u \<notin> set (rank_id q) \<Longrightarrow> ut2 u = ut u"
  by (auto simp: ts_multi_def dict_update_zip_other split: if_splits option.splits)

lemma ts_two_player_None:
  "ts_two_player R q ut = Inr ut1 \<Longrightarrow> ut u = None \<Longrightarrow> u \<noteq> asker_id q \<Longrightarrow> ut1 u = None"
  by (auto simp: ts_two_player_def Let_def split: option.splits if_splits)

lemma ts_two_player_mono:
  "ts_two_player R q ut = Inr ut1 \<Longrightarrow> dom ut \<subseteq> dom ut1"
  by (auto simp: ts_two_player_def Let_def split: option.splits if_splits)

lemma rater_ok_length:
  "rater_ok R \<Longrightarrow> length (R xs rs) = length xs"
  by (simp add: rater_ok_def)

lemma ts_two_player_ok:
  "rater_ok R \<Longrightarrow> \<exists>ut1. ts_two_player R q ut = Inr ut1"
  by (auto simp: ts_two_player_def rater_ok_length Let_def split: option.splits
           dest: arg_cong [where f = length])

lemma ts_multi_ok:
  "set (rank_id q) \<subseteq> dom ut \<Longrightarrow> \<exists>ut2. ts_multi R q ut = Inr ut2"
  by (auto simp: ts_multi_def those_map_None split: option.splits)

lemma ts_multi_KeyError:
  "1 < length (rank_id q) \<Longrightarrow> u \<in> set (rank_id q) \<Longrightarrow> ut u = None \<Longrightarrow> ts_multi R q ut = Inl KeyError"
  by (auto simp: ts_multi_def those_map_None split: option.splits)

lemma ts_row_step_Inr:
  "ts_row_step R (t, q) db = Inr db' \<Longrightarrow>
   \<exists>tbl ut1 ut2. db (tra_escape t) = Some tbl \<and> rank_id q \<noteq> [] \<and>
     ts_two_player R q (ts_select tbl (rank_id q @ [asker_id q])) = Inr ut1 \<and>
     ts_multi R q ut1 = Inr ut2 \<and> db' = db(tra_escape t \<mapsto> ts_writeback tbl ut2)"
  by (auto simp: ts_row_step_def Let_def split: option.splits sum.splits if_splits)

lemma ts_writeback_keeps:
  "ts_writeback tbl ut u = Some r' \<Longrightarrow> \<exists>r. tbl u = Some r \<and> ts_judge r' = ts_judge r \<and> ts r' = ts r"
  by (auto simp: ts_writeback_def split: option.splits)

lemma ts_writeback_None: "tbl u = None \<Longrightarrow> ts_writeback tbl ut u = None"
  by (simp add: ts_writeback_def)

lemma ts_writeback_same_rating:
  "tbl u = Some r \<Longrightarrow> ut u = Some (mu r, sigma r) \<Longrightarrow> ts_writeback tbl ut u = Some r"
  by (simp add: ts_writeback_def)

lemma ts_row_untouched:
  assumes "ts_two_player R q (ts_select tbl (rank_id q @ [asker_id q])) = Inr ut1"
    and "ts_multi R q ut1 = Inr ut2" and "u \<notin> set (rank_id q)" and "u \<noteq> asker_id q"
  shows "ts_writeback tbl ut2 u = tbl u"
proof -
  have "ts_select tbl (rank_id q @ [asker_id q]) u = None"
    using assms(3,4) by (simp add: ts_select_def)
  with assms have "ut2 u = None"
    using ts_two_player_None ts_multi_other by metis
  then show ?thesis by (rule ts_writeback_other)
qed

lemma demo_rater_ok: "rater_ok demo_rater"
  by (simp add: rater_ok_def demo_rater_def)

lemma demo_step:
  "ts_row_step demo_rater (''c#'', demo_q) demo_ts_db =
     Inr (projr (ts_row_step demo_rater (''c#'', demo_q) demo_ts_db))"
  by (simp add: ts_row_step_def demo_q_def demo_ts_db_def tra_escape_def ts_select_def
      ts_two_player_def ts_multi_def demo_rater_def fresh_def)

section \<open>Properties of one row\<close>

text \<open>
  C2: processing a row never changes the asker's row of the tag's
  table when the asker is not also an answerer: the two-player game is played, but with
  a recorded asker only the answerer's new rating enters \<open>user_ts\<close>, and with an
  unrecorded asker the new rating is written to a row that does not exist.
\<close>

theorem ts_asker_unchanged:
  assumes step: "ts_row_step R (t, q) db = Inr db'"
    and notans: "asker_id q \<notin> set (rank_id q)"
    and notacc: "accept_id q \<noteq> Some (asker_id q)"
  shows "\<exists>tbl tbl'. db (tra_escape t) = Some tbl \<and> db' (tra_escape t) = Some tbl' \<and>
                    tbl' (asker_id q) = tbl (asker_id q)"
proof -
  let ?k = "asker_id q" and ?ut = "ts_select tbl (rank_id q @ [asker_id q])"
  obtain tbl ut1 ut2 where tb: "db (tra_escape t) = Some tbl"
    and tp: "ts_two_player R q (ts_select tbl (rank_id q @ [asker_id q])) = Inr ut1"
    and mp: "ts_multi R q ut1 = Inr ut2"
    and db': "db' = db(tra_escape t \<mapsto> ts_writeback tbl ut2)"
    using ts_row_step_Inr [OF step] by blast
  have k2: "ut2 ?k = ut1 ?k" using ts_multi_other [OF mp notans] .
  have "ts_writeback tbl ut2 ?k = tbl ?k"
  proof (cases "tbl ?k")
    case None
    then show ?thesis by (simp add: ts_writeback_None)
  next
    case (Some r)
    then have sel: "ts_select tbl (rank_id q @ [asker_id q]) ?k = Some (mu r, sigma r)"
      by (simp add: ts_select_def)
    then have "ut1 ?k = Some (mu r, sigma r)"
      using ts_two_player_asker [OF tp notacc] by simp
    with k2 Some show ?thesis by (simp add: ts_writeback_same_rating)
  qed
  with tb db' show ?thesis by simp
qed

lemma ts_asker_unchanged_witness:
  "ts_row_step demo_rater (''c#'', demo_q) demo_ts_db =
     Inr (projr (ts_row_step demo_rater (''c#'', demo_q) demo_ts_db)) \<and>
   asker_id demo_q \<notin> set (rank_id demo_q) \<and> accept_id demo_q \<noteq> Some (asker_id demo_q) \<and>
   (\<exists>tbl tbl'. demo_ts_db (tra_escape ''c#'') = Some tbl \<and>
      projr (ts_row_step demo_rater (''c#'', demo_q) demo_ts_db) (tra_escape ''c#'') = Some tbl' \<and>
      tbl' (asker_id demo_q) = tbl (asker_id demo_q))"
proof -
  have h: "asker_id demo_q \<notin> set (rank_id demo_q)" "accept_id demo_q \<noteq> Some (asker_id demo_q)"
    by (simp_all add: demo_q_def)
  from ts_asker_unchanged [OF demo_step h] demo_step h show ?thesis by simp
qed

text \<open>
  C15: a processed row changes only the table of its (escaped) tag, keeps
  that table's users, leaves every user who is neither an answerer nor the asker as it
  was, and changes only \<open>mu\<close> and \<open>sigma\<close> of a row, never its judgment date or
  snapshot \<open>ts\<close>.
\<close>

theorem ts_row_frame:
  assumes step: "ts_row_step R (t, q) db = Inr db'"
  shows "dom db' = dom db \<and> (\<forall>tn. tn \<noteq> tra_escape t \<longrightarrow> db' tn = db tn) \<and>
         (\<exists>tbl tbl'. db (tra_escape t) = Some tbl \<and> db' (tra_escape t) = Some tbl' \<and>
            dom tbl' = dom tbl \<and>
            (\<forall>u. u \<notin> set (rank_id q) \<and> u \<noteq> asker_id q \<longrightarrow> tbl' u = tbl u) \<and>
            (\<forall>u r'. tbl' u = Some r' \<longrightarrow> (\<exists>r. tbl u = Some r \<and> ts_judge r' = ts_judge r \<and> ts r' = ts r)))"
proof -
  obtain tbl ut1 ut2 where tb: "db (tra_escape t) = Some tbl"
    and tp: "ts_two_player R q (ts_select tbl (rank_id q @ [asker_id q])) = Inr ut1"
    and mp: "ts_multi R q ut1 = Inr ut2"
    and db': "db' = db(tra_escape t \<mapsto> ts_writeback tbl ut2)"
    using ts_row_step_Inr [OF step] by blast
  have "dom db' = dom db" using tb db' by auto
  moreover have "\<forall>u. u \<notin> set (rank_id q) \<and> u \<noteq> asker_id q \<longrightarrow> ts_writeback tbl ut2 u = tbl u"
    using ts_row_untouched [OF tp mp] by blast
  moreover have "\<forall>u r'. ts_writeback tbl ut2 u = Some r' \<longrightarrow>
                   (\<exists>r. tbl u = Some r \<and> ts_judge r' = ts_judge r \<and> ts r' = ts r)"
    using ts_writeback_keeps by blast
  ultimately show ?thesis using tb db' by simp
qed

lemma ts_row_frame_witness:
  "ts_row_step demo_rater (''c#'', demo_q) demo_ts_db =
     Inr (projr (ts_row_step demo_rater (''c#'', demo_q) demo_ts_db)) \<and>
   dom (projr (ts_row_step demo_rater (''c#'', demo_q) demo_ts_db)) = {''c_sharp''}"
  using ts_row_frame [OF demo_step] demo_step by (simp add: demo_ts_db_def)

text \<open>
  C19: with a rater that keeps the library's contract, a row is
  processed without error when its tag has a table, it has an answerer (the
  \<open>IN (...)\<close> list of one element is a syntax error), and all its answerers were
  seeded into the table.
\<close>

theorem ts_row_step_ok:
  assumes R: "rater_ok R" and tb: "db (tra_escape t) = Some tbl"
    and ne: "rank_id q \<noteq> []" and seeded: "set (rank_id q) \<subseteq> dom tbl"
  shows "\<exists>db'. ts_row_step R (t, q) db = Inr db'"
proof -
  let ?ut = "ts_select tbl (rank_id q @ [asker_id q])"
  obtain ut1 where tp: "ts_two_player R q ?ut = Inr ut1"
    using ts_two_player_ok [OF R] by blast
  have "set (rank_id q) \<subseteq> dom ?ut"
    using seeded ts_select_dom [of tbl "rank_id q @ [asker_id q]"] by auto
  also have "dom ?ut \<subseteq> dom ut1" by (rule ts_two_player_mono [OF tp])
  finally obtain ut2 where "ts_multi R q ut1 = Inr ut2"
    using ts_multi_ok by blast
  with tb ne tp show ?thesis by (simp add: ts_row_step_def)
qed

lemma ts_row_step_ok_witness:
  "rater_ok demo_rater \<and> demo_ts_db (tra_escape ''c#'') = Some (the (demo_ts_db ''c_sharp'')) \<and>
   rank_id demo_q \<noteq> [] \<and> set (rank_id demo_q) \<subseteq> dom (the (demo_ts_db ''c_sharp'')) \<and>
   (\<exists>db'. ts_row_step demo_rater (''c#'', demo_q) demo_ts_db = Inr db')"
proof -
  have h: "demo_ts_db (tra_escape ''c#'') = Some (the (demo_ts_db ''c_sharp''))"
    "rank_id demo_q \<noteq> []" "set (rank_id demo_q) \<subseteq> dom (the (demo_ts_db ''c_sharp''))"
    by (simp_all add: demo_ts_db_def tra_escape_def demo_q_def)
  from ts_row_step_ok [where db = demo_ts_db and t = "''c#''" and q = demo_q, OF demo_rater_ok h] demo_rater_ok h show ?thesis by simp
qed

text \<open>
  C18: a question with several answerers, one of whom (not the
  asker) has no row in the tag's table, stops \<open>run\<close> with \<open>KeyError\<close> at
  \<open>user_ts[id]\<close>.
\<close>

theorem ts_row_step_KeyError:
  assumes R: "rater_ok R" and tb: "db (tra_escape t) = Some tbl"
    and many: "1 < length (rank_id q)" and u: "u \<in> set (rank_id q)"
    and miss: "tbl u = None" and notk: "u \<noteq> asker_id q"
  shows "ts_row_step R (t, q) db = Inl KeyError"
proof -
  let ?ut = "ts_select tbl (rank_id q @ [asker_id q])"
  obtain ut1 where tp: "ts_two_player R q ?ut = Inr ut1"
    using ts_two_player_ok [OF R] by blast
  have "?ut u = None" using miss by (simp add: ts_select_def)
  then have "ut1 u = None" using ts_two_player_None [OF tp _ notk] by blast
  then have "ts_multi R q ut1 = Inl KeyError" using ts_multi_KeyError [OF many u] by blast
  moreover have "rank_id q \<noteq> []" using many by auto
  ultimately show ?thesis using tb tp by (simp add: ts_row_step_def)
qed

lemma ts_row_step_KeyError_witness:
  "rater_ok demo_rater \<and>
   [''c_sharp'' \<mapsto> [(1::uid) \<mapsto> seed_row, 3 \<mapsto> seed_row]] (tra_escape ''c#'') = Some [(1::uid) \<mapsto> seed_row, 3 \<mapsto> seed_row] \<and>
   1 < length (rank_id demo_q) \<and> (2::uid) \<in> set (rank_id demo_q) \<and>
   [(1::uid) \<mapsto> seed_row, 3 \<mapsto> seed_row] (2::uid) = None \<and> (2::uid) \<noteq> asker_id demo_q \<and>
   ts_row_step demo_rater (''c#'', demo_q) [''c_sharp'' \<mapsto> [(1::uid) \<mapsto> seed_row, 3 \<mapsto> seed_row]] = Inl KeyError"
proof -
  have h: "[''c_sharp'' \<mapsto> [(1::uid) \<mapsto> seed_row, 3 \<mapsto> seed_row]] (tra_escape ''c#'') = Some [(1::uid) \<mapsto> seed_row, 3 \<mapsto> seed_row]"
    "1 < length (rank_id demo_q)" "(2::uid) \<in> set (rank_id demo_q)"
    "[(1::uid) \<mapsto> seed_row, 3 \<mapsto> seed_row] (2::uid) = None" "(2::uid) \<noteq> asker_id demo_q"
    by (simp_all add: tra_escape_def demo_q_def)
  from ts_row_step_KeyError [where db = "[''c_sharp'' \<mapsto> [(1::uid) \<mapsto> seed_row, 3 \<mapsto> seed_row]]" and t = "''c#''" and q = demo_q and u = 2, OF demo_rater_ok h] demo_rater_ok h show ?thesis by simp
qed

section \<open>The weekly snapshot\<close>

lemma ts_snap_rows_Some:
  "ts_snap_rows ds de tbl u = Some r' \<Longrightarrow> ts_judge r' = Some d \<Longrightarrow> ds \<le> d \<Longrightarrow> d \<le> de \<Longrightarrow>
   ts r' = mu r' - 3 * sigma r'"
proof -
  assume h: "ts_snap_rows ds de tbl u = Some r'" "ts_judge r' = Some d" "ds \<le> d" "d \<le> de"
  then obtain r where r': "r' = (case ts_judge r of
                   Some d \<Rightarrow> if ds \<le> d \<and> d \<le> de then r\<lparr>ts := mu r - 3 * sigma r\<rparr> else r
                 | None \<Rightarrow> r)"
    by (auto simp: ts_snap_rows_def)
  with h(2-4) show ?thesis by (auto split: option.splits if_splits)
qed

lemma ts_snap_tag_Inr:
  "ts_snap_tag ds de t db = Inr db' \<Longrightarrow>
   \<exists>tbl. db (tra_escape t) = Some tbl \<and> db' = db(tra_escape t \<mapsto> ts_snap_rows ds de tbl)"
  by (auto simp: ts_snap_tag_def Let_def split: option.splits)

text \<open>
  After week \<open>ind\<close>, every user of a listed tag whose judgment date falls in that
  week has the snapshot \<open>ts = mu - 3 sigma\<close> of the ratings the week left, whatever
  the other tags' snapshots did afterwards.
\<close>

lemma ts_window_snapshot:
  assumes run: "ts_window R tf qs ind db = Inr db'" and t: "t \<in> set (tag_values tf)"
    and tb: "db' (tra_escape t) = Some tbl" and r: "tbl u = Some r"
    and d: "ts_judge r = Some d" "day_s ind \<le> d" "d \<le> day_e ind"
  shows "ts r = mu r - 3 * sigma r"
proof -
  let ?ds = "day_s ind" and ?de = "day_e ind" and ?tn = "tra_escape t"
  let ?P = "\<lambda>db. \<forall>tbl u r d. db ?tn = Some tbl \<longrightarrow> tbl u = Some r \<longrightarrow> ts_judge r = Some d \<longrightarrow>
                   ?ds \<le> d \<longrightarrow> d \<le> ?de \<longrightarrow> ts r = mu r - 3 * sigma r"
  obtain db1 where snaps: "fold_err (ts_snap_tag ?ds ?de) (tag_values tf) db1 = Inr db'"
    using run by (auto simp: ts_window_def split: sum.splits)
  obtain ys s1 s2 where "ts_snap_tag ?ds ?de t s1 = Inr s2"
    and rest: "fold_err (ts_snap_tag ?ds ?de) ys s2 = Inr db'"
    using fold_err_mem [OF t snaps] by blast
  then have "?P s2" by (auto dest!: ts_snap_tag_Inr ts_snap_rows_Some)
  moreover have "?P s'" if "?P s" and "ts_snap_tag ?ds ?de t' s = Inr s'" for t' s s'
    using that by (auto dest!: ts_snap_tag_Inr ts_snap_rows_Some split: if_splits)
  ultimately have "?P db'" using fold_err_inv [OF _ _ rest, of ?P] by blast
  with tb r d show ?thesis by blast
qed

lemmas ts_eval_defs = ts_window_def ts_ques_def ts_row_step_def demo_q_def demo_ts_db_def
  tra_escape_def ts_select_def ts_two_player_def ts_multi_def demo_rater_def fresh_def
  tags_query_def ts_snap_tag_def ts_snap_rows_def ts_writeback_def day_s_def day_e_def

lemma demo_window:
  "ts_window demo_rater (tags_query [''c#'']) [demo_q] 0 demo_ts_db =
     Inr (projr (ts_window demo_rater (tags_query [''c#'']) [demo_q] 0 demo_ts_db))"
  by (simp add: ts_eval_defs)

section \<open>Seeding and the first week\<close>

lemma ts_user_rows_distinct: "distinct (map fst (ts_user_rows sc qs t))"
  by (simp add: ts_user_rows_def comp_def)

lemma tra_escape_tag: "tra_escape ''tag'' = ''tag''"
  by (simp add: tra_escape_def)

lemma ts_create_table_Inr:
  "\<exists>st. ts_create_table sc qs (tags_query tgs) \<lparr>tables = Map.empty, indexes = []\<rparr> = Inr st"
proof -
  obtain tbl1 where "fold_err sql_insert (ts_user_rows sc qs ''tag'') Map.empty = Inr tbl1"
    using sql_insert_fresh [OF ts_user_rows_distinct] by fastforce
  then show ?thesis
    by (simp add: ts_create_table_def tags_query_def ts_create_one_def tra_escape_tag Let_def)
qed

lemma ts_create_table_dom:
  "ts_create_table sc qs (tags_query tgs) \<lparr>tables = Map.empty, indexes = []\<rparr> = Inr st \<Longrightarrow>
   dom (tables st) = {''tag''}"
  by (auto simp: ts_create_table_def tags_query_def ts_create_one_def tra_escape_tag Let_def
      split: sum.splits if_splits)

text \<open>
  C25: \<open>create_table\<close> on an empty database succeeds for every
  tag list and creates exactly one table, named \<open>tag\<close>: \<open>for tag in self.tags\<close> iterates
  the DataFrame's column labels, not the tags.
\<close>

theorem ts_create_table_columns:
  "\<exists>st. ts_create_table sc qs (tags_query tgs) \<lparr>tables = Map.empty, indexes = []\<rparr> = Inr st \<and>
        dom (tables st) = {''tag''}"
proof -
  obtain st where "ts_create_table sc qs (tags_query tgs) \<lparr>tables = Map.empty, indexes = []\<rparr> = Inr st"
    using ts_create_table_Inr by blast
  with ts_create_table_dom show ?thesis by blast
qed

text \<open>
  On the database \<open>create_table\<close> leaves, \<open>run\<close> stops at the first
  row of the first week whose tag does not escape to \<open>tag\<close>: with SQLite's syntax error
  when that question has no answerers, with \<open>no such table\<close> otherwise.
\<close>

lemma ts_run_no_table:
  assumes ct: "ts_create_table sc qs0 (tags_query tgs) \<lparr>tables = Map.empty, indexes = []\<rparr> = Inr st"
    and n: "0 < window_count today"
    and first: "ts_ques (day_s 0) (day_e 0) qs = (t, q) # rest"
    and other: "tra_escape t \<noteq> ''tag''"
  shows "ts_run R tf qs today (tables st) =
           Inl (OperationalError (if rank_id q = [] then sql_in_syntax_error else ''no such table: '' @ tra_escape t))"
proof -
  let ?e = "OperationalError (if rank_id q = [] then sql_in_syntax_error else ''no such table: '' @ tra_escape t)"
  have none: "tables st (tra_escape t) = None" using ts_create_table_dom [OF ct] other by auto
  have row: "ts_row_step R (t, q) (tables st) = Inl ?e"
    using none by (simp add: ts_row_step_def)
  have "ts_window R tf qs 0 (tables st) = Inl ?e"
    using row first by (simp add: ts_window_def)
  moreover have "[0..<window_count today] = 0 # [1..<window_count today]"
    using n by (simp add: upt_conv_Cons)
  ultimately show ?thesis by (simp add: ts_run_def)
qed

end
