(* ===== verification/RankDriver.thy ===== *)
theory RankDriver
  imports AuthorityRunner
begin

text \<open>
  The drivers of the PageRank runners: table seeding and the loop over tags.
  \<open>pgrunner.py\<close>: \<open>PGRunner.create_table\<close> seeds one table per tag value of the
  \<open>TAGS\<close> query, named by the escaped tag, and \<open>runall\<close> runs \<open>run(tag)\<close> for each
  tag on one runner, so \<open>self.pager\<close> is carried from tag to tag.
  \<open>pagerank.py\<close>: for each of the ten fixed (already escaped) names a fresh
  \<open>PRRunner\<close> seeds its table and runs the weekly loop with a fresh graph and an
  empty score dict, querying the feed with the unescaped name.
  The database is a map from table names to tables, with the list of index names.
  The lemmas show that \<open>pagerank.py\<close> implements the per-tag specification
  \<open>tag_table\<close>, that seeding is exact and rerunnable, and that \<open>pgrunner.py\<close>'s main
  neither creates nor drops tables or rows beyond what \<open>create_table\<close> seeds.
\<close>

section \<open>The database\<close>

type_synonym pr_db = "string \<rightharpoonup> (uid \<rightharpoonup> pr_row)"

record pr_store =
  pr_tables :: pr_db
  pr_indexes :: "string list"

text \<open>The warehouse table \<open>Score600\<close>: (\<open>owner_user_id\<close>, \<open>tag\<close>, creation day) rows.\<close>

type_synonym score600 = "(uid \<times> tag \<times> day) list"

text \<open>
  \<open>USER\<close> of both PageRank runners: the tag's \<open>Score600\<close> rows with judgment date
  120 days after creation and score 0.
\<close>

definition pg_user_rows :: "score600 \<Rightarrow> tag \<Rightarrow> (uid \<times> pr_row) list" where
  "pg_user_rows sc t = [(u, \<lparr>judge_date = d + 120, pagerank = 0\<rparr>). (u, t', d) \<leftarrow> sc, t' = t]"

text \<open>
  Seeding one table \<open>tn\<close> from the feed of tag \<open>t\<close>: \<open>CREATE TABLE IF NOT EXISTS\<close>,
  \<open>DELETE FROM\<close> (so the rows are inserted into an empty table),
  \<open>DROP INDEX IF EXISTS idx_tn\<close>, \<open>to_sql(..., if_exists='append')\<close>,
  \<open>CREATE INDEX idx_tn\<close>.
\<close>

definition pr_seed :: "score600 \<Rightarrow> tag \<Rightarrow> string \<Rightarrow> pr_store \<Rightarrow> py_error + pr_store" where
  "pr_seed sc t tn st =
     (let ix = ''idx_'' @ tn in
      case fold_err sql_insert (pg_user_rows sc t) Map.empty of
        Inl e \<Rightarrow> Inl e
      | Inr tbl \<Rightarrow> Inr \<lparr>pr_tables = (pr_tables st)(tn \<mapsto> tbl), pr_indexes = ix # removeAll ix (pr_indexes st)\<rparr>)"

text \<open>\<open>PGRunner.create_table\<close>: \<open>for tag in list(tags['tag'])\<close>, table \<open>tra(tag)\<close>.\<close>

definition pg_create_table :: "score600 \<Rightarrow> tag list \<Rightarrow> pr_store \<Rightarrow> py_error + pr_store" where
  "pg_create_table sc tgs st = fold_err (\<lambda>t. pr_seed sc t (tra_escape t)) tgs st"

text \<open>
  \<open>run(tag)\<close> on the database: the loop of \<open>pg_run\<close> on the table \<open>tn\<close>, written back.
  Without the table, the loop fails at the first window's \<open>SELECT\<close>, unless there is no
  window or the first window already fails on the empty graph.
\<close>

definition pg_run_tag :: "tag \<Rightarrow> string \<Rightarrow> qrow list \<Rightarrow> day \<Rightarrow> (uid \<rightharpoonup> score) \<Rightarrow> pr_db \<Rightarrow>
                          py_error + ((uid \<rightharpoonup> score) \<times> pr_db)" where
  "pg_run_tag t tn qs today p db =
     (case db tn of
        None \<Rightarrow>
          (if window_count today = 0 then Inr (p, db)
           else case pr_window t qs 0 \<lparr>graph = empty_graph, pager = p, pr_table = Map.empty\<rparr> of
                  Inl e \<Rightarrow> Inl e
                | Inr _ \<Rightarrow> Inl (OperationalError (''no such table: '' @ tn)))
      | Some tbl \<Rightarrow>
          (case pg_run t qs today p tbl of
             Inl e \<Rightarrow> Inl e
           | Inr st \<Rightarrow> Inr (pager st, db(tn \<mapsto> pr_table st))))"

text \<open>\<open>runall\<close>: \<open>run(tag)\<close> for every tag value, on one runner and one \<open>self.pager\<close>.\<close>

definition pg_runall :: "qrow list \<Rightarrow> day \<Rightarrow> tag list \<Rightarrow> (uid \<rightharpoonup> score) \<times> pr_db \<Rightarrow>
                         py_error + ((uid \<rightharpoonup> score) \<times> pr_db)" where
  "pg_runall qs today tgs s =
     fold_err (\<lambda>t (p, db). pg_run_tag t (tra_escape t) qs today p db) tgs s"

text \<open>
  \<open>TAGS\<close> of \<open>pgrunner.py\<close>: \<open>SELECT DISTINCT tag FROM Score600\<close>, in the order of first
  occurrence (SQL leaves the order open; both queries of one run see the same table).
\<close>

definition pg_tags :: "score600 \<Rightarrow> tag list" where
  "pg_tags sc = remdups (map (\<lambda>(u, t, d). t) sc)"

text \<open>
  \<open>pgrunner.py\<close>'s main: \<open>PGRunner()\<close> (\<open>self.pager = {}\<close>), \<open>create_table\<close> and
  \<open>runall\<close>, each over the tags of its own \<open>TAGS\<close> query.
\<close>

definition pg_main :: "score600 \<Rightarrow> qrow list \<Rightarrow> day \<Rightarrow> pr_store \<Rightarrow> py_error + pr_store" where
  "pg_main sc qs today st =
     (case pg_create_table sc (pg_tags sc) st of
        Inl e \<Rightarrow> Inl e
      | Inr st1 \<Rightarrow>
          (case pg_runall qs today (pg_tags sc) (Map.empty, pr_tables st1) of
             Inl e \<Rightarrow> Inl e
           | Inr (_, db) \<Rightarrow> Inr (st1\<lparr>pr_tables := db\<rparr>)))"

text \<open>\<open>TAGS\<close> of \<open>pagerank.py\<close>: table names, already escaped.\<close>

definition prr_tags :: "string list" where
  "prr_tags = [''javascript'', ''java'', ''python'', ''c_sharp'', ''php'',
               ''android'', ''jquery'', ''c_plus'', ''css'', ''html'']"

text \<open>
  \<open>PRRunner(TAG)\<close> has a fresh graph and an empty \<open>self.pager\<close>; its \<open>create_table\<close>
  seeds table \<open>TAG\<close> from the feed of \<open>tra(TAG)\<close>, its \<open>run\<close> is the weekly loop on
  that table with the feed of \<open>tra(TAG)\<close>. One iteration of the main loop runs both.
\<close>

definition prr_create_table :: "score600 \<Rightarrow> string \<Rightarrow> pr_store \<Rightarrow> py_error + pr_store" where
  "prr_create_table sc tn st = pr_seed sc (tra_unescape tn) tn st"

definition prr_run :: "qrow list \<Rightarrow> day \<Rightarrow> string \<Rightarrow> pr_db \<Rightarrow> py_error + ((uid \<rightharpoonup> score) \<times> pr_db)" where
  "prr_run qs today tn db = pg_run_tag (tra_unescape tn) tn qs today Map.empty db"

definition prr_one :: "score600 \<Rightarrow> qrow list \<Rightarrow> day \<Rightarrow> string \<Rightarrow> pr_store \<Rightarrow> py_error + pr_store" where
  "prr_one sc qs today tn st =
     (case prr_create_table sc tn st of
        Inl e \<Rightarrow> Inl e
      | Inr st1 \<Rightarrow>
          (case prr_run qs today tn (pr_tables st1) of
             Inl e \<Rightarrow> Inl e
           | Inr (_, db) \<Rightarrow> Inr (st1\<lparr>pr_tables := db\<rparr>)))"

definition prr_main :: "score600 \<Rightarrow> qrow list \<Rightarrow> day \<Rightarrow> pr_store \<Rightarrow> py_error + pr_store" where
  "prr_main sc qs today st = fold_err (prr_one sc qs today) prr_tags st"

text \<open>
  The per-tag specification of the spec's section 5: the table of one tag, computed
  from that tag's seed and feed alone.
\<close>

definition tag_table :: "score600 \<Rightarrow> qrow list \<Rightarrow> day \<Rightarrow> tag \<Rightarrow> py_error + (uid \<rightharpoonup> pr_row)" where
  "tag_table sc qs today t =
     (case fold_err sql_insert (pg_user_rows sc t) Map.empty of
        Inl e \<Rightarrow> Inl e
      | Inr tbl \<Rightarrow>
          (case pg_run t qs today Map.empty tbl of
             Inl e \<Rightarrow> Inl e
           | Inr st \<Rightarrow> Inr (pr_table st)))"

section \<open>Lemmas on the drivers\<close>

lemma pr_seed_Inr:
  "pr_seed sc t tn st = Inr st' \<Longrightarrow>
   \<exists>tbl. fold_err sql_insert (pg_user_rows sc t) Map.empty = Inr tbl \<and>
     st' = \<lparr>pr_tables = (pr_tables st)(tn \<mapsto> tbl),
            pr_indexes = (''idx_'' @ tn) # removeAll (''idx_'' @ tn) (pr_indexes st)\<rparr>"
  by (auto simp: pr_seed_def Let_def split: sum.splits)

lemma pg_run_tag_Some:
  "db tn = Some tbl \<Longrightarrow> pg_run_tag t tn qs today p db = Inr (p', db') \<Longrightarrow>
   \<exists>st. pg_run t qs today p tbl = Inr st \<and> p' = pager st \<and> db' = db(tn \<mapsto> pr_table st)"
  by (auto simp: pg_run_tag_def split: sum.splits)

lemma prr_one_table:
  assumes "prr_one sc qs today tn st = Inr st'"
  shows "\<exists>tbl. tag_table sc qs today (tra_unescape tn) = Inr tbl \<and> pr_tables st' tn = Some tbl"
proof -
  obtain st1 p db where seed: "pr_seed sc (tra_unescape tn) tn st = Inr st1"
    and run: "pg_run_tag (tra_unescape tn) tn qs today Map.empty (pr_tables st1) = Inr (p, db)"
    and st': "st' = st1\<lparr>pr_tables := db\<rparr>"
    using assms by (auto simp: prr_one_def prr_create_table_def prr_run_def split: sum.splits)
  obtain tbl0 where ins: "fold_err sql_insert (pg_user_rows sc (tra_unescape tn)) Map.empty = Inr tbl0"
    and st1: "pr_tables st1 = (pr_tables st)(tn \<mapsto> tbl0)"
    using pr_seed_Inr [OF seed] by auto
  obtain rs :: pr_state where "pg_run (tra_unescape tn) qs today Map.empty tbl0 = Inr rs" and "db = (pr_tables st1)(tn \<mapsto> pr_table rs)"
    using pg_run_tag_Some [of "pr_tables st1" tn tbl0, OF _ run] st1 by auto
  with ins st' show ?thesis by (simp add: tag_table_def)
qed

lemma prr_one_other:
  assumes "prr_one sc qs today tn st = Inr st'" and "x \<noteq> tn"
  shows "pr_tables st' x = pr_tables st x"
proof -
  obtain st1 p db where seed: "pr_seed sc (tra_unescape tn) tn st = Inr st1"
    and run: "pg_run_tag (tra_unescape tn) tn qs today Map.empty (pr_tables st1) = Inr (p, db)"
    and st': "st' = st1\<lparr>pr_tables := db\<rparr>"
    using assms(1) by (auto simp: prr_one_def prr_create_table_def prr_run_def split: sum.splits)
  obtain tbl0 where st1: "pr_tables st1 = (pr_tables st)(tn \<mapsto> tbl0)"
    using pr_seed_Inr [OF seed] by auto
  obtain rs :: pr_state where "db = (pr_tables st1)(tn \<mapsto> pr_table rs)"
    using pg_run_tag_Some [of "pr_tables st1" tn tbl0, OF _ run] st1 by auto
  with st' st1 assms(2) show ?thesis by simp
qed

lemma prr_tags_distinct: "distinct prr_tags"
  by (simp add: prr_tags_def)

lemma pr_seed_tables:
  "pr_seed sc t tn st = Inr st' \<Longrightarrow> pr_tables st' = (pr_tables st)(tn \<mapsto> map_of (pg_user_rows sc t))"
  by (auto dest!: pr_seed_Inr sql_insert_fold)

lemma pr_seed_indexes:
  "pr_seed sc t tn st = Inr st' \<Longrightarrow> set (pr_indexes st') = insert (''idx_'' @ tn) (set (pr_indexes st))"
  by (auto dest!: pr_seed_Inr)

lemma pr_seed_ok:
  "pr_seed sc t tn st = Inr st' \<Longrightarrow> \<exists>s0'. pr_seed sc t tn s0 = Inr s0'"
  by (auto simp: pr_seed_def Let_def split: sum.splits)

lemma pg_create_table_frame:
  "pg_create_table sc tgs st = Inr st' \<Longrightarrow> x \<notin> tra_escape ` set tgs \<Longrightarrow> pr_tables st' x = pr_tables st x"
  unfolding pg_create_table_def
  by (induction tgs arbitrary: st) (auto simp: pr_seed_tables split: sum.splits)

lemma pg_create_table_indexes:
  "pg_create_table sc tgs st = Inr st' \<Longrightarrow>
   set (pr_indexes st') = set (pr_indexes st) \<union> (\<lambda>t. ''idx_'' @ tra_escape t) ` set tgs"
  unfolding pg_create_table_def
  by (induction tgs arbitrary: st) (auto simp: pr_seed_indexes split: sum.splits)

lemma pg_create_table_dom:
  "pg_create_table sc tgs st = Inr st' \<Longrightarrow> dom (pr_tables st') = dom (pr_tables st) \<union> tra_escape ` set tgs"
  unfolding pg_create_table_def
  by (induction tgs arbitrary: st) (auto simp: pr_seed_tables split: sum.splits)

text \<open>\<open>run(tag)\<close> on the database keeps every table and its users.\<close>

lemma pg_run_tag_rows:
  assumes "pg_run_tag t tn qs today p db = Inr (p', db')"
  shows "dom db' = dom db \<and> (\<forall>x tbl. db x = Some tbl \<longrightarrow> (\<exists>tbl'. db' x = Some tbl' \<and> dom tbl' = dom tbl))"
proof (cases "db tn")
  case None
  with assms have "db' = db" by (auto simp: pg_run_tag_def split: if_splits sum.splits)
  then show ?thesis by simp
next
  case (Some tb)
  obtain st where run: "pg_run t qs today p tb = Inr st" and db': "db' = db(tn \<mapsto> pr_table st)"
    using pg_run_tag_Some [OF Some assms] by blast
  have "dom (pr_table st) = dom tb" using pr_windows_rows [OF run [unfolded pg_run_def]] by simp
  with db' Some show ?thesis by auto
qed

lemma pg_runall_rows:
  assumes "pg_runall qs today tgs (p, db) = Inr (p', db')"
  shows "dom db' = dom db \<and> (\<forall>x tbl. db x = Some tbl \<longrightarrow> (\<exists>tbl'. db' x = Some tbl' \<and> dom tbl' = dom tbl))"
proof -
  define P where "P = (\<lambda>s :: (uid \<rightharpoonup> score) \<times> pr_db. dom (snd s) = dom db \<and>
              (\<forall>x tbl. db x = Some tbl \<longrightarrow> (\<exists>tbl'. snd s x = Some tbl' \<and> dom tbl' = dom tbl)))"
  have step: "P s'" if "P s" and "(case s of (q, d) \<Rightarrow> pg_run_tag t (tra_escape t) qs today q d) = Inr s'" for t s s'
  proof -
    obtain q d where s: "s = (q, d)" by fastforce
    obtain q' d' where s': "s' = (q', d')" by fastforce
    from that(2) s s' have "pg_run_tag t (tra_escape t) qs today q d = Inr (q', d')" by simp
    note r = pg_run_tag_rows [OF this]
    from that(1) s have d: "dom d = dom db" and k: "\<forall>x tbl. db x = Some tbl \<longrightarrow> (\<exists>tbl'. d x = Some tbl' \<and> dom tbl' = dom tbl)"
      by (simp_all add: P_def)
    have "\<forall>x tbl. db x = Some tbl \<longrightarrow> (\<exists>tbl'. d' x = Some tbl' \<and> dom tbl' = dom tbl)"
    proof (intro allI impI)
      fix x tbl assume "db x = Some tbl"
      with k obtain tb1 where "d x = Some tb1" "dom tb1 = dom tbl" by blast
      with r show "\<exists>tbl'. d' x = Some tbl' \<and> dom tbl' = dom tbl" by metis
    qed
    with r d s' show ?thesis by (simp add: P_def)
  qed
  have "P (p, db)" by (simp add: P_def)
  with step have "P (p', db')" using fold_err_inv [OF _ _ assms [unfolded pg_runall_def], of P] by blast
  then show ?thesis by (simp add: P_def)
qed
text \<open>The outcome on the seeded names does not depend on the database seeded.\<close>

lemma pg_create_table_any:
  "pg_create_table sc tgs st = Inr st' \<Longrightarrow>
   \<exists>s0'. pg_create_table sc tgs s0 = Inr s0' \<and>
         (\<forall>x \<in> tra_escape ` set tgs. pr_tables s0' x = pr_tables st' x)"
proof (induction tgs arbitrary: st s0)
  case Nil
  then show ?case by (simp add: pg_create_table_def)
next
  case (Cons t tgs)
  from Cons.prems obtain st1 where seed: "pr_seed sc t (tra_escape t) st = Inr st1"
    and rest: "pg_create_table sc tgs st1 = Inr st'"
    by (auto simp: pg_create_table_def split: sum.splits)
  obtain s01 where seed0: "pr_seed sc t (tra_escape t) s0 = Inr s01"
    using pr_seed_ok [OF seed] by blast
  obtain s0' where rest0: "pg_create_table sc tgs s01 = Inr s0'"
    and same: "\<forall>x \<in> tra_escape ` set tgs. pr_tables s0' x = pr_tables st' x"
    using Cons.IH [OF rest] by blast
  have "pr_tables s0' (tra_escape t) = pr_tables st' (tra_escape t)"
  proof (cases "tra_escape t \<in> tra_escape ` set tgs")
    case True
    with same show ?thesis by blast
  next
    case False
    then show ?thesis
      using pg_create_table_frame [OF rest False] pg_create_table_frame [OF rest0 False]
        pr_seed_tables [OF seed] pr_seed_tables [OF seed0] by simp
  qed
  with same seed0 rest0 show ?case by (auto simp: pg_create_table_def)
qed

section \<open>Properties of the drivers\<close>

text \<open>C12: \<open>pgrunner.py\<close>'s main leaves exactly the tables the database had
  plus one per escaped tag of \<open>Score600\<close>, with the indexes \<open>create_table\<close> made; the
  weekly runs neither create nor drop a table, and every table keeps the users it was
  seeded with.\<close>

theorem pg_main_tables:
  assumes "pg_main sc qs today st = Inr st'"
  shows "\<exists>st1. pg_create_table sc (pg_tags sc) st = Inr st1 \<and>
           dom (pr_tables st') = dom (pr_tables st) \<union> tra_escape ` set (pg_tags sc) \<and>
           pr_indexes st' = pr_indexes st1 \<and>
           (\<forall>tn tbl. pr_tables st1 tn = Some tbl \<longrightarrow> (\<exists>tbl'. pr_tables st' tn = Some tbl' \<and> dom tbl' = dom tbl))"
proof -
  obtain st1 p db where ct: "pg_create_table sc (pg_tags sc) st = Inr st1"
    and ra: "pg_runall qs today (pg_tags sc) (Map.empty, pr_tables st1) = Inr (p, db)"
    and st': "st' = st1\<lparr>pr_tables := db\<rparr>"
    using assms by (auto simp: pg_main_def split: sum.splits)
  from pg_runall_rows [OF ra] pg_create_table_dom [OF ct] ct st' show ?thesis by auto
qed

lemma pg_main_tables_witness:
  "pg_main [(7, ''java'', oriday)] [] oriday \<lparr>pr_tables = Map.empty, pr_indexes = []\<rparr> =
     Inr (projr (pg_main [(7, ''java'', oriday)] [] oriday \<lparr>pr_tables = Map.empty, pr_indexes = []\<rparr>)) \<and>
   dom (pr_tables (projr (pg_main [(7, ''java'', oriday)] [] oriday \<lparr>pr_tables = Map.empty, pr_indexes = []\<rparr>))) =
     {''java''}"
proof -
  have tags: "pg_tags [(7, ''java'', oriday)] = [''java'']" by (simp add: pg_tags_def)
  have esc: "tra_escape ''java'' = ''java''" by (simp add: tra_escape_def)
  have n: "window_count oriday = 0" by (simp add: window_count_def py_trunc_div_def)
  have run: "pg_main [(7, ''java'', oriday)] [] oriday \<lparr>pr_tables = Map.empty, pr_indexes = []\<rparr> =
     Inr (projr (pg_main [(7, ''java'', oriday)] [] oriday \<lparr>pr_tables = Map.empty, pr_indexes = []\<rparr>))"
    unfolding pg_main_def tags
    by (simp add: esc n pg_create_table_def pr_seed_def pg_user_rows_def sql_insert_def
        pg_runall_def pg_run_tag_def pg_run_def Let_def)
  from pg_main_tables [OF run] tags esc run show ?thesis by auto
qed

text \<open>
  C9: \<open>pagerank.py\<close> keeps the tags independent, as the spec's
  section 5 requires: after its main loop, the table of each of its tags is the one
  computed from that tag's own seed rows and feed alone (\<open>tag_table\<close>), whatever the
  other tags and the database held before.
\<close>

theorem prr_main_tag_table:
  assumes main: "prr_main sc qs today st = Inr st'" and tn: "tn \<in> set prr_tags"
  shows "\<exists>tbl. tag_table sc qs today (tra_unescape tn) = Inr tbl \<and> pr_tables st' tn = Some tbl"
proof -
  obtain as bs where split: "prr_tags = as @ tn # bs" using split_list [OF tn] by blast
  have notin: "tn \<notin> set bs"
    using prr_tags_distinct split by (metis distinct.simps(2) distinct_append)
  have "fold_err (prr_one sc qs today) (as @ tn # bs) st = Inr st'"
    using main unfolding prr_main_def split .
  then obtain s1 s2 where one: "prr_one sc qs today tn s1 = Inr s2"
    and rest: "fold_err (prr_one sc qs today) bs s2 = Inr st'"
    by (auto simp: fold_err_append split: sum.splits)
  obtain tbl where tbl: "tag_table sc qs today (tra_unescape tn) = Inr tbl" and "pr_tables s2 tn = Some tbl"
    using prr_one_table [OF one] by blast
  moreover have "pr_tables s tn = Some tbl \<Longrightarrow> prr_one sc qs today x s = Inr s' \<Longrightarrow> x \<in> set bs \<Longrightarrow>
                 pr_tables s' tn = Some tbl" for x s s'
    using prr_one_other [of sc qs today x s s' tn] notin by auto
  ultimately have "pr_tables st' tn = Some tbl"
    using fold_err_inv [OF _ _ rest, of "\<lambda>s. pr_tables s tn = Some tbl"] by blast
  with tbl show ?thesis by blast
qed

lemma prr_main_tag_table_witness:
  "prr_main [(7, ''c#'', oriday)] [] oriday \<lparr>pr_tables = Map.empty, pr_indexes = []\<rparr> =
     Inr (projr (prr_main [(7, ''c#'', oriday)] [] oriday \<lparr>pr_tables = Map.empty, pr_indexes = []\<rparr>)) \<and>
   ''c_sharp'' \<in> set prr_tags \<and>
   (\<exists>tbl. tag_table [(7, ''c#'', oriday)] [] oriday (tra_unescape ''c_sharp'') = Inr tbl \<and>
      pr_tables (projr (prr_main [(7, ''c#'', oriday)] [] oriday \<lparr>pr_tables = Map.empty, pr_indexes = []\<rparr>)) ''c_sharp'' = Some tbl)"
proof -
  have h: "prr_main [(7, ''c#'', oriday)] [] oriday \<lparr>pr_tables = Map.empty, pr_indexes = []\<rparr> =
     Inr (projr (prr_main [(7, ''c#'', oriday)] [] oriday \<lparr>pr_tables = Map.empty, pr_indexes = []\<rparr>))"
    "''c_sharp'' \<in> set prr_tags"
    by (simp_all add: prr_main_def prr_tags_def prr_one_def prr_create_table_def prr_run_def pr_seed_def pg_user_rows_def sql_insert_def
        pg_run_tag_def pg_run_def window_count_def py_trunc_div_def tra_unescape_def Let_def)
  from prr_main_tag_table [OF h] h show ?thesis by blast
qed

text \<open>
  C23: after \<open>PGRunner.create_table\<close>, the table of a tag is
  exactly its \<open>USER\<close> rows (judgment date 120 days after the \<open>Score600\<close> date, score
  0) and its index exists, provided no other tag of the list escapes to the same table
  name; otherwise the later tag's \<open>DELETE FROM\<close> replaces the rows.
\<close>

theorem pg_create_table_seeds:
  assumes ct: "pg_create_table sc tgs st = Inr st'" and t: "t \<in> set tgs"
    and uniq: "\<forall>t' \<in> set tgs. tra_escape t' = tra_escape t \<longrightarrow> t' = t"
  shows "pr_tables st' (tra_escape t) = Some (map_of (pg_user_rows sc t)) \<and>
         ''idx_'' @ tra_escape t \<in> set (pr_indexes st')"
proof -
  let ?tn = "tra_escape t" and ?f = "\<lambda>t. pr_seed sc t (tra_escape t)"
  obtain as bs where split: "tgs = as @ t # bs" using split_list [OF t] by blast
  have "fold_err ?f (as @ t # bs) st = Inr st'" using ct unfolding pg_create_table_def split .
  then obtain s1 s2 where one: "?f t s1 = Inr s2" and rest: "fold_err ?f bs s2 = Inr st'"
    by (auto simp: fold_err_append split: sum.splits)
  have "pr_tables s2 ?tn = Some (map_of (pg_user_rows sc t))"
    using pr_seed_tables [OF one] by simp
  moreover have "pr_tables s ?tn = Some (map_of (pg_user_rows sc t)) \<Longrightarrow> ?f x s = Inr s' \<Longrightarrow>
                 x \<in> set bs \<Longrightarrow> pr_tables s' ?tn = Some (map_of (pg_user_rows sc t))" for x s s'
    using uniq split pr_seed_tables [of sc x "tra_escape x" s s'] by auto
  ultimately have "pr_tables st' ?tn = Some (map_of (pg_user_rows sc t))"
    using fold_err_inv [OF _ _ rest, of "\<lambda>s. pr_tables s ?tn = Some (map_of (pg_user_rows sc t))"]
    by blast
  moreover have "''idx_'' @ ?tn \<in> set (pr_indexes st')"
    using pg_create_table_indexes [OF ct] t by blast
  ultimately show ?thesis by blast
qed

lemma pg_create_table_seeds_witness:
  "pg_create_table [(7, ''c#'', oriday)] [''c#'', ''java''] \<lparr>pr_tables = Map.empty, pr_indexes = []\<rparr> =
     Inr (projr (pg_create_table [(7, ''c#'', oriday)] [''c#'', ''java''] \<lparr>pr_tables = Map.empty, pr_indexes = []\<rparr>)) \<and>
   ''c#'' \<in> set [''c#'', ''java''] \<and> tra_escape ''java'' \<noteq> tra_escape ''c#'' \<and>
   pr_tables (projr (pg_create_table [(7, ''c#'', oriday)] [''c#'', ''java''] \<lparr>pr_tables = Map.empty, pr_indexes = []\<rparr>))
     (tra_escape ''c#'') = Some [7 \<mapsto> \<lparr>judge_date = oriday + 120, pagerank = 0\<rparr>]"
proof -
  have ct: "pg_create_table [(7, ''c#'', oriday)] [''c#'', ''java''] \<lparr>pr_tables = Map.empty, pr_indexes = []\<rparr> =
     Inr (projr (pg_create_table [(7, ''c#'', oriday)] [''c#'', ''java''] \<lparr>pr_tables = Map.empty, pr_indexes = []\<rparr>))"
    by (simp add: pg_create_table_def pr_seed_def pg_user_rows_def sql_insert_def Let_def)
  have ne: "tra_escape ''java'' \<noteq> tra_escape ''c#''" by (simp add: tra_escape_def)
  have "\<forall>t' \<in> set [''c#'', ''java'']. tra_escape t' = tra_escape ''c#'' \<longrightarrow> t' = ''c#''"
    using ne by auto
  from pg_create_table_seeds [OF ct _ this] ct ne show ?thesis
    by (simp add: pg_user_rows_def)
qed

text \<open>
  C24: \<open>PGRunner.create_table\<close> can be rerun: on the database it
  produced it succeeds again and leaves the same tables and indexes (\<open>DELETE FROM\<close> and
  \<open>DROP INDEX IF EXISTS\<close> undo the previous seeding), unlike the TrueSkill runner's.
\<close>

theorem pg_create_table_idem:
  assumes ct: "pg_create_table sc tgs st = Inr st'"
  shows "\<exists>st''. pg_create_table sc tgs st' = Inr st'' \<and> pr_tables st'' = pr_tables st' \<and>
                set (pr_indexes st'') = set (pr_indexes st')"
proof -
  obtain st'' where ct2: "pg_create_table sc tgs st' = Inr st''"
    and same: "\<forall>x \<in> tra_escape ` set tgs. pr_tables st'' x = pr_tables st' x"
    using pg_create_table_any [OF ct] by blast
  have "pr_tables st'' x = pr_tables st' x" for x
    using same pg_create_table_frame [OF ct2, of x] by (cases "x \<in> tra_escape ` set tgs") auto
  moreover have "set (pr_indexes st'') = set (pr_indexes st')"
    using pg_create_table_indexes [OF ct2] pg_create_table_indexes [OF ct] by auto
  ultimately show ?thesis using ct2 by blast
qed

lemma pg_create_table_idem_witness:
  "pg_create_table [(7, ''c#'', oriday)] [''c#''] \<lparr>pr_tables = Map.empty, pr_indexes = []\<rparr> =
     Inr (projr (pg_create_table [(7, ''c#'', oriday)] [''c#''] \<lparr>pr_tables = Map.empty, pr_indexes = []\<rparr>)) \<and>
   (\<exists>st''. pg_create_table [(7, ''c#'', oriday)] [''c#'']
             (projr (pg_create_table [(7, ''c#'', oriday)] [''c#''] \<lparr>pr_tables = Map.empty, pr_indexes = []\<rparr>)) = Inr st'' \<and>
           pr_tables st'' = pr_tables (projr (pg_create_table [(7, ''c#'', oriday)] [''c#''] \<lparr>pr_tables = Map.empty, pr_indexes = []\<rparr>)))"
proof -
  have ct: "pg_create_table [(7, ''c#'', oriday)] [''c#''] \<lparr>pr_tables = Map.empty, pr_indexes = []\<rparr> =
     Inr (projr (pg_create_table [(7, ''c#'', oriday)] [''c#''] \<lparr>pr_tables = Map.empty, pr_indexes = []\<rparr>))"
    by (simp add: pg_create_table_def pr_seed_def pg_user_rows_def sql_insert_def Let_def)
  from pg_create_table_idem [OF ct] ct show ?thesis by blast
qed

end
