(* ===== verification/Dataset.thy ===== *)
theory Dataset
  imports SkillLedger RankDriver
begin

text \<open>
  \<open>DatasetGenerator.dataset_gen\<close> of \<open>dataset.py\<close>: for each of its ten (escaped) tag
  names, the feature rows that \<open>Script/Dataset.sql\<close> computes for the tag (outside the
  repository, an input here, opaque features of type \<open>'f\<close> by user id) are left-joined
  with the tag's PageRank snapshot (\<open>SQQUERY_PGR\<close>) and with its TrueSkill snapshot of
  the judged users (\<open>SQQUERY_TS\<close>), missing values are filled with 0.0, and the result
  is written to a new table of \<open>Data/StackExpert.sqlite\<close> (\<open>CREATE TABLE\<close>, no
  \<open>IF NOT EXISTS\<close>). A query on a missing table raises pandas' \<open>DatabaseError\<close>.
  The lemmas give the values a completed run writes and that a second run on its output
  fails; the root theory shows that the pipeline cannot run on the TrueSkill database
  that \<open>TrueSkillRunner.create_table\<close> leaves.
\<close>

section \<open>Definitions\<close>

text \<open>A row of a dataset table: the features, \<open>VAL_U_PGR\<close>, \<open>VAL_U_TRS\<close>.\<close>

record 'f ds_row =
  ds_feat :: 'f
  val_pgr :: rat
  val_trs :: rat

type_synonym 'f ds_db = "string \<rightharpoonup> (uid \<rightharpoonup> 'f ds_row)"

definition ds_tags :: "string list" where
  "ds_tags = [''css'', ''javascript'', ''java'', ''python'', ''c_sharp'', ''php'',
              ''android'', ''c_plus'', ''html'', ''jquery'']"

text \<open>\<open>SQQUERY_PGR\<close>: \<open>SELECT user_id id, pagerank VAL_U_PGR FROM tag\<close>.\<close>

definition sq_pgr :: "pr_db \<Rightarrow> string \<Rightarrow> py_error + (uid \<rightharpoonup> rat)" where
  "sq_pgr db t =
     (case db t of
        None \<Rightarrow> Inl (DatabaseError (''no such table: '' @ t))
      | Some tbl \<Rightarrow> Inr (\<lambda>u. map_option pagerank (tbl u)))"

text \<open>\<open>SQQUERY_TS\<close>: \<open>SELECT user_id id, ts VAL_U_TRS FROM tag WHERE judge_date IS NOT NULL\<close>.\<close>

definition sq_ts :: "ts_db \<Rightarrow> string \<Rightarrow> py_error + (uid \<rightharpoonup> rat)" where
  "sq_ts db t =
     (case db t of
        None \<Rightarrow> Inl (DatabaseError (''no such table: '' @ t))
      | Some tbl \<Rightarrow>
          Inr (\<lambda>u. case tbl u of
                     None \<Rightarrow> None
                   | Some r \<Rightarrow> (case ts_judge r of None \<Rightarrow> None | Some _ \<Rightarrow> Some (ts r))))"

text \<open>\<open>features.join(...)\<close> twice (a left join on the feature index), then \<open>fillna(0.0)\<close>.\<close>

definition ds_join :: "(uid \<rightharpoonup> 'f) \<Rightarrow> (uid \<rightharpoonup> rat) \<Rightarrow> (uid \<rightharpoonup> rat) \<Rightarrow> (uid \<rightharpoonup> 'f ds_row)" where
  "ds_join fs pg tr =
     (\<lambda>u. map_option
            (\<lambda>f. \<lparr>ds_feat = f, val_pgr = (case pg u of Some v \<Rightarrow> v | None \<Rightarrow> 0),
                  val_trs = (case tr u of Some v \<Rightarrow> v | None \<Rightarrow> 0)\<rparr>)
            (fs u))"

text \<open>The body of \<open>for tag in tqdm(self.tags)\<close>.\<close>

definition ds_one :: "(string \<Rightarrow> (uid \<rightharpoonup> 'f)) \<Rightarrow> pr_db \<Rightarrow> ts_db \<Rightarrow> string \<Rightarrow> 'f ds_db \<Rightarrow> py_error + 'f ds_db" where
  "ds_one feats pgr trs t db =
     (case sq_pgr pgr t of
        Inl e \<Rightarrow> Inl e
      | Inr pg \<Rightarrow>
          (case sq_ts trs t of
             Inl e \<Rightarrow> Inl e
           | Inr tr \<Rightarrow>
               if db t \<noteq> None then Inl (OperationalError (''table '' @ t @ '' already exists''))
               else Inr (db(t \<mapsto> ds_join (feats t) pg tr))))"

definition ds_gen :: "(string \<Rightarrow> (uid \<rightharpoonup> 'f)) \<Rightarrow> pr_db \<Rightarrow> ts_db \<Rightarrow> 'f ds_db \<Rightarrow> py_error + 'f ds_db" where
  "ds_gen feats pgr trs db = fold_err (ds_one feats pgr trs) ds_tags db"

section \<open>Lemmas\<close>

lemma ds_one_Inr:
  "ds_one feats pgr trs t db = Inr db' \<Longrightarrow>
   \<exists>pt tt. pgr t = Some pt \<and> trs t = Some tt \<and>
     db' = db(t \<mapsto> ds_join (feats t) (projr (sq_pgr pgr t)) (projr (sq_ts trs t)))"
  by (auto simp: ds_one_def sq_pgr_def sq_ts_def split: option.splits sum.splits if_splits)

lemma ds_one_other: "ds_one feats pgr trs t db = Inr db' \<Longrightarrow> x \<noteq> t \<Longrightarrow> db' x = db x"
  by (auto dest: ds_one_Inr)

lemma ds_join_row:
  assumes "pgr t = Some pt" and "trs t = Some tt"
    and "ds_join fs (projr (sq_pgr pgr t)) (projr (sq_ts trs t)) u = Some r"
  shows "val_pgr r = (case pt u of Some p \<Rightarrow> pagerank p | None \<Rightarrow> 0) \<and>
         val_trs r = (case tt u of Some x \<Rightarrow> (case ts_judge x of Some _ \<Rightarrow> ts x | None \<Rightarrow> 0) | None \<Rightarrow> 0)"
  using assms by (auto simp: ds_join_def sq_pgr_def sq_ts_def split: option.splits)

lemma ds_tags_distinct: "distinct ds_tags"
  by (simp add: ds_tags_def)

lemma ds_tags_Cons: "ds_tags = ''css'' # tl ds_tags"
  by (simp add: ds_tags_def)

lemma ds_one_keeps: "ds_one feats pgr trs t db = Inr db' \<Longrightarrow> db x \<noteq> None \<Longrightarrow> db' x \<noteq> None"
  by (auto dest: ds_one_Inr)

section \<open>Properties\<close>

text \<open>
  C22: a completed \<open>dataset_gen\<close> writes, for each of its tags, one row
  per feature row, whose \<open>VAL_U_PGR\<close> is the user's PageRank snapshot and whose
  \<open>VAL_U_TRS\<close> is the user's TrueSkill snapshot if the user has a judgment date, 0.0
  otherwise (and 0.0 for a user missing from the tag's table).
\<close>

theorem ds_gen_values:
  assumes run: "ds_gen feats pgr trs db = Inr db'" and t: "t \<in> set ds_tags"
  shows "\<exists>pt tt tbl. pgr t = Some pt \<and> trs t = Some tt \<and> db' t = Some tbl \<and> dom tbl = dom (feats t) \<and>
           (\<forall>u r. tbl u = Some r \<longrightarrow>
              val_pgr r = (case pt u of Some p \<Rightarrow> pagerank p | None \<Rightarrow> 0) \<and>
              val_trs r = (case tt u of Some x \<Rightarrow> (case ts_judge x of Some _ \<Rightarrow> ts x | None \<Rightarrow> 0) | None \<Rightarrow> 0))"
proof -
  let ?tbl = "ds_join (feats t) (projr (sq_pgr pgr t)) (projr (sq_ts trs t))"
  obtain as bs where split: "ds_tags = as @ t # bs" using split_list [OF t] by blast
  have notin: "t \<notin> set bs"
    using ds_tags_distinct split by (metis distinct.simps(2) distinct_append)
  have "fold_err (ds_one feats pgr trs) (as @ t # bs) db = Inr db'"
    using run unfolding ds_gen_def split .
  then obtain s1 s2 where one: "ds_one feats pgr trs t s1 = Inr s2"
    and rest: "fold_err (ds_one feats pgr trs) bs s2 = Inr db'"
    by (auto simp: fold_err_append split: sum.splits)
  obtain pt tt where pt: "pgr t = Some pt" and tt: "trs t = Some tt" and s2: "s2 t = Some ?tbl"
    using ds_one_Inr [OF one] by auto
  have "s t = Some ?tbl \<Longrightarrow> ds_one feats pgr trs x s = Inr s' \<Longrightarrow> x \<in> set bs \<Longrightarrow> s' t = Some ?tbl"
    for x s s'
    using ds_one_other [of feats pgr trs x s s' t] notin by auto
  with s2 have "db' t = Some ?tbl"
    using fold_err_inv [OF _ _ rest, of "\<lambda>s. s t = Some ?tbl"] by blast
  moreover have "dom ?tbl = dom (feats t)" by (auto simp: ds_join_def)
  ultimately show ?thesis using pt tt ds_join_row [where pgr = pgr and trs = trs and t = t, OF pt tt] by blast
qed

lemma ds_gen_values_witness:
  "ds_gen (\<lambda>_. [7 \<mapsto> ()]) (\<lambda>t. Some [7 \<mapsto> \<lparr>judge_date = oriday, pagerank = 2\<rparr>])
          (\<lambda>t. Some [7 \<mapsto> \<lparr>ts_judge = None, ts = 0, mu = 25, sigma = 25 / 3\<rparr>]) Map.empty =
     Inr (projr (ds_gen (\<lambda>_. [7 \<mapsto> ()]) (\<lambda>t. Some [7 \<mapsto> \<lparr>judge_date = oriday, pagerank = 2\<rparr>])
          (\<lambda>t. Some [7 \<mapsto> \<lparr>ts_judge = None, ts = 0, mu = 25, sigma = 25 / 3\<rparr>]) Map.empty)) \<and>
   ''css'' \<in> set ds_tags \<and>
   (\<exists>pt tt tbl. Some [7 \<mapsto> \<lparr>judge_date = oriday, pagerank = 2\<rparr>] = Some pt \<and>
      Some [7 \<mapsto> \<lparr>ts_judge = None, ts = 0, mu = 25, sigma = 25 / 3\<rparr>] = Some tt \<and>
      projr (ds_gen (\<lambda>_. [7 \<mapsto> ()]) (\<lambda>t. Some [7 \<mapsto> \<lparr>judge_date = oriday, pagerank = 2\<rparr>])
          (\<lambda>t. Some [7 \<mapsto> \<lparr>ts_judge = None, ts = 0, mu = 25, sigma = 25 / 3\<rparr>]) Map.empty) ''css'' = Some tbl \<and>
      dom tbl = {7})"
proof -
  have run: "ds_gen (\<lambda>_. [7 \<mapsto> ()]) (\<lambda>t. Some [7 \<mapsto> \<lparr>judge_date = oriday, pagerank = 2\<rparr>])
          (\<lambda>t. Some [7 \<mapsto> \<lparr>ts_judge = None, ts = 0, mu = 25, sigma = 25 / 3\<rparr>]) Map.empty =
     Inr (projr (ds_gen (\<lambda>_. [7 \<mapsto> ()]) (\<lambda>t. Some [7 \<mapsto> \<lparr>judge_date = oriday, pagerank = 2\<rparr>])
          (\<lambda>t. Some [7 \<mapsto> \<lparr>ts_judge = None, ts = 0, mu = 25, sigma = 25 / 3\<rparr>]) Map.empty))"
    by (simp add: ds_gen_def ds_tags_def ds_one_def sq_pgr_def sq_ts_def)
  have t: "''css'' \<in> set ds_tags" by (simp add: ds_tags_def)
  from ds_gen_values [OF run t] run t show ?thesis by auto
qed

text \<open>C21: \<open>dataset_gen\<close> cannot be rerun on the database it produced:
  \<open>CREATE TABLE\<close> has no \<open>IF NOT EXISTS\<close>, so the second run stops at its first tag with
  \<open>table css already exists\<close>, although the snapshots it reads are still there.\<close>

theorem ds_gen_rerun:
  assumes run: "ds_gen feats pgr trs db = Inr db'"
  shows "ds_gen feats pgr trs db' = Inl (OperationalError ''table css already exists'')"
proof -
  have "fold_err (ds_one feats pgr trs) (''css'' # tl ds_tags) db = Inr db'"
    using run unfolding ds_gen_def by (simp only: ds_tags_Cons [symmetric])
  then obtain s1 where one: "ds_one feats pgr trs ''css'' db = Inr s1"
    and rest: "fold_err (ds_one feats pgr trs) (tl ds_tags) s1 = Inr db'"
    by (auto split: sum.splits)
  obtain pt tt where pt: "pgr ''css'' = Some pt" and tt: "trs ''css'' = Some tt" and s1: "s1 ''css'' \<noteq> None"
    using ds_one_Inr [OF one] by auto
  have "db' ''css'' \<noteq> None"
    using fold_err_inv [OF _ _ rest, of "\<lambda>s. s ''css'' \<noteq> None"] s1 ds_one_keeps by blast
  then have "ds_one feats pgr trs ''css'' db' = Inl (OperationalError ''table css already exists'')"
    using pt tt by (simp add: ds_one_def sq_pgr_def sq_ts_def)
  then have "fold_err (ds_one feats pgr trs) (''css'' # tl ds_tags) db' = Inl (OperationalError ''table css already exists'')"
    by (rule fold_err_Cons_Inl)
  then show ?thesis by (simp only: ds_gen_def ds_tags_Cons [symmetric])
qed

lemma ds_gen_rerun_witness:
  "ds_gen (\<lambda>_. [7 \<mapsto> ()]) (\<lambda>t. Some [7 \<mapsto> \<lparr>judge_date = oriday, pagerank = 2\<rparr>])
          (\<lambda>t. Some [7 \<mapsto> \<lparr>ts_judge = None, ts = 0, mu = 25, sigma = 25 / 3\<rparr>]) Map.empty =
     Inr (projr (ds_gen (\<lambda>_. [7 \<mapsto> ()]) (\<lambda>t. Some [7 \<mapsto> \<lparr>judge_date = oriday, pagerank = 2\<rparr>])
          (\<lambda>t. Some [7 \<mapsto> \<lparr>ts_judge = None, ts = 0, mu = 25, sigma = 25 / 3\<rparr>]) Map.empty)) \<and>
   ds_gen (\<lambda>_. [7 \<mapsto> ()]) (\<lambda>t. Some [7 \<mapsto> \<lparr>judge_date = oriday, pagerank = 2\<rparr>])
          (\<lambda>t. Some [7 \<mapsto> \<lparr>ts_judge = None, ts = 0, mu = 25, sigma = 25 / 3\<rparr>])
     (projr (ds_gen (\<lambda>_. [7 \<mapsto> ()]) (\<lambda>t. Some [7 \<mapsto> \<lparr>judge_date = oriday, pagerank = 2\<rparr>])
          (\<lambda>t. Some [7 \<mapsto> \<lparr>ts_judge = None, ts = 0, mu = 25, sigma = 25 / 3\<rparr>]) Map.empty)) =
     Inl (OperationalError ''table css already exists'')"
proof -
  have run: "ds_gen (\<lambda>_. [7 \<mapsto> ()]) (\<lambda>t. Some [7 \<mapsto> \<lparr>judge_date = oriday, pagerank = 2\<rparr>])
          (\<lambda>t. Some [7 \<mapsto> \<lparr>ts_judge = None, ts = 0, mu = 25, sigma = 25 / 3\<rparr>]) Map.empty =
     Inr (projr (ds_gen (\<lambda>_. [7 \<mapsto> ()]) (\<lambda>t. Some [7 \<mapsto> \<lparr>judge_date = oriday, pagerank = 2\<rparr>])
          (\<lambda>t. Some [7 \<mapsto> \<lparr>ts_judge = None, ts = 0, mu = 25, sigma = 25 / 3\<rparr>]) Map.empty))"
    by (simp add: ds_gen_def ds_tags_def ds_one_def sq_pgr_def sq_ts_def)
  from ds_gen_rerun [OF run] run show ?thesis by simp
qed

end
