(* ===== verification/SkillRun.thy ===== *)
theory SkillRun
  imports SkillLedger
begin

text \<open>
  The whole weekly loop of \<open>TrueSkillRunner.run\<close> (\<open>ts_run\<close>): a row keeps its judgment
  date through every week, its snapshot \<open>ts\<close> changes only in the week that contains
  its judgment date, and there it becomes \<open>mu - 3 sigma\<close> of the ratings that week
  left. So the snapshot of each judged user is written exactly once, at its week, as
  the spec's section 4.3 requires; ratings keep changing afterwards without touching it.
\<close>

section \<open>The program\<close>


section \<open>A row through the steps of a week\<close>

lemma ts_row_step_row:
  assumes step: "ts_row_step R tq db = Inr db'" and tb: "db tn = Some tbl" and r: "tbl u = Some r"
  shows "\<exists>tbl' r'. db' tn = Some tbl' \<and> tbl' u = Some r' \<and> ts_judge r' = ts_judge r \<and> ts r' = ts r"
proof -
  obtain t q where tq: "tq = (t, q)" by fastforce
  obtain tbl0 ut1 ut2 where tb0: "db (tra_escape t) = Some tbl0"
    and db': "db' = db(tra_escape t \<mapsto> ts_writeback tbl0 ut2)"
    using ts_row_step_Inr [OF step [unfolded tq]] by blast
  show ?thesis
  proof (cases "tn = tra_escape t")
    case True
    with tb tb0 r have "u \<in> dom (ts_writeback tbl0 ut2)" by auto
    then obtain r' where "ts_writeback tbl0 ut2 u = Some r'" by blast
    with True tb tb0 r db' show ?thesis by (auto dest: ts_writeback_keeps)
  next
    case False
    with tb r db' show ?thesis by simp
  qed
qed

lemma ts_snap_tag_row:
  assumes step: "ts_snap_tag ds de t db = Inr db'" and tb: "db tn = Some tbl" and r: "tbl u = Some r"
  shows "\<exists>tbl' r'. db' tn = Some tbl' \<and> tbl' u = Some r' \<and> ts_judge r' = ts_judge r \<and>
           ((\<nexists>d. ts_judge r = Some d \<and> ds \<le> d \<and> d \<le> de) \<longrightarrow> ts r' = ts r)"
  using ts_snap_tag_Inr [OF step] tb r
  by (cases "tn = tra_escape t") (auto simp: ts_snap_rows_def split: option.splits)

lemma ts_window_row:
  assumes win: "ts_window R tf qs ind db = Inr db'" and tb: "db tn = Some tbl" and r: "tbl u = Some r"
  shows "\<exists>tbl' r'. db' tn = Some tbl' \<and> tbl' u = Some r' \<and> ts_judge r' = ts_judge r \<and>
           ((\<nexists>d. ts_judge r = Some d \<and> in_window d ind) \<longrightarrow> ts r' = ts r)"
proof -
  let ?out = "\<nexists>d. ts_judge r = Some d \<and> in_window d ind"
  let ?P = "\<lambda>db. \<exists>tbl' r'. db tn = Some tbl' \<and> tbl' u = Some r' \<and> ts_judge r' = ts_judge r \<and>
                          (?out \<longrightarrow> ts r' = ts r)"
  obtain db1 where rows: "fold_err (ts_row_step R) (ts_ques (day_s ind) (day_e ind) qs) db = Inr db1"
    and snaps: "fold_err (ts_snap_tag (day_s ind) (day_e ind)) (tag_values tf) db1 = Inr db'"
    using win by (auto simp: ts_window_def split: sum.splits)
  have "?P db" using tb r by blast
  moreover have "?P s'" if "?P s" and "ts_row_step R x s = Inr s'" for x s s'
    using that ts_row_step_row by fastforce
  ultimately have "?P db1" using fold_err_inv [OF _ _ rows, of ?P] by blast
  moreover have "?P s'" if "?P s" and "ts_snap_tag (day_s ind) (day_e ind) x s = Inr s'" for x s s'
  proof -
    from that(1) obtain tb1 r1 where "s tn = Some tb1" "tb1 u = Some r1" and j: "ts_judge r1 = ts_judge r"
      and k: "?out \<longrightarrow> ts r1 = ts r" by blast
    with ts_snap_tag_row [OF that(2)] obtain tb2 r2 where "s' tn = Some tb2" "tb2 u = Some r2"
      "ts_judge r2 = ts_judge r1"
      and "(\<nexists>d. ts_judge r1 = Some d \<and> day_s ind \<le> d \<and> d \<le> day_e ind) \<longrightarrow> ts r2 = ts r1"
      by blast
    with j k show ?thesis by (auto simp: in_window_def)
  qed
  ultimately show ?thesis using fold_err_inv [OF _ _ snaps, of ?P] by blast
qed

lemma ts_windows_row:
  assumes run: "fold_err (ts_window R tf qs) ws db = Inr db'" and tb: "db tn = Some tbl" and r: "tbl u = Some r"
  shows "\<exists>tbl' r'. db' tn = Some tbl' \<and> tbl' u = Some r' \<and> ts_judge r' = ts_judge r \<and>
           ((\<forall>w \<in> set ws. \<nexists>d. ts_judge r = Some d \<and> in_window d w) \<longrightarrow> ts r' = ts r)"
proof -
  let ?out = "\<forall>w \<in> set ws. \<nexists>d. ts_judge r = Some d \<and> in_window d w"
  let ?P = "\<lambda>db. \<exists>tbl' r'. db tn = Some tbl' \<and> tbl' u = Some r' \<and> ts_judge r' = ts_judge r \<and>
                          (?out \<longrightarrow> ts r' = ts r)"
  have "?P s'" if "w \<in> set ws" and "?P s" and "ts_window R tf qs w s = Inr s'" for w s s'
  proof -
    from that(2) obtain tb1 r1 where "s tn = Some tb1" "tb1 u = Some r1" and j: "ts_judge r1 = ts_judge r"
      and k: "?out \<longrightarrow> ts r1 = ts r" by blast
    with ts_window_row [OF that(3)] obtain tb2 r2 where "s' tn = Some tb2" "tb2 u = Some r2"
      "ts_judge r2 = ts_judge r1"
      and "(\<nexists>d. ts_judge r1 = Some d \<and> in_window d w) \<longrightarrow> ts r2 = ts r1"
      by blast
    with j k that(1) show ?thesis by auto
  qed
  moreover have "?P db" using tb r by blast
  ultimately show ?thesis using fold_err_inv [OF _ _ run, of ?P] by blast
qed

section \<open>The snapshot over the whole run\<close>

text \<open>C16: over a completed run, every row of a listed tag keeps its
  judgment date; when that date falls in one of the processed weeks, its snapshot \<open>ts\<close>
  is \<open>mu - 3 sigma\<close> of the row as the runs up to and including that week left it, and
  later weeks do not change it; when the date falls in no processed week (or the row has
  none), the snapshot stays what it was before the run.\<close>

theorem ts_run_snapshot:
  assumes run: "ts_run R tf qs today db = Inr db'" and t: "t \<in> set (tag_values tf)"
    and tb: "db (tra_escape t) = Some tbl" and r: "tbl u = Some r" and d: "ts_judge r = Some d"
  shows "\<exists>tbl' r'. db' (tra_escape t) = Some tbl' \<and> tbl' u = Some r' \<and> ts_judge r' = Some d \<and>
           (if oriday \<le> d \<and> window_of d < window_count today
            then \<exists>dbk tblk rk. fold_err (ts_window R tf qs) [0..<Suc (window_of d)] db = Inr dbk \<and>
                   dbk (tra_escape t) = Some tblk \<and> tblk u = Some rk \<and> ts r' = mu rk - 3 * sigma rk
            else ts r' = ts r)"
proof (cases "oriday \<le> d \<and> window_of d < window_count today")
  case False
  then have "\<forall>w \<in> set [0..<window_count today]. \<nexists>d'. ts_judge r = Some d' \<and> in_window d' w"
    using d by (auto simp: in_window_iff)
  with ts_windows_row [OF run [unfolded ts_run_def] tb r] d False show ?thesis by auto
next
  case True
  let ?k = "window_of d" and ?tn = "tra_escape t"
  have split: "[0..<window_count today] = [0..<?k] @ [?k] @ [Suc ?k..<window_count today]"
  proof -
    have "[0..<window_count today] = [0..<?k] @ [?k..<window_count today]"
      using True upt_add_eq_append [of 0 ?k "window_count today - ?k"] by simp
    also have "[?k..<window_count today] = [?k] @ [Suc ?k..<window_count today]"
      using True by (simp add: upt_conv_Cons)
    finally show ?thesis .
  qed
  obtain db0 dbk where f0: "fold_err (ts_window R tf qs) [0..<?k] db = Inr db0"
    and wk: "ts_window R tf qs ?k db0 = Inr dbk"
    and f1: "fold_err (ts_window R tf qs) [Suc ?k..<window_count today] dbk = Inr db'"
    using run unfolding ts_run_def split by (auto simp: fold_err_append split: sum.splits)
  obtain tb0 r0 where "db0 ?tn = Some tb0" "tb0 u = Some r0" "ts_judge r0 = Some d"
    using ts_windows_row [OF f0 tb r] d by auto
  then obtain tblk rk where tk: "dbk ?tn = Some tblk" and rk: "tblk u = Some rk" and jk: "ts_judge rk = Some d"
    using ts_window_row [OF wk] by fastforce
  have snap: "ts rk = mu rk - 3 * sigma rk"
    using ts_window_snapshot [OF wk t tk rk jk] window_of_in [of d] True by (simp add: in_window_def)
  have "\<forall>w \<in> set [Suc ?k..<window_count today]. \<nexists>d'. ts_judge rk = Some d' \<and> in_window d' w"
    using jk by (auto simp: in_window_iff)
  with ts_windows_row [OF f1 tk rk] jk obtain tbl' r' where "db' ?tn = Some tbl'" "tbl' u = Some r'"
    "ts_judge r' = Some d" "ts r' = ts rk" by auto
  moreover have "fold_err (ts_window R tf qs) [0..<Suc ?k] db = Inr dbk"
    using f0 wk by (simp add: fold_err_append)
  ultimately show ?thesis using True tk rk snap by auto
qed

lemma ts_run_snapshot_witness:
  "ts_run demo_rater (tags_query [''c#'']) [demo_q] (oriday + 523) demo_ts_db =
     Inr (projr (ts_run demo_rater (tags_query [''c#'']) [demo_q] (oriday + 523) demo_ts_db)) \<and>
   window_count (oriday + 523) = 2 \<and>
   (\<exists>tbl' r'. projr (ts_run demo_rater (tags_query [''c#'']) [demo_q] (oriday + 523) demo_ts_db)
        (tra_escape ''c#'') = Some tbl' \<and> tbl' 1 = Some r' \<and> ts_judge r' = Some (oriday + 3) \<and>
      (\<exists>dbk tblk rk. fold_err (ts_window demo_rater (tags_query [''c#'']) [demo_q]) [0..<Suc 0] demo_ts_db = Inr dbk \<and>
         dbk (tra_escape ''c#'') = Some tblk \<and> tblk 1 = Some rk \<and> ts r' = mu rk - 3 * sigma rk))"
proof -
  let ?run = "ts_run demo_rater (tags_query [''c#'']) [demo_q] (oriday + 523) demo_ts_db"
  let ?r = "seed_row\<lparr>ts_judge := Some (oriday + 3)\<rparr>"
  let ?tbl = "[1 \<mapsto> ?r, 2 \<mapsto> seed_row, 3 \<mapsto> seed_row] :: uid \<rightharpoonup> ts_row"
  have n: "window_count (oriday + 523) = 2"
    by (simp add: window_count_def py_trunc_div_def)
  have run: "?run = Inr (projr ?run)"
  proof -
    have "[0..<2] = [0::nat, 1]" by (simp add: upt_rec)
    then show ?thesis unfolding ts_run_def n by (simp add: ts_eval_defs)
  qed
  have t: "''c#'' \<in> set (tag_values (tags_query [''c#'']))" by (simp add: tags_query_def)
  have tb: "demo_ts_db (tra_escape ''c#'') = Some ?tbl" by (simp add: demo_ts_db_def tra_escape_def)
  have r: "?tbl 1 = Some ?r" by simp
  have d: "ts_judge ?r = Some (oriday + 3)" by simp
  have w: "window_of (oriday + 3) = 0" by (simp add: window_of_def)
  have c: "oriday \<le> oriday + 3 \<and> window_of (oriday + 3) < window_count (oriday + 523)"
    unfolding w n by simp
  from ts_run_snapshot [OF run t tb r d] c w n run show ?thesis by (simp only: if_True) simp
qed

section \<open>The program on a fresh database\<close>



end
