(* ===== verification/PagerDist.thy ===== *)
theory PagerDist
  imports Convergence
begin

text \<open>
  The type of the PageRank runner's score dict \<open>self.pager\<close> (\<open>pgrunner.py\<close>,
  \<open>PGRunner.run\<close>): after any completed window it is a probability distribution
  over the nodes of the tag's current graph, its keys exactly the nodes, its values
  positive and summing to 1. This is the "raw centrality values sum to 1" of the
  spec's section 4.1, the reason the snapshot multiplies by \<open>number_of_nodes\<close>. It
  holds whatever dict the run starts from, so also for the dict \<open>runall\<close> carries over
  from the previous tag, whose keys need not be nodes of the new graph.
\<close>

section \<open>The distribution predicate\<close>

definition pager_dist :: "digraph \<Rightarrow> (uid \<rightharpoonup> score) \<Rightarrow> bool" where
  "pager_dist g p \<longleftrightarrow>
     dom p = set (nodes g) \<and> (\<forall>n \<in> set (nodes g). 0 < pager_get p n) \<and>
     (\<Sum>n\<leftarrow>nodes g. pager_get p n) = 1"

lemma pager_dist_map_of_zip:
  assumes "prob_vec g r"
  shows "pager_dist g (map_of (zip (nodes g) (map r (nodes g))))"
proof -
  have get: "pager_get (map_of (zip (nodes g) (map r (nodes g)))) n = r n" if "n \<in> set (nodes g)" for n
    using that by (simp add: pager_get_def map_of_zip_map)
  have "(\<Sum>n\<leftarrow>nodes g. pager_get (map_of (zip (nodes g) (map r (nodes g)))) n) = (\<Sum>n\<leftarrow>nodes g. r n)"
    using get by (metis (mono_tags, lifting) map_cong)
  moreover have "dom (map_of (zip (nodes g) (map r (nodes g)))) = set (nodes g)"
    by (auto simp: map_of_zip_map split: if_splits)
  ultimately show ?thesis using assms get by (simp add: pager_dist_def prob_vec_def)
qed

lemma pr_window_dist:
  assumes wf: "wf_graph (graph st)" and pos: "\<forall>u v. pager st u = Some v \<longrightarrow> 0 < v"
    and step: "pr_window tg qs ind st = Inr st'"
  shows "pager_dist (graph st') (pager st')"
proof -
  obtain start where wf': "wf_graph (graph st')" and start: "pr_start (graph st') (pager st) = Inr start"
    and p: "pagerank_scipy (graph st') start = Inr (pager st')"
    using pr_window_keeps [OF wf pos step] by blast
  have nz: "number_of_nodes (graph st') \<noteq> 0" using start by (auto simp: pr_start_def split: if_splits)
  then have ne: "nodes (graph st') \<noteq> []" by (simp add: number_of_nodes_def)
  have spos: "\<forall>n \<in> set (nodes (graph st')). \<exists>v. start n = Some v \<and> 0 < v"
    by (rule pr_start_pos [OF nz pos start])
  from pagerank_scipy_Inr [OF wf' ne spos p] obtain r where "prob_vec (graph st') r"
    and "pager st' = map_of (zip (nodes (graph st')) (map r (nodes (graph st'))))" by blast
  then show ?thesis using pager_dist_map_of_zip by simp
qed

section \<open>The score dict after a run\<close>

text \<open>C14: at the end of a completed \<open>run(tag)\<close> that processed at
  least one week, started from any dict of positive scores (\<open>{}\<close> or the dict left by
  an earlier tag), the graph is well formed and \<open>self.pager\<close> is a probability
  distribution over its nodes: one positive entry per node and none else, summing to 1.\<close>

theorem pg_run_pager_dist:
  assumes run: "pg_run tg qs today p tbl = Inr st'"
    and pos: "\<forall>u v. p u = Some v \<longrightarrow> 0 < v" and n: "0 < window_count today"
  shows "wf_graph (graph st') \<and> pager_dist (graph st') (pager st')"
proof -
  let ?st0 = "\<lparr>graph = empty_graph, pager = p, pr_table = tbl\<rparr>" and ?k = "window_count today - 1"
  have "[0..<window_count today] = [0..<?k] @ [?k]"
    using n by (metis Suc_diff_1 upt_Suc_append zero_le)
  then obtain st where pre: "fold_err (pr_window tg qs) [0..<?k] ?st0 = Inr st"
    and last: "pr_window tg qs ?k st = Inr st'"
    using run by (auto simp: pg_run_def fold_err_append split: sum.splits)
  have "wf_graph empty_graph" by (simp add: empty_graph_def wf_graph_def)
  then have wf: "wf_graph (graph st)" and ps: "\<forall>u v. pager st u = Some v \<longrightarrow> 0 < v"
    using pr_windows_keep [OF pre] pos by simp_all
  show ?thesis using pr_window_keeps [OF wf ps last] pr_window_dist [OF wf ps last] by blast
qed

lemma pg_run_pager_dist_witness:
  "pg_run ''java'' demo_qs (oriday + 516) Map.empty demo_tbl =
     Inr (projr (pg_run ''java'' demo_qs (oriday + 516) Map.empty demo_tbl)) \<and>
   0 < window_count (oriday + 516) \<and>
   wf_graph (graph (projr (pg_run ''java'' demo_qs (oriday + 516) Map.empty demo_tbl))) \<and>
   pager_dist (graph (projr (pg_run ''java'' demo_qs (oriday + 516) Map.empty demo_tbl)))
     (pager (projr (pg_run ''java'' demo_qs (oriday + 516) Map.empty demo_tbl)))"
proof -
  have n: "0 < window_count (oriday + 516)" by (simp add: window_count_def py_trunc_div_def)
  from pg_run_pager_dist [OF demo_run _ n] demo_run n show ?thesis by simp
qed

end
