(* ===== verification/Preprocess.thy ===== *)
theory Preprocess
  imports Dataset
begin

text \<open>
  \<open>DatasetGenerator.preprocessing\<close> and the \<open>__main__\<close> of \<open>dataset.py\<close>.
  \<open>preprocessing\<close> formats the external scripts \<open>Script/Score.sql\<close> and
  \<open>Script/Rank.sql\<close> (not in the repository) with three arguments computed from
  today's date: the judgment delay \<open>period = 120\<close>, the user cut-off
  \<open>udate = today - 630\<close> and the answer cut-off \<open>adate = today - (630 - period)\<close>; what
  the scripts compute from them is outside the model, the arguments are its result.
  The lemmas relate \<open>adate\<close> to the weeks the two runners process: the judgment dates
  up to \<open>adate\<close> that no week selects are exactly the last \<open>(today - oriday - 509) mod 7\<close>
  days.
\<close>

section \<open>Definitions\<close>

text \<open>The format arguments \<open>arg\<close> of the two scripts (the key \<open>'2,'\<close> only escapes a
  brace of the SQL text).\<close>

record pp_args =
  pp_period :: int
  pp_udate :: day
  pp_adate :: day

definition preprocessing :: "day \<Rightarrow> pp_args" where
  "preprocessing today =
     (let period = 120 in
      \<lparr>pp_period = period, pp_udate = today - 630, pp_adate = today - (630 - period)\<rparr>)"

text \<open>What \<open>__main__\<close> runs for the answer \<open>OPT\<close> to its prompt.\<close>

datatype 'f ds_outcome = RawData pp_args | DatasetRun "py_error + 'f ds_db" | NoMode

definition ds_main :: "string \<Rightarrow> day \<Rightarrow> (string \<Rightarrow> (uid \<rightharpoonup> 'f)) \<Rightarrow> pr_db \<Rightarrow> ts_db \<Rightarrow> 'f ds_db \<Rightarrow>
                       'f ds_outcome" where
  "ds_main opt today feats pgr trs db =
     (if opt = ''1'' then RawData (preprocessing today)
      else if opt = ''2'' then DatasetRun (ds_gen feats pgr trs db)
      else NoMode)"

section \<open>Lemmas\<close>

lemma pp_adate_eq: "pp_adate (preprocessing today) = today - 510"
  by (simp add: preprocessing_def)

lemma window_count_mod:
  assumes "oriday + 509 \<le> today"
  shows "7 * int (window_count today) = (today - oriday - 509) - (today - oriday - 509) mod 7"
proof -
  have "0 \<le> (today - oriday - 509) div 7" using assms by simp
  then have "int (window_count today) = (today - oriday - 509) div 7" by (simp add: window_count_nonneg)
  with div7_facts(1) [of "today - oriday - 509"] show ?thesis by linarith
qed

section \<open>The answer cut-off and the processed weeks\<close>

text \<open>C29: from the day the runners process a first week on, the
  judgment dates up to \<open>adate\<close> that no processed week selects are exactly the last
  \<open>(today - oriday - 509) mod 7\<close> days up to \<open>adate\<close>: \<open>int(cnt / 7)\<close> drops the partial
  last week, so on six days of every seven some users judged by \<open>adate\<close> keep the seeded
  snapshot 0.0.\<close>

theorem adate_unjudged_days:
  assumes "oriday + 509 \<le> today"
  shows "(oriday \<le> d \<and> d \<le> pp_adate (preprocessing today) \<and> \<not> window_of d < window_count today) \<longleftrightarrow>
         (oriday \<le> d \<and> pp_adate (preprocessing today) - (today - oriday - 509) mod 7 < d \<and>
          d \<le> pp_adate (preprocessing today))"
proof -
  have c: "7 * int (window_count today) = (today - oriday - 509) - (today - oriday - 509) mod 7"
    using assms by (rule window_count_mod)
  show ?thesis using c by (auto simp: pp_adate_eq window_of_less_iff)
qed

lemma adate_unjudged_days_witness:
  "oriday + 509 \<le> oriday + 522 \<and>
   oriday \<le> oriday + 10 \<and> oriday + 10 \<le> pp_adate (preprocessing (oriday + 522)) \<and>
   \<not> window_of (oriday + 10) < window_count (oriday + 522) \<and>
   pp_adate (preprocessing (oriday + 522)) - ((oriday + 522) - oriday - 509) mod 7 < oriday + 10"
proof -
  have h: "oriday + 509 \<le> oriday + 522" by simp
  have r: "oriday \<le> oriday + 10 \<and> pp_adate (preprocessing (oriday + 522)) - ((oriday + 522) - oriday - 509) mod 7 < oriday + 10 \<and>
           oriday + 10 \<le> pp_adate (preprocessing (oriday + 522))"
    by (simp add: pp_adate_eq)
  from adate_unjudged_days [OF h, of "oriday + 10"] r h show ?thesis by blast
qed

end
