(* ===== verification/Spec2Isabelle.thy ===== *)
theory Spec2Isabelle
  imports Convergence Dataset SkillRun PagerDist Preprocess
begin

text \<open>
  A verification model of the scoring engine of the StackOverflowData repository:
  \<open>src/pgrunner.py\<close> and \<open>src/pagerank.py\<close> (authority scores by PageRank over a
  cumulative "outranked-by" graph per tag), \<open>src/tsrunner.py\<close> (TrueSkill ratings
  per tag), and \<open>src/dataset.py\<close> (the join of both scores into the training set).

  \<^bold>\<open>The program.\<close> Both runners walk the weeks from 2008-07-31 in order. The
  PageRank runner adds each week's ranked answer pairs of a tag to a directed graph
  (an edge \<open>a -> b\<close> says that \<open>b\<close> outranked \<open>a\<close>), recomputes PageRank warm-started
  from the previous scores, and writes \<open>score * number_of_nodes\<close> into the SQLite rows
  of the users whose judgment date falls in the week. The TrueSkill runner processes
  each week's questions of all tags (accepted answerer against asker, then the
  answerers among themselves), writes the new ratings back, and snapshots
  \<open>mu - 3 sigma\<close> for the users judged in the week. Tables are seeded by
  \<open>create_table\<close> from the warehouse; table names are tags with \<open>#\<close>, \<open>++\<close>
  escaped.

  \<^bold>\<open>Theories and what they model.\<close>
  \<^item> \<open>Prelude\<close>: Python exceptions as the datatype \<open>py_error\<close>, results as
    \<open>py_error + 'a\<close>, the \<open>QuestionRankS\<close> row \<open>qrow\<close>, \<open>fold_err\<close> (a \<open>for\<close> loop whose
    body may raise), \<open>dict.update\<close> and \<open>to_sql\<close> appends (\<open>sql_insert\<close>), with the
    list, map and fold lemmas the components share.
  \<^item> \<open>Escape\<close>: \<open>tra\<close> of \<open>pgrunner.py\<close>/\<open>tsrunner.py\<close> (\<open>tra_escape\<close>) and of
    \<open>pagerank.py\<close>/\<open>dataset.py\<close> (\<open>tra_unescape\<close>) over an exact model of
    \<open>str.replace\<close> (\<open>py_replace\<close>); equivalence with a one-pass translation, absence
    of reserved characters, and the round trip with its exact domain.
  \<^item> \<open>Windows\<close>: \<open>cnt\<close>, \<open>range(int(cnt / 7))\<close>, \<open>day_s\<close>, \<open>day_e\<close> and the
    \<open>BETWEEN\<close> test over day ordinals (\<open>date.toordinal\<close>); each judgment date is
    selected by exactly one processed week or by none, and which ones are covered.
  \<^item> \<open>Graph\<close>: \<open>nx.DiGraph\<close> as a node list and an edge association list, the
    insert-or-increment loop of \<open>run\<close> (\<open>ingest\<close>), the \<open>QUES\<close> edge query; weights only
    grow, the graph stays well formed, and an edge grows by the number of answer pairs
    in which its target outranked its source.
  \<^item> \<open>PageRank\<close>: \<open>nx.pagerank_scipy\<close> (networkx, not in the repository, modelled
    from its algorithm) as a power iteration over exact rationals with the fuel
    \<open>max_iter = 200\<close>; a returned score vector is a positive probability vector.
  \<^item> \<open>Convergence\<close>: one step is an l1 contraction by \<open>alpha = 0.85\<close>, so from a
    probability vector the change after 199 steps is at most \<open>2 * 0.85^199 < 10^-6\<close>:
    the fuel of 200 is always enough, the call never raises, and in every run of the
    weekly loop each window's call converges.
  \<^item> \<open>PagerDist\<close>: the type of \<open>self.pager\<close>: after any completed run it is a
    probability distribution over exactly the nodes of the tag's graph, whatever dict
    the run started from (also the one \<open>runall\<close> carries over from another tag).
  \<^item> \<open>AuthorityRunner\<close>: \<open>PGRunner.run\<close> (= \<open>PRRunner.run\<close>) as \<open>pr_window\<close> (one
    week) and \<open>pg_run\<close> (the loop) over the state record \<open>pr_state\<close> (graph,
    \<open>self.pager\<close>, the tag's table): the only error is \<open>ZeroDivisionError\<close> on an empty
    graph, rows and judgment dates are never created, deleted or changed, and each
    row's snapshot is the scaled score of the one week that selects it.
  \<^item> \<open>RankDriver\<close>: \<open>PGRunner.create_table\<close>, \<open>runall\<close> and the main of
    \<open>pagerank.py\<close> over a database of tables and index names: seeding is exact and
    rerunnable, and \<open>pagerank.py\<close> keeps tags independent (its result for a tag is
    \<open>tag_table\<close>, computed from that tag alone); \<open>pgrunner.py\<close>'s main, over the
    tags of its \<open>TAGS\<close> query (\<open>pg_tags\<close>), leaves exactly the seeded tables with their
    seeded users.
  \<^item> \<open>SkillLedger\<close>: \<open>TrueSkillRunner.run\<close> and \<open>create_table\<close>: the row step
    (\<open>SELECT\<close>, two-player update, multiplayer update, \<open>UPDATE\<close>), the weekly
    snapshot, the week loop; the rating library's \<open>rate\<close> is a parameter \<open>R\<close>
    (\<open>rater_ok\<close>: one result per group). Shown: the asker's row never changes, the
    frame of a row step, success when seeded and \<open>KeyError\<close> when not, the snapshot
    of a week, and that \<open>create_table\<close> creates a single table named \<open>tag\<close>, so
    that \<open>run\<close> stops with \<open>no such table\<close>.
  \<^item> \<open>SkillRun\<close>: the whole week loop of \<open>TrueSkillRunner.run\<close>: a judged row's
    snapshot is written once, in the week containing its judgment date, as
    \<open>mu - 3 sigma\<close> of its ratings after that week, and no later week changes it;
    and \<open>ts_main\<close>, the \<open>__main__\<close> of \<open>tsrunner.py\<close> (\<open>create_table\<close> then \<open>run\<close>),
    which on a fresh database stops with \<open>no such table\<close> whatever the tags are.
  \<^item> \<open>Dataset\<close>: \<open>dataset_gen\<close> of \<open>dataset.py\<close> over the feature rows (an opaque
    input) and the two score databases: the \<open>LEFT JOIN\<close>s, \<open>fillna(0.0)\<close>, and the
    creation of each tag's dataset table; its values are exactly the two snapshots, and a
    second run on its own output stops with \<open>table css already exists\<close>.
  \<^item> \<open>Preprocess\<close>: \<open>DatasetGenerator.preprocessing\<close> (the date arguments
    \<open>udate = today - 630\<close>, \<open>adate = today - 510\<close> it passes to the external scripts) and
    the \<open>__main__\<close> of \<open>dataset.py\<close>: the judgment dates up to \<open>adate\<close> that no
    processed week selects are exactly the last \<open>(today - oriday - 509) mod 7\<close> days.
  \<^item> This theory: the spec's first scenario run through the whole PageRank runner;
    that \<open>PGRunner.runall\<close> makes a tag's snapshots depend on the tags run before it
    (through the shared \<open>self.pager\<close>; proved with the closed form of the power
    iteration on a two-cycle, so no iteration is evaluated); and the pipeline across
    components: on the database \<open>TrueSkillRunner.create_table\<close>
    leaves, \<open>dataset_gen\<close> stops at its first tag.

  \<^bold>\<open>Bounds and fuel.\<close> Python floats are exact rationals (\<open>rat\<close>), so the
  results are those of exact arithmetic; integers are unbounded as in Python. The only
  fuel is the library's own \<open>max_iter = 200\<close>, and \<open>Convergence\<close> proves it is never
  exhausted from the runners' start vectors.

  \<^bold>\<open>Not modelled.\<close> BigQuery (\<open>pandas_gbq\<close>), credentials, \<open>tqdm\<close> and logging are
  I/O; the warehouse tables are inputs (\<open>qrow\<close> lists, \<open>Score600\<close> rows). The rating
  library \<open>trueskill\<close> is a parameter. A raised exception ends the model's run: what
  SQLite keeps of an aborted loop (commits per tag, \<open>__del__\<close> committing) is not
  modelled. The SQL scripts \<open>Script/Score.sql\<close>, \<open>Script/Rank.sql\<close> and
  \<open>Script/Dataset.sql\<close> are not in the repository: \<open>preprocessing\<close> is modelled by the
  arguments it formats them with, and the feature rows are an input of \<open>dataset_gen\<close>.
  The constructors' credentials and connections and the destructors' commits are I/O.
  Dates are day ordinals: the \<open>BETWEEN\<close> tests on \<open>judge_date\<close> compare ISO date
  strings in SQLite, which is the ordinal comparison when the warehouse's \<open>DATE\<close> values
  are stored as \<open>YYYY-MM-DD\<close> text (a stored time part would drop the last day of each
  week; the repository pins no library versions).
\<close>

section \<open>The spec's first scenario\<close>

text \<open>
  Two questions of the first week in which user 2 outranked user 1, one of the second
  week in which user 3 outranked user 2; run until the day that gives two weeks.
\<close>

definition scen_qs :: "qrow list" where
  "scen_qs =
     [\<lparr>q_date = oriday, q_tags = [''java''], rank_id = [1, 2], rank = [2, 1], asker_id = 9, accept_id = None\<rparr>,
      \<lparr>q_date = oriday + 1, q_tags = [''java''], rank_id = [1, 2], rank = [2, 1], asker_id = 9, accept_id = None\<rparr>,
      \<lparr>q_date = oriday + 7, q_tags = [''java''], rank_id = [2, 3], rank = [2, 1], asker_id = 9, accept_id = None\<rparr>]"

definition scen_g1 :: digraph where
  "scen_g1 = \<lparr>nodes = [1, 2], adj = [((1, 2), 2)]\<rparr>"

text \<open>
  A second tag for \<open>runall\<close>: in the first week of tag \<open>php\<close> users 1 and 2 outrank each
  other once, so its graph is the symmetric two-cycle; its table holds user 1, judged in
  that week.
\<close>

definition cyc_qs :: "qrow list" where
  "cyc_qs =
     [\<lparr>q_date = oriday, q_tags = [''php''], rank_id = [1, 2], rank = [1, 2], asker_id = 3, accept_id = None\<rparr>,
      \<lparr>q_date = oriday + 1, q_tags = [''php''], rank_id = [1, 2], rank = [2, 1], asker_id = 3, accept_id = None\<rparr>]"

definition cyc_g :: digraph where
  "cyc_g = \<lparr>nodes = [2, 1], adj = [((2, 1), 1), ((1, 2), 1)]\<rparr>"

definition runall_db :: pr_db where
  "runall_db = [''java'' \<mapsto> Map.empty, ''php'' \<mapsto> [1 \<mapsto> \<lparr>judge_date = oriday + 3, pagerank = 0\<rparr>]]"

lemmas scen_eval = ques_edges_def group_count_def rank_pairs_def ingest_edge_def has_edge_def
  add_edge_def add_node_def empty_graph_def day_s_def day_e_def scen_qs_def

lemma scen_edges0: "ingest (ques_edges ''java'' (day_s 0) (day_e 0) scen_qs) empty_graph = scen_g1"
  by (simp add: scen_eval scen_g1_def)

lemma scen_edges1: "ingest (ques_edges ''java'' (day_s 1) (day_e 1) scen_qs) scen_g1 = scenario_graph"
  by (simp add: scen_eval scen_g1_def scenario_graph_def)

lemma scen_g1_step: "pr_step scen_g1 x 2 - pr_step scen_g1 x 1 = alpha * x 1"
  by (simp add: scen_g1_def pr_step_def flow_in_def out_weight_def dangling_sum_def Let_def algebra_simps)

lemma scen_g2_step:
  "pr_step scenario_graph x 2 - pr_step scenario_graph x 1 = alpha * x 1"
  "pr_step scenario_graph x 3 - pr_step scenario_graph x 2 = alpha * (x 2 - x 1)"
  by (simp_all add: scenario_graph_def pr_step_def flow_in_def out_weight_def dangling_sum_def Let_def algebra_simps)

lemma scen_iter:
  assumes "prob_vec scenario_graph x" and "x 1 < x 2"
  shows "prob_vec scenario_graph ((pr_step scenario_graph ^^ k) x) \<and>
         (pr_step scenario_graph ^^ k) x 1 < (pr_step scenario_graph ^^ k) x 2"
proof (induction k)
  case 0
  with assms show ?case by simp
next
  case (Suc k)
  let ?y = "(pr_step scenario_graph ^^ k) x"
  have wf: "wf_graph scenario_graph" and ne: "nodes scenario_graph \<noteq> []"
    by (simp_all add: wf_graph_def scenario_graph_def)
  from Suc.IH have "0 < ?y 1" by (simp add: prob_vec_def scenario_graph_def)
  then have "pr_step scenario_graph ?y 1 < pr_step scenario_graph ?y 2"
    using scen_g2_step(1) [of ?y] alpha_pos by (simp add: algebra_simps)
  with Suc.IH prob_vec_pr_step [OF wf ne] show ?case by simp
qed

lemma scen_window0:
  "\<exists>st1. pr_window ''java'' scen_qs 0 \<lparr>graph = empty_graph, pager = Map.empty, pr_table = tbl\<rparr> = Inr st1 \<and>
     graph st1 = scen_g1 \<and> (\<forall>u v. pager st1 u = Some v \<longrightarrow> 0 < v) \<and>
     (\<exists>a b. pager st1 1 = Some a \<and> pager st1 2 = Some b \<and> a < b)"
proof -
  let ?st0 = "\<lparr>graph = empty_graph, pager = Map.empty, pr_table = tbl\<rparr>"
  have wf0: "wf_graph (graph ?st0)" by (simp add: empty_graph_def wf_graph_def)
  have pos0: "\<forall>u v. pager ?st0 u = Some v \<longrightarrow> 0 < v" by simp
  have wf1: "wf_graph scen_g1" and ne1: "nodes scen_g1 \<noteq> []"
    by (simp_all add: wf_graph_def scen_g1_def)
  obtain st1 where step: "pr_window ''java'' scen_qs 0 ?st0 = Inr st1"
    using pr_window_Inr [of "''java''" 0 scen_qs ?st0] scen_edges0 ne1 by auto
  have g: "graph st1 = scen_g1" using pr_window_graph [OF step] scen_edges0 by simp
  obtain start m where m: "1 \<le> m" and spos: "\<forall>n \<in> set (nodes scen_g1). \<exists>v. start n = Some v \<and> 0 < v"
    and p: "pager st1 = map_of (zip (nodes scen_g1) (map ((pr_step scen_g1 ^^ m) (start_vec scen_g1 start)) (nodes scen_g1)))"
    using pr_window_iterate [OF wf0 pos0 step] g by auto
  let ?y = "(pr_step scen_g1 ^^ (m - 1)) (start_vec scen_g1 start)"
  have "prob_vec scen_g1 ?y" by (rule prob_vec_funpow [OF wf1 ne1 start_vec_prob [OF ne1 spos]])
  then have "0 < ?y 1" by (simp add: prob_vec_def scen_g1_def)
  then have lt: "pr_step scen_g1 ?y 1 < pr_step scen_g1 ?y 2"
    using scen_g1_step [of ?y] alpha_pos by (simp add: algebra_simps)
  have r: "(pr_step scen_g1 ^^ m) (start_vec scen_g1 start) = pr_step scen_g1 ?y"
    by (rule funpow_pred [OF m])
  have lt': "(pr_step scen_g1 ^^ m) (start_vec scen_g1 start) 1 < (pr_step scen_g1 ^^ m) (start_vec scen_g1 start) 2"
    using lt by (simp only: r)
  have "nodes scen_g1 = [1, 2]" by (simp add: scen_g1_def)
  moreover have "\<forall>u v. pager st1 u = Some v \<longrightarrow> 0 < v" using pr_window_keeps [OF wf0 pos0 step] by blast
  ultimately show ?thesis using step g p lt' by simp
qed

lemma scen_window1:
  assumes g: "graph st1 = scen_g1" and pos: "\<forall>u v. pager st1 u = Some v \<longrightarrow> 0 < v"
    and a: "pager st1 1 = Some a" and b: "pager st1 2 = Some b" and ab: "a < b"
  shows "\<exists>st2. pr_window ''java'' scen_qs 1 st1 = Inr st2 \<and>
           (\<exists>x y z. pager st2 1 = Some x \<and> pager st2 2 = Some y \<and> pager st2 3 = Some z \<and> x < y \<and> y < z)"
proof -
  let ?sg = scenario_graph
  have wf1: "wf_graph (graph st1)" using g by (simp add: wf_graph_def scen_g1_def)
  have wf: "wf_graph ?sg" and ne: "nodes ?sg \<noteq> []" by (simp_all add: wf_graph_def scenario_graph_def)
  obtain st2 where step: "pr_window ''java'' scen_qs 1 st1 = Inr st2"
    using pr_window_Inr [of "''java''" 1 scen_qs st1] scen_edges1 g ne by auto
  have g2: "graph st2 = ?sg" using pr_window_graph [OF step] scen_edges1 g by simp
  obtain start m where m: "1 \<le> m" and start: "pr_start ?sg (pager st1) = Inr start"
    and spos: "\<forall>n \<in> set (nodes ?sg). \<exists>v. start n = Some v \<and> 0 < v"
    and p: "pager st2 = map_of (zip (nodes ?sg) (map ((pr_step ?sg ^^ m) (start_vec ?sg start)) (nodes ?sg)))"
    using pr_window_iterate [OF wf1 pos step] g2 by auto
  have "start 1 = Some a" and "start 2 = Some b"
    using start a b by (auto simp: pr_start_def split: if_splits)
  then have x0: "start_vec ?sg start 1 = a / (\<Sum>m\<leftarrow>nodes ?sg. case start m of Some v \<Rightarrow> v | None \<Rightarrow> 0)"
    "start_vec ?sg start 2 = b / (\<Sum>m\<leftarrow>nodes ?sg. case start m of Some v \<Rightarrow> v | None \<Rightarrow> 0)"
    by (simp_all add: start_vec_def Let_def)
  have prob: "prob_vec ?sg (start_vec ?sg start)" by (rule start_vec_prob [OF ne spos])
  have "0 < a" using pos a by blast
  moreover have "0 < start_vec ?sg start 1" using prob by (simp add: prob_vec_def scenario_graph_def)
  ultimately have "0 < (\<Sum>m\<leftarrow>nodes ?sg. case start m of Some v \<Rightarrow> v | None \<Rightarrow> 0)"
    using x0(1) by (simp add: zero_less_divide_iff)
  then have lt0: "start_vec ?sg start 1 < start_vec ?sg start 2"
    using x0 ab by (simp add: divide_strict_right_mono)
  let ?y = "(pr_step ?sg ^^ (m - 1)) (start_vec ?sg start)"
  have y: "prob_vec ?sg ?y" "?y 1 < ?y 2" using scen_iter [OF prob lt0] by blast+
  then have "0 < ?y 1" by (simp add: prob_vec_def scenario_graph_def)
  then have ord: "pr_step ?sg ?y 1 < pr_step ?sg ?y 2 \<and> pr_step ?sg ?y 2 < pr_step ?sg ?y 3"
    using scen_g2_step [of ?y] alpha_pos y(2) by (simp add: algebra_simps)
  have r: "(pr_step ?sg ^^ m) (start_vec ?sg start) = pr_step ?sg ?y"
    by (rule funpow_pred [OF m])
  have "(pr_step ?sg ^^ m) (start_vec ?sg start) 1 < (pr_step ?sg ^^ m) (start_vec ?sg start) 2 \<and>
             (pr_step ?sg ^^ m) (start_vec ?sg start) 2 < (pr_step ?sg ^^ m) (start_vec ?sg start) 3"
    using ord by (simp only: r)
  moreover have "nodes ?sg = [1, 2, 3]" by (simp add: scenario_graph_def)
  ultimately show ?thesis using step p by simp
qed

text \<open>
  C8: the spec's first scenario through the whole PageRank
  runner: after the week in which user 2 outranked user 1 twice and the week in which
  user 3 outranked user 2 once, the run succeeds and the scores satisfy
  \<open>score(1) < score(2) < score(3)\<close>.
\<close>

theorem scenario1_ranking:
  "\<exists>st. pg_run ''java'' scen_qs (oriday + 523) Map.empty tbl = Inr st \<and>
        pager_get (pager st) 1 < pager_get (pager st) 2 \<and> pager_get (pager st) 2 < pager_get (pager st) 3"
proof -
  obtain st1 where w0: "pr_window ''java'' scen_qs 0 \<lparr>graph = empty_graph, pager = Map.empty, pr_table = tbl\<rparr> = Inr st1"
    and g: "graph st1 = scen_g1" and pos: "\<forall>u v. pager st1 u = Some v \<longrightarrow> 0 < v"
    and ab: "\<exists>a b. pager st1 1 = Some a \<and> pager st1 2 = Some b \<and> a < b"
    using scen_window0 by blast
  then obtain st2 x y z where w1: "pr_window ''java'' scen_qs 1 st1 = Inr st2"
    and xyz: "pager st2 1 = Some x" "pager st2 2 = Some y" "pager st2 3 = Some z" "x < y" "y < z"
    using scen_window1 [OF g pos] by blast
  have "window_count (oriday + 523) = 2" by (simp add: window_count_def py_trunc_div_def)
  then have "pg_run ''java'' scen_qs (oriday + 523) Map.empty tbl = Inr st2"
    using w0 w1 by (simp add: pg_run_def numeral_2_eq_2)
  with xyz show ?thesis by (simp add: pager_get_def)
qed

section \<open>Tags share the runner's score dict\<close>

text \<open>
  On the two-cycle the power iteration has a closed form: the deviation of user 1's score
  from \<open>1/2\<close> is multiplied by \<open>-alpha\<close> at every step. So the week's result is exactly
  \<open>1/2\<close> from the uniform start and never \<open>1/2\<close> from a start that is not.
\<close>

lemma cyc_edges: "ingest (ques_edges ''php'' (day_s 0) (day_e 0) (scen_qs @ cyc_qs)) empty_graph = cyc_g"
  by (simp add: scen_eval cyc_qs_def cyc_g_def)

lemma java_edges: "ques_edges ''java'' (day_s 0) (day_e 0) (scen_qs @ cyc_qs) = ques_edges ''java'' (day_s 0) (day_e 0) scen_qs"
  by (simp add: scen_eval cyc_qs_def)

lemma pr_window_feed:
  "ques_edges tg (day_s ind) (day_e ind) qs = ques_edges tg (day_s ind) (day_e ind) qs' \<Longrightarrow>
   pr_window tg qs ind = pr_window tg qs' ind"
  by (rule ext) (simp add: pr_window_def)

lemma cyc_step:
  "pr_step cyc_g x 1 = alpha * x 2 + (1 - alpha) / 2"
  "pr_step cyc_g x 2 = alpha * x 1 + (1 - alpha) / 2"
  by (simp_all add: cyc_g_def pr_step_def flow_in_def out_weight_def dangling_sum_def Let_def algebra_simps)

lemma cyc_iter:
  assumes "x 1 + x 2 = 1"
  shows "(pr_step cyc_g ^^ k) x 1 + (pr_step cyc_g ^^ k) x 2 = 1 \<and>
         (pr_step cyc_g ^^ k) x 1 - 1 / 2 = (- alpha) ^ k * (x 1 - 1 / 2)"
proof (induction k)
  case 0
  with assms show ?case by simp
next
  case (Suc k)
  let ?y = "(pr_step cyc_g ^^ k) x"
  have e1: "pr_step cyc_g ?y 1 + pr_step cyc_g ?y 2 = alpha * (?y 1 + ?y 2) + (1 - alpha)"
    and e2: "pr_step cyc_g ?y 1 - 1 / 2 = - alpha * (?y 1 - 1 / 2) + alpha * (?y 1 + ?y 2 - 1)"
    by (simp_all add: cyc_step field_simps)
  from Suc.IH have s: "?y 1 + ?y 2 = 1" and d: "?y 1 - 1 / 2 = (- alpha) ^ k * (x 1 - 1 / 2)" by simp_all
  have "pr_step cyc_g ?y 1 + pr_step cyc_g ?y 2 = 1" using e1 s by simp
  moreover have "pr_step cyc_g ?y 1 - 1 / 2 = (- alpha) ^ Suc k * (x 1 - 1 / 2)" using e2 s d by simp
  ultimately show ?case by simp
qed

lemma cyc_window:
  assumes pos: "\<forall>u v. p u = Some v \<longrightarrow> 0 < v"
  shows "\<exists>st2 m. pr_window ''php'' (scen_qs @ cyc_qs) 0 \<lparr>graph = empty_graph, pager = p, pr_table = tbl\<rparr> = Inr st2 \<and>
           pr_table st2 = pr_snapshot tbl 0 (\<lambda>u. pager_get (pager st2) u * 2) \<and>
           pager_get (pager st2) 1 - 1 / 2 =
             (- alpha) ^ m * (start_vec cyc_g (map_of [(2, 1 / 2), (1, 1 / 2)] ++ p) 1 - 1 / 2)"
proof -
  let ?st0 = "\<lparr>graph = empty_graph, pager = p, pr_table = tbl\<rparr>"
  have wf0: "wf_graph (graph ?st0)" by (simp add: empty_graph_def wf_graph_def)
  have pos0: "\<forall>u v. pager ?st0 u = Some v \<longrightarrow> 0 < v" using pos by simp
  obtain st2 where step: "pr_window ''php'' (scen_qs @ cyc_qs) 0 ?st0 = Inr st2"
    using pr_window_Inr [of "''php''" 0 "scen_qs @ cyc_qs" ?st0] cyc_edges by (auto simp: cyc_g_def)
  have g: "graph st2 = cyc_g" using pr_window_graph [OF step] cyc_edges by simp
  obtain start m where start: "pr_start cyc_g p = Inr start"
    and spos: "\<forall>n \<in> set (nodes cyc_g). \<exists>v. start n = Some v \<and> 0 < v"
    and pg: "pager st2 = map_of (zip (nodes cyc_g) (map ((pr_step cyc_g ^^ m) (start_vec cyc_g start)) (nodes cyc_g)))"
    using pr_window_iterate [OF wf0 pos0 step] g by auto
  have s: "start = map_of [(2, 1 / 2), (1, 1 / 2)] ++ p"
    using start by (simp add: pr_start_def cyc_g_def number_of_nodes_def)
  have ne: "nodes cyc_g \<noteq> []" by (simp add: cyc_g_def)
  have prob: "prob_vec cyc_g (start_vec cyc_g start)" by (rule start_vec_prob [OF ne spos])
  then have sum: "start_vec cyc_g start 1 + start_vec cyc_g start 2 = 1"
    by (simp add: prob_vec_def cyc_g_def)
  have "pager_get (pager st2) 1 = (pr_step cyc_g ^^ m) (start_vec cyc_g start) 1"
    using pg by (simp add: pager_get_def cyc_g_def)
  with cyc_iter [OF sum, of m] s
  have "pager_get (pager st2) 1 - 1 / 2 = (- alpha) ^ m * (start_vec cyc_g (map_of [(2, 1 / 2), (1, 1 / 2)] ++ p) 1 - 1 / 2)"
    by simp
  moreover have "pr_table st2 = pr_snapshot tbl 0 (\<lambda>u. pager_get (pager st2) u * 2)"
    using pr_window_table [OF step] g by (simp add: cyc_g_def number_of_nodes_def)
  ultimately show ?thesis using step by blast
qed

lemma php_row:
  "pr_snapshot [1 \<mapsto> \<lparr>judge_date = oriday + 3, pagerank = 0\<rparr>] 0 val 1 =
     Some \<lparr>judge_date = oriday + 3, pagerank = val 1\<rparr>"
  by (simp add: pr_snapshot_def in_window_def day_s_def day_e_def)

text \<open>C11: \<open>PGRunner.runall\<close> does not keep tags independent:
  the snapshot it writes into a tag's table depends on the tags run before it on the same
  runner. Run alone, tag \<open>php\<close> gives its judged user 1 the scaled score 1.0; run after
  tag \<open>java\<close> (the spec's first scenario), whose final scores \<open>self.pager\<close> warm-start
  \<open>php\<close>'s first PageRank call, the same user gets a different value.\<close>

theorem runall_tag_depends:
  "\<exists>p1 db1 p2 db2 t1 t2.
     pg_runall (scen_qs @ cyc_qs) (oriday + 516) [''java'', ''php''] (Map.empty, runall_db) = Inr (p1, db1) \<and>
     pg_runall (scen_qs @ cyc_qs) (oriday + 516) [''php''] (Map.empty, runall_db) = Inr (p2, db2) \<and>
     db1 ''php'' = Some t1 \<and> db2 ''php'' = Some t2 \<and>
     map_option pagerank (t2 1) = Some 1 \<and> map_option pagerank (t1 1) \<noteq> Some 1"
proof -
  let ?qs = "scen_qs @ cyc_qs" and ?T = "oriday + 516"
  let ?tp = "[1 \<mapsto> \<lparr>judge_date = oriday + 3, pagerank = 0\<rparr>] :: uid \<rightharpoonup> pr_row"
  let ?u = "map_of [(2, 1 / 2), (1, 1 / 2)] :: uid \<rightharpoonup> score"
  have n: "[0..<window_count ?T] = [0]" by (simp add: window_count_def py_trunc_div_def)
  have esc: "tra_escape ''java'' = ''java''" "tra_escape ''php'' = ''php''" by (simp_all add: tra_escape_def)
  obtain st1 where w0: "pr_window ''java'' scen_qs 0 \<lparr>graph = empty_graph, pager = Map.empty, pr_table = Map.empty\<rparr> = Inr st1"
    and g1: "graph st1 = scen_g1" and pos1: "\<forall>u v. pager st1 u = Some v \<longrightarrow> 0 < v"
    and ab: "\<exists>a b. pager st1 1 = Some a \<and> pager st1 2 = Some b \<and> a < b"
    using scen_window0 by blast
  then obtain a b where a: "pager st1 1 = Some a" and b: "pager st1 2 = Some b" and lt: "a < b" by blast
  have "pager_dist scen_g1 (pager st1)"
    using pr_window_dist [OF _ _ w0] g1 by (simp add: empty_graph_def wf_graph_def)
  then have ab1: "a + b = 1" using a b by (simp add: pager_dist_def scen_g1_def pager_get_def)
  have run1: "pg_run ''java'' ?qs ?T Map.empty Map.empty = Inr st1"
    using w0 pr_window_feed [OF java_edges] by (simp add: pg_run_def n)
  obtain st2 m where w2: "pr_window ''php'' ?qs 0 \<lparr>graph = empty_graph, pager = pager st1, pr_table = ?tp\<rparr> = Inr st2"
    and t2: "pr_table st2 = pr_snapshot ?tp 0 (\<lambda>u. pager_get (pager st2) u * 2)"
    and c2: "pager_get (pager st2) 1 - 1 / 2 = (- alpha) ^ m * (start_vec cyc_g (?u ++ pager st1) 1 - 1 / 2)"
    using cyc_window [OF pos1] by blast
  have pos0: "\<forall>u v. (Map.empty :: uid \<rightharpoonup> score) u = Some v \<longrightarrow> 0 < v" by simp
  obtain st3 m' where w3: "pr_window ''php'' ?qs 0 \<lparr>graph = empty_graph, pager = Map.empty, pr_table = ?tp\<rparr> = Inr st3"
    and t3: "pr_table st3 = pr_snapshot ?tp 0 (\<lambda>u. pager_get (pager st3) u * 2)"
    and c3: "pager_get (pager st3) 1 - 1 / 2 = (- alpha) ^ m' * (start_vec cyc_g (?u ++ Map.empty) 1 - 1 / 2)"
    using cyc_window [OF pos0] by blast
  have sv: "start_vec cyc_g (?u ++ pager st1) 1 = a"
    using a b ab1 by (simp add: start_vec_def cyc_g_def map_add_def add.commute)
  have "a - 1 / 2 \<noteq> 0" using lt ab1 by linarith
  moreover have "(- alpha) ^ m \<noteq> 0" using alpha_pos by simp
  ultimately have "(- alpha) ^ m * (a - 1 / 2) \<noteq> 0" by simp
  then have v2: "pager_get (pager st2) 1 \<noteq> 1 / 2" using c2 unfolding sv by linarith
  have sv3: "start_vec cyc_g (?u ++ Map.empty) 1 = 1 / 2" by (simp add: start_vec_def cyc_g_def)
  have "pager_get (pager st3) 1 - 1 / 2 = 0" using c3 unfolding sv3 by simp
  then have v3: "pager_get (pager st3) 1 = 1 / 2" by linarith
  have r2: "pg_run ''php'' ?qs ?T (pager st1) ?tp = Inr st2" using w2 by (simp add: pg_run_def n)
  have r3: "pg_run ''php'' ?qs ?T Map.empty ?tp = Inr st3" using w3 by (simp add: pg_run_def n)
  have "pg_runall ?qs ?T [''java'', ''php''] (Map.empty, runall_db) =
          Inr (pager st2, runall_db(''java'' \<mapsto> pr_table st1, ''php'' \<mapsto> pr_table st2))"
    using run1 r2 by (simp add: pg_runall_def pg_run_tag_def esc runall_db_def)
  moreover have "pg_runall ?qs ?T [''php''] (Map.empty, runall_db) =
          Inr (pager st3, runall_db(''php'' \<mapsto> pr_table st3))"
    using r3 by (simp add: pg_runall_def pg_run_tag_def esc runall_db_def)
  moreover have "map_option pagerank (pr_table st3 1) = Some 1" using t3 v3 by (simp add: php_row)
  moreover have "map_option pagerank (pr_table st2 1) \<noteq> Some 1" using t2 v2 by (simp add: php_row)
  ultimately show ?thesis by auto
qed

section \<open>The TrueSkill tables and the dataset\<close>

text \<open>
  C10: the pipeline \<open>TrueSkillRunner.create_table\<close> then
  \<open>dataset_gen\<close> cannot produce the dataset: the TrueSkill database holds only the table
  \<open>tag\<close>, so reading the TrueSkill snapshot of the first tag \<open>css\<close> raises
  \<open>DatabaseError\<close> (once its PageRank table exists).
\<close>

theorem ts_pipeline_no_dataset:
  assumes ct: "ts_create_table sc qs (tags_query tgs) \<lparr>tables = Map.empty, indexes = []\<rparr> = Inr st"
    and pg: "pgr ''css'' = Some pt"
  shows "ds_gen feats pgr (tables st) db = Inl (DatabaseError ''no such table: css'')"
proof -
  have "''css'' \<notin> dom (tables st)" unfolding ts_create_table_dom [OF ct] by simp
  then have "tables st ''css'' = None" by (simp add: domIff)
  then have "ds_one feats pgr (tables st) ''css'' db = Inl (DatabaseError ''no such table: css'')"
    using pg by (simp add: ds_one_def sq_pgr_def sq_ts_def)
  then have "fold_err (ds_one feats pgr (tables st)) (''css'' # tl ds_tags) db = Inl (DatabaseError ''no such table: css'')"
    by (rule fold_err_Cons_Inl)
  moreover have "''css'' # tl ds_tags = ds_tags" by (simp add: ds_tags_def)
  ultimately show ?thesis by (simp only: ds_gen_def)
qed

lemma ts_pipeline_no_dataset_witness:
  "ts_create_table Map.empty [] (tags_query [''css'']) \<lparr>tables = Map.empty, indexes = []\<rparr> =
     Inr (projr (ts_create_table Map.empty [] (tags_query [''css'']) \<lparr>tables = Map.empty, indexes = []\<rparr>)) \<and>
   [''css'' \<mapsto> Map.empty] ''css'' = Some (Map.empty :: uid \<rightharpoonup> pr_row) \<and>
   ds_gen (\<lambda>_. Map.empty :: uid \<rightharpoonup> unit) [''css'' \<mapsto> Map.empty]
     (tables (projr (ts_create_table Map.empty [] (tags_query [''css'']) \<lparr>tables = Map.empty, indexes = []\<rparr>)))
     Map.empty = Inl (DatabaseError ''no such table: css'')"
proof -
  have ct: "ts_create_table Map.empty [] (tags_query [''css'']) \<lparr>tables = Map.empty, indexes = []\<rparr> =
     Inr (projr (ts_create_table Map.empty [] (tags_query [''css'']) \<lparr>tables = Map.empty, indexes = []\<rparr>))"
    by (simp add: ts_create_table_def ts_create_one_def ts_user_rows_def tags_query_def tra_escape_def Let_def)
  have pg: "[''css'' \<mapsto> Map.empty] ''css'' = Some (Map.empty :: uid \<rightharpoonup> pr_row)" by simp
  from ts_pipeline_no_dataset [where pgr = "[''css'' \<mapsto> Map.empty]" and feats = "\<lambda>_. Map.empty :: uid \<rightharpoonup> unit"
      and db = Map.empty, OF ct pg] ct pg
  show ?thesis by simp
qed
end
